(* ===== verification/Prelude.thy ===== *)
theory Prelude
  imports Main "HOL-Library.Word" "HOL-Library.Sublist"
begin

text \<open>
  The shared layer of the development.  It fixes the machine types of the C code, the type
  of outcomes of C code that can go wrong at run time, a small weakest-precondition
  vocabulary for such outcomes, the contract of a C loop, and little-endian byte encodings.
\<close>

unbundle bit_operations_syntax

section \<open>Machine types\<close>

type_synonym u8 = "8 word"
type_synonym u16 = "16 word"
type_synonym u32 = "32 word"
type_synonym u64 = "64 word"

named_theorems wp \<open>rules that compute when an outcome is free of faults and satisfies a predicate\<close>
named_theorems cstr \<open>facts about the C string functions\<close>

section \<open>Outcomes\<close>

text \<open>
  A C function of the model returns \<open>fault + 'a\<close>: \<open>Inr\<close> is an ordinary return, \<open>Inl\<close> the
  point where the C program has no defined behaviour (an access outside an array, a write past
  the end of a buffer, a division by zero, a read of an uninitialised variable, a null pointer
  dereference), where an \<open>assert\<close> aborts it, or where a retry loop has used up the fuel given
  to it.  Error codes the C code returns itself are ordinary \<open>Inr\<close> values.
\<close>

datatype fault =
    Buffer_overflow
  | Out_of_bounds
  | Div_by_zero
  | Assert_failed
  | Null_deref
  | Uninit_read
  | No_fuel

type_synonym 'a res = "fault + 'a"

definition bind_res :: "'a res \<Rightarrow> ('a \<Rightarrow> 'b res) \<Rightarrow> 'b res" where
  "bind_res m f = (case m of Inl e \<Rightarrow> Inl e | Inr x \<Rightarrow> f x)"

lemma bind_res_simps [simp]:
  "bind_res (Inl e) f = Inl e"
  "bind_res (Inr x) f = f x"
  by (simp_all add: bind_res_def)

lemma bind_res_cong [fundef_cong]:
  "m = m' \<Longrightarrow> (\<And>x. m' = Inr x \<Longrightarrow> f x = f' x) \<Longrightarrow> bind_res m f = bind_res m' f'"
  by (cases m') auto

lemma bind_res_eq_Inr: "bind_res m f = Inr y \<longleftrightarrow> (\<exists>x. m = Inr x \<and> f x = Inr y)"
  by (cases m) auto

lemma bind_res_assoc: "bind_res (bind_res m f) g = bind_res m (\<lambda>x. bind_res (f x) g)"
  by (cases m) auto

text \<open>
  \<open>post Q m\<close>: if \<open>m\<close> returns, the value satisfies \<open>Q\<close> (partial correctness).
  \<open>safe Q m\<close>: \<open>m\<close> returns, and the value satisfies \<open>Q\<close> (no fault occurs).
\<close>

definition post :: "('a \<Rightarrow> bool) \<Rightarrow> 'a res \<Rightarrow> bool" where
  "post Q m = (case m of Inl _ \<Rightarrow> True | Inr x \<Rightarrow> Q x)"

definition safe :: "('a \<Rightarrow> bool) \<Rightarrow> 'a res \<Rightarrow> bool" where
  "safe Q m = (case m of Inl _ \<Rightarrow> False | Inr x \<Rightarrow> Q x)"

lemma post_simps [simp]: "post Q (Inl e)" "post Q (Inr x) = Q x"
  by (simp_all add: post_def)

lemma safe_simps [simp]: "\<not> safe Q (Inl e)" "safe Q (Inr x) = Q x"
  by (simp_all add: safe_def)

lemma post_bind [wp]: "post Q (bind_res m f) = post (\<lambda>x. post Q (f x)) m"
  by (cases m) auto

lemma safe_bind [wp]: "safe Q (bind_res m f) = safe (\<lambda>x. safe Q (f x)) m"
  by (cases m) auto

lemma post_mono: "post P m \<Longrightarrow> (\<And>x. P x \<Longrightarrow> Q x) \<Longrightarrow> post Q m"
  by (cases m) auto

lemma safe_mono: "safe P m \<Longrightarrow> (\<And>x. P x \<Longrightarrow> Q x) \<Longrightarrow> safe Q m"
  by (cases m) auto

lemma postI: "(\<And>x. m = Inr x \<Longrightarrow> Q x) \<Longrightarrow> post Q m"
  by (cases m) auto

lemma post_all: "(\<And>x. Q x) \<Longrightarrow> post Q m"
  by (cases m) auto

lemma postD: "post Q m \<Longrightarrow> m = Inr x \<Longrightarrow> Q x"
  by simp

lemma safeD: "safe Q m \<Longrightarrow> \<exists>x. m = Inr x \<and> Q x"
  by (cases m) auto

lemma safe_post: "safe Q m \<Longrightarrow> post Q m"
  by (cases m) auto

lemma safe_conj_post: "safe P m \<Longrightarrow> post Q m \<Longrightarrow> safe (\<lambda>x. P x \<and> Q x) m"
  by (cases m) auto

lemma post_conj: "post P m \<Longrightarrow> post Q m \<Longrightarrow> post (\<lambda>x. P x \<and> Q x) m"
  by (cases m) auto

lemma safe_if_post: "safe (\<lambda>_. True) m \<Longrightarrow> post Q m \<Longrightarrow> safe Q m"
  by (cases m) auto

text \<open>Array accesses as the C code performs them: an index outside the array has no value.\<close>

definition nth_res :: "'a list \<Rightarrow> nat \<Rightarrow> 'a res" where
  "nth_res xs i = (if i < length xs then Inr (xs ! i) else Inl Out_of_bounds)"

definition upd_res :: "'a list \<Rightarrow> nat \<Rightarrow> 'a \<Rightarrow> 'a list res" where
  "upd_res xs i v = (if i < length xs then Inr (xs[i := v]) else Inl Out_of_bounds)"

definition slice_res :: "'a list \<Rightarrow> nat \<Rightarrow> nat \<Rightarrow> 'a list res" where
  "slice_res xs off n =
     (if off + n \<le> length xs then Inr (take n (drop off xs)) else Inl Out_of_bounds)"

lemma post_nth_res [wp]: "post Q (nth_res xs i) = (i < length xs \<longrightarrow> Q (xs ! i))"
  by (simp add: nth_res_def)

lemma safe_nth_res [wp]: "safe Q (nth_res xs i) = (i < length xs \<and> Q (xs ! i))"
  by (simp add: nth_res_def)

lemma post_upd_res [wp]: "post Q (upd_res xs i v) = (i < length xs \<longrightarrow> Q (xs[i := v]))"
  by (simp add: upd_res_def)

lemma safe_upd_res [wp]: "safe Q (upd_res xs i v) = (i < length xs \<and> Q (xs[i := v]))"
  by (simp add: upd_res_def)

lemma post_slice_res [wp]:
  "post Q (slice_res xs off n) = (off + n \<le> length xs \<longrightarrow> Q (take n (drop off xs)))"
  by (simp add: slice_res_def)

lemma safe_slice_res [wp]:
  "safe Q (slice_res xs off n) = (off + n \<le> length xs \<and> Q (take n (drop off xs)))"
  by (simp add: slice_res_def)

lemma post_if [wp]: "post Q (if b then m else n) = (if b then post Q m else post Q n)"
  by simp

lemma safe_if [wp]: "safe Q (if b then m else n) = (if b then safe Q m else safe Q n)"
  by simp

section \<open>Loops that may return\<close>

text \<open>
  The contract of a C loop over a list of items: the body either returns from the function with
  a result (\<open>Inl\<close>) or goes on with a new state (\<open>Inr\<close>); after the last item the function returns
  \<open>fin\<close> of the state.  An invariant may depend on the items that are left.
\<close>

locale c_loop =
  fixes body :: "'i \<Rightarrow> 's \<Rightarrow> ('r + 's) res"
    and loop :: "'i list \<Rightarrow> 's \<Rightarrow> 'r res"
    and fin :: "'s \<Rightarrow> 'r"
  assumes loop_Nil: "loop [] s = Inr (fin s)"
    and loop_Cons: "loop (i # is) s = bind_res (body i s) (case_sum Inr (loop is))"
begin

lemma loop_post_suffix:
  assumes "\<And>i js s. suffix (i # js) is \<Longrightarrow> I (i # js) s \<Longrightarrow> post (case_sum Q (I js)) (body i s)"
    and "\<And>s. I [] s \<Longrightarrow> Q (fin s)" and "I is s"
  shows "post Q (loop is s)"
  using assms
proof (induction "is" arbitrary: s)
  case (Cons i js)
  have step: "post (case_sum Q (I js)) (body i s)"
    using Cons.prems by auto
  have "post Q (loop js t)" if "I js t" for t
    using Cons.prems that by (intro Cons.IH) (auto simp: suffix_Cons)
  then show ?case
    using step by (cases "body i s") (auto simp: loop_Cons split: sum.splits)
qed (simp add: loop_Nil)

lemma loop_safe_suffix:
  assumes "\<And>i js s. suffix (i # js) is \<Longrightarrow> I (i # js) s \<Longrightarrow> safe (case_sum Q (I js)) (body i s)"
    and "\<And>s. I [] s \<Longrightarrow> Q (fin s)" and "I is s"
  shows "safe Q (loop is s)"
  using assms
proof (induction "is" arbitrary: s)
  case (Cons i js)
  have step: "safe (case_sum Q (I js)) (body i s)"
    using Cons.prems by auto
  have "safe Q (loop js t)" if "I js t" for t
    using Cons.prems that by (intro Cons.IH) (auto simp: suffix_Cons)
  then show ?case
    using step by (cases "body i s") (auto simp: loop_Cons split: sum.splits)
qed (simp add: loop_Nil)

lemma loop_post:
  assumes "\<And>i s. i \<in> set is \<Longrightarrow> I s \<Longrightarrow> post (case_sum Q I) (body i s)"
    and "\<And>s. I s \<Longrightarrow> Q (fin s)" and "I s"
  shows "post Q (loop is s)"
  using assms by (intro loop_post_suffix [where I = "\<lambda>_. I"]) (auto dest: set_mono_suffix)

lemma loop_safe:
  assumes "\<And>i s. i \<in> set is \<Longrightarrow> I s \<Longrightarrow> safe (case_sum Q I) (body i s)"
    and "\<And>s. I s \<Longrightarrow> Q (fin s)" and "I s"
  shows "safe Q (loop is s)"
  using assms by (intro loop_safe_suffix [where I = "\<lambda>_. I"]) (auto dest: set_mono_suffix)

end

section \<open>Little-endian bytes\<close>

primrec le_bytes :: "nat \<Rightarrow> nat \<Rightarrow> u8 list" where
  "le_bytes 0 x = []"
| "le_bytes (Suc n) x = word_of_nat (x mod 256) # le_bytes n (x div 256)"

primrec le_nat :: "u8 list \<Rightarrow> nat" where
  "le_nat [] = 0"
| "le_nat (b # bs) = unat b + 256 * le_nat bs"

lemma length_le_bytes [simp]: "length (le_bytes n x) = n"
  by (induction n arbitrary: x) auto

lemma unat_u8_lt [simp]: "unat (b :: u8) < 256"
  using unsigned_less [of b] by simp

lemma le_nat_lt: "le_nat bs < 256 ^ length bs"
proof (induction bs)
  case (Cons b bs)
  have "le_nat (b # bs) < 256 + 256 * le_nat bs"
    by simp
  also have "\<dots> \<le> 256 * 256 ^ length bs"
    using Cons.IH by (metis Suc_leI mult_Suc_right mult_le_mono2)
  finally show ?case by simp
qed simp

lemma le_nat_le_bytes: "le_nat (le_bytes n x) = x mod 256 ^ n"
proof (induction n arbitrary: x)
  case (Suc n)
  have "unat (word_of_nat (x mod 256) :: u8) = x mod 256"
    by (simp add: unat_of_nat)
  moreover have "x mod 256 + 256 * (x div 256 mod 256 ^ n) = x mod (256 * 256 ^ n)"
    by (metis add.commute mod_mult2_eq)
  ultimately show ?case
    by (simp add: Suc.IH)
qed simp

lemma le_bytes_le_nat: "length bs = n \<Longrightarrow> le_bytes n (le_nat bs) = bs"
proof (induction n arbitrary: bs)
  case (Suc n)
  then obtain b cs where bs: "bs = b # cs" "length cs = n"
    by (cases bs) auto
  have "(unat b + 256 * le_nat cs) mod 256 = unat b"
    and "(unat b + 256 * le_nat cs) div 256 = le_nat cs"
    by simp_all
  then show ?case
    using Suc.IH [OF bs(2)] bs by simp
qed simp

definition word_bytes :: "'a :: len word \<Rightarrow> u8 list" where
  "word_bytes w = le_bytes (LENGTH('a) div 8) (unat w)"

definition bytes_word :: "u8 list \<Rightarrow> 'a :: len word" where
  "bytes_word bs = word_of_nat (le_nat bs)"

lemma bytes_word_word_bytes:
  assumes "8 dvd LENGTH('a)"
  shows "bytes_word (word_bytes (w :: 'a :: len word)) = w"
proof -
  have "(2 :: nat) ^ LENGTH('a) = (2 ^ 8) ^ (LENGTH('a) div 8)"
    using assms by (simp only: power_mult [symmetric] dvd_mult_div_cancel)
  then have "256 ^ (LENGTH('a) div 8) = (2 :: nat) ^ LENGTH('a)"
    by simp
  moreover have "unat w < 2 ^ LENGTH('a)"
    by (rule unsigned_less)
  ultimately show ?thesis
    by (simp add: bytes_word_def word_bytes_def le_nat_le_bytes)
qed

lemmas bytes_word_cancel [simp] =
  bytes_word_word_bytes [where 'a = 16, simplified]
  bytes_word_word_bytes [where 'a = 32, simplified]
  bytes_word_word_bytes [where 'a = 64, simplified]

lemma length_word_bytes [simp]: "length (word_bytes (w :: 'a :: len word)) = LENGTH('a) div 8"
  by (simp add: word_bytes_def)

lemma take_drop_concat_uniform:
  "\<forall>x \<in> set xs. length (f x) = n \<Longrightarrow> i < length xs \<Longrightarrow>
     take n (drop (n * i) (concat (map f xs))) = f (xs ! i)"
proof (induction xs arbitrary: i)
  case (Cons x xs)
  then show ?case
    by (cases i) (auto simp: algebra_simps)
qed simp

lemma length_concat_uniform:
  "\<forall>x \<in> set xs. length (f x) = n \<Longrightarrow> length (concat (map f xs)) = n * length xs"
  by (induction xs) (auto simp: algebra_simps)

end
