(* ===== verification/C_Lib.thy ===== *)
theory C_Lib
  imports Prelude
begin

text \<open>
  The functions of the C library that the sources call, on strings without their terminating
  NUL byte: character classes, comparison, number parsing and the bounded and unbounded
  ways of filling a character array.
\<close>

section \<open>Characters and bytes\<close>

definition isspace :: "char \<Rightarrow> bool" where
  "isspace c = (let n = (of_char c :: nat) in n = 32 \<or> (9 \<le> n \<and> n \<le> 13))"

definition isdigit :: "char \<Rightarrow> bool" where
  "isdigit c = (let n = (of_char c :: nat) in 48 \<le> n \<and> n \<le> 57)"

definition digit_val :: "char \<Rightarrow> nat" where
  "digit_val c = of_char c - 48"

text \<open>The string that starts at the first byte of a buffer, up to its first NUL byte.\<close>

definition string_of_bytes :: "u8 list \<Rightarrow> string" where
  "string_of_bytes bs = map (\<lambda>b. char_of (unat b)) (takeWhile (\<lambda>b. b \<noteq> 0) bs)"

definition bytes_of_string :: "string \<Rightarrow> u8 list" where
  "bytes_of_string s = map (\<lambda>c. word_of_nat (of_char c)) s"

lemma length_bytes_of_string [simp]: "length (bytes_of_string s) = length s"
  by (simp add: bytes_of_string_def)

lemma length_string_of_bytes: "length (string_of_bytes bs) \<le> length bs"
  by (simp add: string_of_bytes_def length_takeWhile_le)

section \<open>Comparison\<close>

text \<open>
  \<open>strncmp(s, t, n) == 0\<close> compares up to \<open>n\<close> characters and stops after a common NUL, so on
  strings without NUL it compares the first \<open>n\<close> characters, or all of them.
\<close>

definition strncmp_eq :: "string \<Rightarrow> string \<Rightarrow> nat \<Rightarrow> bool" where
  "strncmp_eq s t n = (take n s = take n t)"

lemma strncmp_eq_prefix [cstr]: "strncmp_eq s t (length t) = prefix t s"
  by (metis append_eq_conv_conj prefix_def prefix_order.order_refl prefix_prefix
      strncmp_eq_def take_all_iff take_is_prefix)

section \<open>Numbers\<close>

primrec read_digits :: "string \<Rightarrow> nat \<Rightarrow> nat" where
  "read_digits [] acc = acc"
| "read_digits (c # cs) acc =
     (if isdigit c then read_digits cs (10 * acc + digit_val c) else acc)"

text \<open>
  \<open>strtol(s, NULL, 10)\<close> and \<open>strtoul(s, NULL, 10)\<close>: white space, an optional sign, then the
  longest run of digits; a value out of range is cut off at the end of the range, and
  \<open>strtoul\<close> negates the value of a string with a minus sign in the unsigned type.
\<close>

definition split_sign :: "string \<Rightarrow> bool \<times> string" where
  "split_sign s = (case dropWhile isspace s of
      [] \<Rightarrow> (False, [])
    | c # cs \<Rightarrow> if c = CHR ''-'' then (True, cs)
                else if c = CHR ''+'' then (False, cs) else (False, c # cs))"

definition strtol10 :: "string \<Rightarrow> int" where
  "strtol10 s = (case split_sign s of (neg, ds) \<Rightarrow>
     let v = int (read_digits ds 0) in
     if neg then max (- (2 ^ 63)) (- v) else min (2 ^ 63 - 1) v)"

definition strtoul10 :: "string \<Rightarrow> u64" where
  "strtoul10 s = (case split_sign s of (neg, ds) \<Rightarrow>
     let v = read_digits ds 0 in
     if 2 ^ 64 \<le> v then - 1
     else if neg then - word_of_nat v else word_of_nat v)"

text \<open>\<open>atoi\<close> of the GNU C library: \<open>(int) strtol(s, NULL, 10)\<close>.\<close>

definition to_int32 :: "int \<Rightarrow> int" where
  "to_int32 i = sint (word_of_int i :: u32)"

definition atoi :: "string \<Rightarrow> int" where
  "atoi s = to_int32 (strtol10 s)"

lemma to_int32_id: "- (2 ^ 31) \<le> i \<Longrightarrow> i < 2 ^ 31 \<Longrightarrow> to_int32 i = i"
  by (simp add: to_int32_def signed_of_int signed_take_bit_int_eq_self)

lemma to_int32_range: "- (2 ^ 31) \<le> to_int32 i \<and> to_int32 i < 2 ^ 31"
  unfolding to_int32_def
  using sint_greater_eq [of "word_of_int i :: u32"] sint_less [of "word_of_int i :: u32"]
  by simp

lemma isdigit_not_space: "isdigit c \<Longrightarrow> \<not> isspace c"
  by (auto simp: isdigit_def isspace_def Let_def)

lemma isdigit_not_sign: "isdigit c \<Longrightarrow> c \<noteq> CHR ''-'' \<and> c \<noteq> CHR ''+''"
  by (auto simp: isdigit_def Let_def)

lemma split_sign_digit [cstr]: "isdigit c \<Longrightarrow> split_sign (c # cs) = (False, c # cs)"
  using isdigit_not_space [of c] isdigit_not_sign [of c] by (simp add: split_sign_def)

lemma strtol10_digit [cstr]:
  "isdigit c \<Longrightarrow> strtol10 (c # cs) = min (2 ^ 63 - 1) (int (read_digits (c # cs) 0))"
  by (simp add: strtol10_def split_sign_digit del: read_digits.simps)

lemma digit_val_le: "isdigit c \<Longrightarrow> digit_val c \<le> 9"
  by (auto simp: isdigit_def digit_val_def Let_def)

section \<open>Filling character arrays\<close>

text \<open>\<open>snprintf(buf, n, ...)\<close> keeps at most \<open>n - 1\<close> characters of the formatted text.\<close>

definition snprintf_buf :: "nat \<Rightarrow> string \<Rightarrow> string" where
  "snprintf_buf n s = take (n - 1) s"

lemma length_snprintf_buf [cstr]: "length (snprintf_buf n s) \<le> n - 1"
  by (simp add: snprintf_buf_def)

lemma snprintf_buf_id [cstr]: "length s < n \<Longrightarrow> snprintf_buf n s = s"
  by (simp add: snprintf_buf_def)

text \<open>
  \<open>strcpy\<close> and \<open>strcat\<close> into an array of \<open>n\<close> bytes do not check its size: the text and its NUL
  byte have to fit.
\<close>

definition strcat_res :: "nat \<Rightarrow> string \<Rightarrow> string \<Rightarrow> string res" where
  "strcat_res n buf s =
     (if length buf + length s < n then Inr (buf @ s) else Inl Buffer_overflow)"

definition strcpy_res :: "nat \<Rightarrow> string \<Rightarrow> string res" where
  "strcpy_res n s = strcat_res n [] s"

primrec strcats_res :: "nat \<Rightarrow> string \<Rightarrow> string list \<Rightarrow> string res" where
  "strcats_res n buf [] = Inr buf"
| "strcats_res n buf (s # ss) = bind_res (strcat_res n buf s) (\<lambda>b. strcats_res n b ss)"

lemma strcat_res_eq_Inr [cstr]:
  "strcat_res n buf s = Inr b \<longleftrightarrow> length buf + length s < n \<and> b = buf @ s"
  by (auto simp: strcat_res_def)

lemma strcats_res_Inr [cstr]:
  "length (buf @ concat ss) < n \<Longrightarrow> strcats_res n buf ss = Inr (buf @ concat ss)"
  by (induction ss arbitrary: buf) (auto simp: strcat_res_def)

lemma strcats_res_eq_Inr [cstr]:
  "ss \<noteq> [] \<Longrightarrow> strcats_res n buf ss = Inr b \<longleftrightarrow>
     length (buf @ concat ss) < n \<and> b = buf @ concat ss"
proof (induction ss arbitrary: buf)
  case (Cons s ss)
  show ?case
  proof (cases ss)
    case Nil
    then show ?thesis by (auto simp: strcat_res_def)
  next
    case (Cons t ts)
    then have "ss \<noteq> []" by simp
    from Cons.IH [OF this] show ?thesis by (auto simp: strcat_res_def)
  qed
qed simp

section \<open>Decimal output\<close>

fun dec_nat :: "nat \<Rightarrow> string" where
  "dec_nat n = (if n < 10 then [char_of (48 + n)] else dec_nat (n div 10) @ [char_of (48 + n mod 10)])"

declare dec_nat.simps [simp del]

definition dec :: "int \<Rightarrow> string" where
  "dec i = (if i < 0 then CHR ''-'' # dec_nat (nat (- i)) else dec_nat (nat i))"

lemma isdigit_char_of [simp]: "(n :: nat) < 10 \<Longrightarrow> isdigit (char_of (48 + n))"
  by (simp add: isdigit_def Let_def of_char_of)

lemma digit_val_char_of [simp]: "(n :: nat) < 10 \<Longrightarrow> digit_val (char_of (48 + n)) = n"
  by (simp add: digit_val_def of_char_of)

lemma read_digits_snoc:
  "\<forall>c \<in> set cs. isdigit c \<Longrightarrow> isdigit d \<Longrightarrow>
     read_digits (cs @ [d]) acc = 10 * read_digits cs acc + digit_val d"
  by (induction cs arbitrary: acc) auto

lemma dec_nat_digits: "\<forall>c \<in> set (dec_nat n). isdigit c"
  by (induction n rule: dec_nat.induct) (subst dec_nat.simps, auto)

lemma dec_nat_nonempty: "dec_nat n \<noteq> []"
  by (subst dec_nat.simps) auto

lemma read_digits_dec_nat: "read_digits (dec_nat n) 0 = n"
proof (induction n rule: dec_nat.induct)
  case (1 n)
  show ?case
  proof (cases "n < 10")
    case True
    then show ?thesis by (subst dec_nat.simps) simp
  next
    case False
    then have "read_digits (dec_nat n) 0 =
        read_digits (dec_nat (n div 10) @ [char_of (48 + n mod 10)]) 0"
      by (subst dec_nat.simps) simp
    also have "\<dots> = 10 * (n div 10) + n mod 10"
      using "1.IH" [OF False] by (simp add: read_digits_snoc dec_nat_digits)
    finally show ?thesis by simp
  qed
qed

lemma atoi_dec_nat:
  assumes "n < 2 ^ 31"
  shows "atoi (dec_nat n) = int n"
proof -
  obtain c cs where d: "dec_nat n = c # cs"
    using dec_nat_nonempty by (cases "dec_nat n") auto
  then have "isdigit c"
    using dec_nat_digits [of n] by simp
  then have "strtol10 (dec_nat n) = min (2 ^ 63 - 1) (int n)"
    by (simp only: d strtol10_digit) (simp add: read_digits_dec_nat flip: d del: read_digits.simps)
  also have "\<dots> = int n"
    using assms by simp
  finally show ?thesis
    using assms by (simp add: atoi_def to_int32_id)
qed

end
