(* ===== verification/Sys_Env.thy ===== *)
theory Sys_Env
  imports C_Lib
begin

text \<open>
  The boundary between the user-space code and the operating system.  Every call that leaves
  the program (system calls and memory allocation) is a value of type \<open>call\<close>; the operating
  system is the parameter \<open>env\<close>, an arbitrary function from the calls made so far and the
  current call to a reply.  The model of a program keeps the list of its calls, so the
  properties can speak about what it asked the system to do and in which order.
\<close>

section \<open>Arguments of system calls\<close>

datatype oflag = O_RDONLY | O_WRONLY | O_RDWR | O_APPEND | O_TRUNC | O_CREAT

datatype ioctl_req = PERF_EVENT_IOC_ENABLE | PERF_EVENT_IOC_SET_BPF

record perf_event_attr =
  pe_type :: u32
  pe_size :: u32
  pe_config :: u64
  pe_sample_period :: u64
  pe_sample_type :: u64
  pe_freq :: bool
  pe_inherit :: bool
  pe_wakeup_events :: u32
  pe_config1 :: u64
  pe_config2 :: u64

definition perf_attr_zero :: perf_event_attr where
  "perf_attr_zero = \<lparr>pe_type = 0, pe_size = 0, pe_config = 0, pe_sample_period = 0,
     pe_sample_type = 0, pe_freq = False, pe_inherit = False, pe_wakeup_events = 0,
     pe_config1 = 0, pe_config2 = 0\<rparr>"

abbreviation PERF_TYPE_SOFTWARE :: u32 where "PERF_TYPE_SOFTWARE \<equiv> 1"
abbreviation PERF_TYPE_TRACEPOINT :: u32 where "PERF_TYPE_TRACEPOINT \<equiv> 2"
abbreviation PERF_COUNT_SW_CPU_CLOCK :: u64 where "PERF_COUNT_SW_CPU_CLOCK \<equiv> 0"
abbreviation PERF_SAMPLE_RAW :: u64 where "PERF_SAMPLE_RAW \<equiv> 1024"

abbreviation EAGAIN :: int where "EAGAIN \<equiv> 11"
abbreviation E2BIG :: int where "E2BIG \<equiv> 7"
abbreviation EINVAL :: int where "EINVAL \<equiv> 22"
abbreviation EFBIG :: int where "EFBIG \<equiv> 27"

section \<open>The bpf system call\<close>

datatype bpf_cmd =
    BPF_MAP_CREATE | BPF_MAP_LOOKUP_ELEM | BPF_MAP_UPDATE_ELEM | BPF_MAP_DELETE_ELEM
  | BPF_MAP_GET_NEXT_KEY | BPF_PROG_LOAD | BPF_OBJ_PIN | BPF_OBJ_GET | BPF_PROG_ATTACH
  | BPF_PROG_DETACH | BPF_PROG_TEST_RUN | BPF_PROG_GET_NEXT_ID | BPF_MAP_GET_NEXT_ID
  | BPF_PROG_GET_FD_BY_ID | BPF_MAP_GET_FD_BY_ID | BPF_OBJ_GET_INFO_BY_FD | BPF_PROG_QUERY
  | BPF_RAW_TRACEPOINT_OPEN | BPF_BTF_LOAD | BPF_BTF_GET_FD_BY_ID | BPF_TASK_FD_QUERY
  | BPF_MAP_LOOKUP_AND_DELETE_ELEM | BPF_MAP_FREEZE | BPF_BTF_GET_NEXT_ID

datatype bpf_prog_type =
    BPF_PROG_TYPE_UNSPEC | BPF_PROG_TYPE_SOCKET_FILTER | BPF_PROG_TYPE_KPROBE
  | BPF_PROG_TYPE_SCHED_CLS | BPF_PROG_TYPE_SCHED_ACT | BPF_PROG_TYPE_TRACEPOINT
  | BPF_PROG_TYPE_XDP | BPF_PROG_TYPE_PERF_EVENT | BPF_PROG_TYPE_CGROUP_SKB
  | BPF_PROG_TYPE_CGROUP_SOCK | BPF_PROG_TYPE_LWT_IN | BPF_PROG_TYPE_LWT_OUT
  | BPF_PROG_TYPE_LWT_XMIT | BPF_PROG_TYPE_SOCK_OPS | BPF_PROG_TYPE_SK_SKB
  | BPF_PROG_TYPE_CGROUP_DEVICE | BPF_PROG_TYPE_SK_MSG | BPF_PROG_TYPE_RAW_TRACEPOINT
  | BPF_PROG_TYPE_CGROUP_SOCK_ADDR | BPF_PROG_TYPE_LWT_SEG6LOCAL | BPF_PROG_TYPE_LIRC_MODE2
  | BPF_PROG_TYPE_SK_REUSEPORT | BPF_PROG_TYPE_FLOW_DISSECTOR | BPF_PROG_TYPE_CGROUP_SYSCTL
  | BPF_PROG_TYPE_RAW_TRACEPOINT_WRITABLE | BPF_PROG_TYPE_CGROUP_SOCKOPT

abbreviation BPF_MAP_TYPE_HASH :: u32 where "BPF_MAP_TYPE_HASH \<equiv> 1"
abbreviation BPF_MAP_TYPE_ARRAY :: u32 where "BPF_MAP_TYPE_ARRAY \<equiv> 2"
abbreviation BPF_MAP_TYPE_PROG_ARRAY :: u32 where "BPF_MAP_TYPE_PROG_ARRAY \<equiv> 3"
abbreviation BPF_MAP_TYPE_PERF_EVENT_ARRAY :: u32 where "BPF_MAP_TYPE_PERF_EVENT_ARRAY \<equiv> 4"
abbreviation BPF_MAP_TYPE_ARRAY_OF_MAPS :: u32 where "BPF_MAP_TYPE_ARRAY_OF_MAPS \<equiv> 12"
abbreviation BPF_MAP_TYPE_HASH_OF_MAPS :: u32 where "BPF_MAP_TYPE_HASH_OF_MAPS \<equiv> 13"
abbreviation BPF_F_NUMA_NODE :: u32 where "BPF_F_NUMA_NODE \<equiv> 4"

abbreviation BPF_ANY :: u64 where "BPF_ANY \<equiv> 0"
abbreviation BPF_NOEXIST :: u64 where "BPF_NOEXIST \<equiv> 1"

text \<open>
  The members of \<open>union bpf_attr\<close> that the code fills, one record per anonymous struct.  A
  member that holds the address of user memory is modelled by the bytes found there.
\<close>

record map_create_attr =
  a_map_type :: u32
  a_key_size :: u32
  a_value_size :: u32
  a_max_entries :: u32
  a_map_flags :: u32
  a_inner_map_fd :: u32
  a_numa_node :: u32
  a_map_name :: string
  a_map_ifindex :: u32
  a_btf_fd :: u32
  a_btf_key_type_id :: u32
  a_btf_value_type_id :: u32

record map_elem_attr =
  a_elem_fd :: u32
  a_key :: "u8 list"
  a_value :: "u8 list"
  a_flags :: u64

record prog_load_attr =
  a_prog_type :: bpf_prog_type
  a_insn_cnt :: u32
  a_insns :: "u8 list"
  a_license :: "u8 list"
  a_log_level :: u32
  a_log_size :: u32
  a_log_buf :: bool
  a_kern_version :: u32
  a_prog_flags :: u32
  a_prog_name :: string
  a_prog_ifindex :: u32
  a_expected_attach_type :: u32
  a_prog_btf_fd :: u32
  a_func_info_rec_size :: u32
  a_func_info :: "u8 list"
  a_func_info_cnt :: u32
  a_line_info_rec_size :: u32
  a_line_info :: "u8 list"
  a_line_info_cnt :: u32

record task_fd_attr =
  a_tfq_pid :: u32
  a_tfq_fd :: u32
  a_tfq_flags :: u32
  a_tfq_buf_len :: u32
  a_tfq_prog_id :: u32
  a_tfq_fd_type :: u32
  a_tfq_probe_offset :: u64
  a_tfq_probe_addr :: u64

record attach_attr =
  a_target_fd :: u32
  a_attach_bpf_fd :: u32
  a_attach_type :: u32
  a_attach_flags :: u32

record query_attr =
  a_q_target_fd :: u32
  a_q_attach_type :: u32
  a_q_query_flags :: u32
  a_q_attach_flags :: u32
  a_q_prog_cnt :: u32

record test_attr =
  a_t_prog_fd :: u32
  a_t_retval :: u32
  a_t_data_in :: "u8 list"
  a_t_data_out :: bool
  a_t_data_size_in :: u32
  a_t_data_size_out :: u32
  a_t_ctx_in :: "u8 list"
  a_t_ctx_out :: bool
  a_t_ctx_size_in :: u32
  a_t_ctx_size_out :: u32
  a_t_repeat :: u32
  a_t_duration :: u32

record btf_attr =
  a_btf :: "u8 list"
  a_btf_size :: u32
  a_btf_log_level :: u32
  a_btf_log_size :: u32
  a_btf_log_buf :: bool

text \<open>
  \<open>Obj\<close> has the path name and the descriptor, \<open>Obj_id\<close> the identifier of a program, a map or a BTF
  object, \<open>Next_id\<close> the identifier to start from and the next one, \<open>Info\<close> the descriptor and the
  length of the buffer.
\<close>

datatype bpf_attr =
    Map_create map_create_attr
  | Map_elem map_elem_attr
  | Prog_load prog_load_attr
  | Raw_tracepoint string u32
  | Task_fd_query task_fd_attr
  | Obj string u32
  | Attach attach_attr
  | Query query_attr
  | Test_run test_attr
  | Next_id u32 u32
  | Obj_id u32
  | Info u32 u32
  | Btf_load btf_attr

section \<open>Calls and replies\<close>

datatype call =
    Open string "oflag list"
  | Read int nat
  | Write int string
  | Close int
  | Ioctl int ioctl_req int
  | Perf_event_open perf_event_attr int int int u64
  | Bpf bpf_cmd bpf_attr
  | Malloc nat
  | Puts string
  | Read_buf int int nat
  | Libc string "int list"

text \<open>
  \<open>Read_buf\<close> is a read into the buffer at an address that the program has made known to the kernel.
  \<open>Libc\<close> stands for the other calls whose result depends on the system, such as \<open>clock\<close>, by name
  and with their integer arguments.
\<close>

text \<open>
  A reply has the returned value, the value of \<open>errno\<close> after the call, the bytes the system
  stored in the caller's buffer, and, for the bpf system call, the attributes the kernel
  changed in place.  An allocation fails when the returned value is 0.
\<close>

record reply =
  r_ret :: int
  r_errno :: int
  r_data :: "u8 list"
  r_attr :: "bpf_attr option"

type_synonym hist = "call list"
type_synonym env = "hist \<Rightarrow> call \<Rightarrow> reply"

definition sys :: "env \<Rightarrow> call \<Rightarrow> hist \<Rightarrow> reply \<times> hist" where
  "sys env c h = (env h c, h @ [c])"

lemma sys_hist [simp]: "snd (sys env c h) = h @ [c]"
  by (simp add: sys_def)

lemma sys_reply [simp]: "fst (sys env c h) = env h c"
  by (simp add: sys_def)

end
