(* ===== verification/Libbpf.thy ===== *)
theory Libbpf
  imports Sys_Env
begin

text \<open>
  The system-call wrappers of \<^verbatim>\<open>src/out-of-tree/tools/lib/bpf/bpf.c\<close> that the loader and the
  user programs call: map creation, element access, program loading with its retries, and the
  tracing queries.
\<close>

section \<open>The system call and program loading\<close>

definition sys_bpf :: "env \<Rightarrow> bpf_cmd \<Rightarrow> bpf_attr \<Rightarrow> hist \<Rightarrow> reply \<times> hist" where
  "sys_bpf env cmd attr h = sys env (Bpf cmd attr) h"

text \<open>The attributes after a call: the kernel may have changed them.\<close>

definition attr_after :: "prog_load_attr \<Rightarrow> reply \<Rightarrow> prog_load_attr" where
  "attr_after a r = (case r_attr r of Some (Prog_load a') \<Rightarrow> a' | _ \<Rightarrow> a)"

text \<open>
  The loop repeats the system call while it fails with \<open>EAGAIN\<close>; nothing bounds it, so it takes
  fuel.  It returns the last reply and the attributes as the kernel left them.
\<close>

fun sys_bpf_prog_load ::
  "nat \<Rightarrow> env \<Rightarrow> prog_load_attr \<Rightarrow> hist \<Rightarrow> (reply \<times> prog_load_attr \<times> hist) res" where
  "sys_bpf_prog_load 0 env attr h = Inl No_fuel"
| "sys_bpf_prog_load (Suc fuel) env attr h =
     (let (r, h) = sys_bpf env BPF_PROG_LOAD (Prog_load attr) h;
          attr = attr_after attr r in
      if r_ret r < 0 \<and> r_errno r = EAGAIN then sys_bpf_prog_load fuel env attr h
      else Inr (r, attr, h))"

section \<open>Creating maps\<close>

record bpf_create_map_attr =
  c_name :: "string option"
  c_map_type :: u32
  c_map_flags :: u32
  c_key_size :: u32
  c_value_size :: u32
  c_max_entries :: u32
  c_numa_node :: u32
  c_btf_fd :: u32
  c_btf_key_type_id :: u32
  c_btf_value_type_id :: u32
  c_map_ifindex :: u32
  c_inner_map_fd :: u32

definition create_map_attr_zero :: bpf_create_map_attr where
  "create_map_attr_zero = \<lparr>c_name = None, c_map_type = 0, c_map_flags = 0, c_key_size = 0,
     c_value_size = 0, c_max_entries = 0, c_numa_node = 0, c_btf_fd = 0,
     c_btf_key_type_id = 0, c_btf_value_type_id = 0, c_map_ifindex = 0, c_inner_map_fd = 0\<rparr>"

definition map_create_zero :: map_create_attr where
  "map_create_zero = \<lparr>a_map_type = 0, a_key_size = 0, a_value_size = 0, a_max_entries = 0,
     a_map_flags = 0, a_inner_map_fd = 0, a_numa_node = 0, a_map_name = [], a_map_ifindex = 0,
     a_btf_fd = 0, a_btf_key_type_id = 0, a_btf_value_type_id = 0\<rparr>"

abbreviation BPF_OBJ_NAME_LEN :: nat where "BPF_OBJ_NAME_LEN \<equiv> 16"

text \<open>The name copied into the zeroed name field: at most 15 characters, so a NUL remains.\<close>

definition obj_name :: "string option \<Rightarrow> string" where
  "obj_name n = (case n of None \<Rightarrow> []
     | Some s \<Rightarrow> take (min (length s) (BPF_OBJ_NAME_LEN - 1)) s)"

definition bpf_create_map_xattr :: "env \<Rightarrow> bpf_create_map_attr \<Rightarrow> hist \<Rightarrow> int \<times> hist" where
  "bpf_create_map_xattr env create_attr h =
     (let attr = map_create_zero
            \<lparr>a_map_type := c_map_type create_attr,
             a_key_size := c_key_size create_attr,
             a_value_size := c_value_size create_attr,
             a_max_entries := c_max_entries create_attr,
             a_map_flags := c_map_flags create_attr,
             a_map_name := obj_name (c_name create_attr),
             a_numa_node := c_numa_node create_attr,
             a_btf_fd := c_btf_fd create_attr,
             a_btf_key_type_id := c_btf_key_type_id create_attr,
             a_btf_value_type_id := c_btf_value_type_id create_attr,
             a_map_ifindex := c_map_ifindex create_attr,
             a_inner_map_fd := c_inner_map_fd create_attr\<rparr>;
          (r, h) = sys_bpf env BPF_MAP_CREATE (Map_create attr) h
      in (r_ret r, h))"

text \<open>
  The node is a C \<open>int\<close>, kept here as its 32 bits: it is used when it is not negative as a
  signed number.
\<close>

definition bpf_create_map_node ::
  "env \<Rightarrow> u32 \<Rightarrow> string option \<Rightarrow> u32 \<Rightarrow> u32 \<Rightarrow> u32 \<Rightarrow> u32 \<Rightarrow> u32 \<Rightarrow> hist \<Rightarrow> int \<times> hist" where
  "bpf_create_map_node env map_type name key_size value_size max_entries map_flags node h =
     (let map_attr = create_map_attr_zero
            \<lparr>c_name := name,
             c_map_type := map_type,
             c_map_flags := map_flags,
             c_key_size := key_size,
             c_value_size := value_size,
             c_max_entries := max_entries\<rparr>;
          map_attr = (if 0 \<le> sint node
             then map_attr\<lparr>c_numa_node := node,
                           c_map_flags := c_map_flags map_attr OR BPF_F_NUMA_NODE\<rparr>
             else map_attr)
      in bpf_create_map_xattr env map_attr h)"

definition bpf_create_map :: "env \<Rightarrow> u32 \<Rightarrow> u32 \<Rightarrow> u32 \<Rightarrow> u32 \<Rightarrow> u32 \<Rightarrow> hist \<Rightarrow> int \<times> hist" where
  "bpf_create_map env map_type key_size value_size max_entries map_flags h =
     bpf_create_map_xattr env (create_map_attr_zero
            \<lparr>c_map_type := map_type,
             c_map_flags := map_flags,
             c_key_size := key_size,
             c_value_size := value_size,
             c_max_entries := max_entries\<rparr>) h"

definition bpf_create_map_name ::
  "env \<Rightarrow> u32 \<Rightarrow> string option \<Rightarrow> u32 \<Rightarrow> u32 \<Rightarrow> u32 \<Rightarrow> u32 \<Rightarrow> hist \<Rightarrow> int \<times> hist" where
  "bpf_create_map_name env map_type name key_size value_size max_entries map_flags h =
     bpf_create_map_xattr env (create_map_attr_zero
            \<lparr>c_name := name,
             c_map_type := map_type,
             c_map_flags := map_flags,
             c_key_size := key_size,
             c_value_size := value_size,
             c_max_entries := max_entries\<rparr>) h"

definition bpf_create_map_in_map_node ::
  "env \<Rightarrow> u32 \<Rightarrow> string option \<Rightarrow> u32 \<Rightarrow> u32 \<Rightarrow> u32 \<Rightarrow> u32 \<Rightarrow> u32 \<Rightarrow> hist \<Rightarrow> int \<times> hist" where
  "bpf_create_map_in_map_node env map_type name key_size inner_map_fd max_entries map_flags node h =
     (let attr = map_create_zero
            \<lparr>a_map_type := map_type,
             a_key_size := key_size,
             a_value_size := 4,
             a_inner_map_fd := inner_map_fd,
             a_max_entries := max_entries,
             a_map_flags := map_flags,
             a_map_name := obj_name name\<rparr>;
          attr = (if 0 \<le> sint node
             then attr\<lparr>a_map_flags := a_map_flags attr OR BPF_F_NUMA_NODE,
                       a_numa_node := node\<rparr>
             else attr);
          (r, h) = sys_bpf env BPF_MAP_CREATE (Map_create attr) h
      in (r_ret r, h))"

definition bpf_create_map_in_map ::
  "env \<Rightarrow> u32 \<Rightarrow> string option \<Rightarrow> u32 \<Rightarrow> u32 \<Rightarrow> u32 \<Rightarrow> u32 \<Rightarrow> hist \<Rightarrow> int \<times> hist" where
  "bpf_create_map_in_map env map_type name key_size inner_map_fd max_entries map_flags h =
     bpf_create_map_in_map_node env map_type name key_size inner_map_fd max_entries map_flags
       (- 1) h"

section \<open>Loading programs\<close>

text \<open>
  \<open>alloc_zero_tailing_info\<close>: the copy of \<open>cnt\<close> records of \<open>actual\<close> bytes in which only the
  first \<open>expected\<close> bytes of each record are kept.  The size passed to \<open>malloc\<close> is a product of
  32-bit numbers; the copy loop writes \<open>cnt\<close> whole records.
\<close>

primrec zero_tail_records :: "nat \<Rightarrow> nat \<Rightarrow> nat \<Rightarrow> u8 list \<Rightarrow> u8 list res" where
  "zero_tail_records 0 actual expected orecord = Inr []"
| "zero_tail_records (Suc n) actual expected orecord =
     bind_res (slice_res orecord 0 expected) (\<lambda>r.
     bind_res (zero_tail_records n actual expected (drop actual orecord)) (\<lambda>rs.
     Inr (r @ replicate (actual - expected) 0 @ rs)))"

definition alloc_zero_tailing_info ::
  "env \<Rightarrow> u8 list \<Rightarrow> u32 \<Rightarrow> u32 \<Rightarrow> u32 \<Rightarrow> hist \<Rightarrow> (u8 list option \<times> hist) res" where
  "alloc_zero_tailing_info env orecord cnt actual_rec_size expected_rec_size h =
     (let info_len = unat (actual_rec_size * cnt);
          (r, h) = sys env (Malloc info_len) h in
      if r_ret r = 0 then Inr (None, h)
      else if 0 < cnt \<and>
              (actual_rec_size < expected_rec_size \<or> info_len < unat cnt * unat actual_rec_size)
      then Inl Buffer_overflow
      else bind_res
        (zero_tail_records (unat cnt) (unat actual_rec_size) (unat expected_rec_size) orecord)
        (\<lambda>info. Inr (Some info, h)))"

record bpf_load_program_attr =
  l_prog_type :: bpf_prog_type
  l_expected_attach_type :: u32
  l_name :: "string option"
  l_insns :: "u8 list"
  l_insns_cnt :: u64
  l_license :: "u8 list"
  l_kern_version :: u32
  l_prog_ifindex :: u32
  l_prog_btf_fd :: u32
  l_func_info_rec_size :: u32
  l_func_info :: "u8 list"
  l_func_info_cnt :: u32
  l_line_info_rec_size :: u32
  l_line_info :: "u8 list"
  l_line_info_cnt :: u32
  l_log_level :: u32
  l_prog_flags :: u32

text \<open>
  The loop that repairs the attributes after \<open>E2BIG\<close>.  \<open>finfo\<close> and \<open>linfo\<close> say whether the
  corrected records were already built; the first component of the result is \<open>True\<close> when the
  code jumps to its end (\<open>goto done\<close>).
\<close>

function load_again ::
  "nat \<Rightarrow> env \<Rightarrow> bpf_load_program_attr \<Rightarrow> reply \<Rightarrow> prog_load_attr \<Rightarrow> bool \<Rightarrow> bool \<Rightarrow> hist \<Rightarrow>
   (bool \<times> reply \<times> prog_load_attr \<times> hist) res" where
  "load_again fuel env load_attr r attr finfo linfo h =
     (if r_errno r = E2BIG \<and> (\<not> finfo \<or> \<not> linfo) then
        if \<not> finfo \<and> a_func_info_cnt attr \<noteq> 0 \<and>
           a_func_info_rec_size attr < l_func_info_rec_size load_attr then
          bind_res (alloc_zero_tailing_info env (l_func_info load_attr)
                      (l_func_info_cnt load_attr) (l_func_info_rec_size load_attr)
                      (a_func_info_rec_size attr) h) (\<lambda>(info, h).
            case info of
              None \<Rightarrow> Inr (True, r, attr, h)
            | Some b \<Rightarrow>
                bind_res (sys_bpf_prog_load fuel env
                   (attr\<lparr>a_func_info := b,
                         a_func_info_rec_size := l_func_info_rec_size load_attr\<rparr>) h)
                  (\<lambda>(r, attr, h).
                     if 0 \<le> r_ret r then Inr (True, r, attr, h)
                     else load_again fuel env load_attr r attr True linfo h))
        else if \<not> linfo \<and> a_line_info_cnt attr \<noteq> 0 \<and>
           a_line_info_rec_size attr < l_line_info_rec_size load_attr then
          bind_res (alloc_zero_tailing_info env (l_line_info load_attr)
                      (l_line_info_cnt load_attr) (l_line_info_rec_size load_attr)
                      (a_line_info_rec_size attr) h) (\<lambda>(info, h).
            case info of
              None \<Rightarrow> Inr (True, r, attr, h)
            | Some b \<Rightarrow>
                bind_res (sys_bpf_prog_load fuel env
                   (attr\<lparr>a_line_info := b,
                         a_line_info_rec_size := l_line_info_rec_size load_attr\<rparr>) h)
                  (\<lambda>(r, attr, h).
                     if 0 \<le> r_ret r then Inr (True, r, attr, h)
                     else load_again fuel env load_attr r attr finfo True h))
        else Inr (False, r, attr, h)
      else Inr (False, r, attr, h))"
  by pat_completeness auto
termination
  by (relation "measure (\<lambda>(fuel, env, la, r, attr, finfo, linfo, h).
        (if finfo then 0 else 1) + (if linfo then 0 else 1))") auto

declare load_again.simps [simp del]

definition load_attr_of :: "bpf_load_program_attr \<Rightarrow> bool \<Rightarrow> u64 \<Rightarrow> prog_load_attr" where
  "load_attr_of load_attr log_buf log_buf_sz =
     (let log_level = l_log_level load_attr in
      \<lparr>a_prog_type = l_prog_type load_attr,
       a_insn_cnt = ucast (l_insns_cnt load_attr),
       a_insns = l_insns load_attr,
       a_license = l_license load_attr,
       a_log_level = log_level,
       a_log_size = (if log_level \<noteq> 0 then ucast log_buf_sz else 0),
       a_log_buf = (if log_level \<noteq> 0 then log_buf else False),
       a_kern_version = l_kern_version load_attr,
       a_prog_flags = l_prog_flags load_attr,
       a_prog_name = obj_name (l_name load_attr),
       a_prog_ifindex = l_prog_ifindex load_attr,
       a_expected_attach_type = l_expected_attach_type load_attr,
       a_prog_btf_fd = l_prog_btf_fd load_attr,
       a_func_info_rec_size = l_func_info_rec_size load_attr,
       a_func_info = l_func_info load_attr,
       a_func_info_cnt = l_func_info_cnt load_attr,
       a_line_info_rec_size = l_line_info_rec_size load_attr,
       a_line_info = l_line_info load_attr,
       a_line_info_cnt = l_line_info_cnt load_attr\<rparr>)"

text \<open>
  The result is the returned value, the text the kernel wrote to the caller's log buffer if it
  was given one, and the calls made.
\<close>

definition load_log :: "prog_load_attr \<Rightarrow> reply \<Rightarrow> u8 list option" where
  "load_log attr r = (if a_log_buf attr then Some (r_data r) else None)"

definition bpf_load_program_xattr ::
  "nat \<Rightarrow> env \<Rightarrow> bpf_load_program_attr option \<Rightarrow> bool \<Rightarrow> u64 \<Rightarrow> hist \<Rightarrow>
   (int \<times> u8 list option \<times> hist) res" where
  "bpf_load_program_xattr fuel env load_attr log_buf log_buf_sz h =
     (case load_attr of
        None \<Rightarrow> Inr (- EINVAL, None, h)
      | Some la \<Rightarrow>
        if (\<not> log_buf) \<noteq> (log_buf_sz = 0) then Inr (- EINVAL, None, h)
        else if l_log_level la > 7 \<or> (l_log_level la \<noteq> 0 \<and> \<not> log_buf) then Inr (- EINVAL, None, h)
        else
          let attr = load_attr_of la log_buf log_buf_sz in
          bind_res (sys_bpf_prog_load fuel env attr h) (\<lambda>(r, attr, h).
            if 0 \<le> r_ret r then Inr (r_ret r, load_log attr r, h)
            else bind_res (load_again fuel env la r attr False False h)
              (\<lambda>(done, r, attr, h).
                 if done \<or> l_log_level la \<noteq> 0 \<or> \<not> log_buf
                 then Inr (r_ret r, load_log attr r, h)
                 else bind_res (sys_bpf_prog_load fuel env
                        (attr\<lparr>a_log_buf := log_buf, a_log_size := ucast log_buf_sz,
                              a_log_level := 1\<rparr>) h)
                      (\<lambda>(r, attr, h). Inr (r_ret r, load_log attr r, h)))))"

definition bpf_load_program ::
  "nat \<Rightarrow> env \<Rightarrow> bpf_prog_type \<Rightarrow> u8 list \<Rightarrow> u64 \<Rightarrow> u8 list \<Rightarrow> u32 \<Rightarrow> bool \<Rightarrow> u64 \<Rightarrow> hist \<Rightarrow>
   (int \<times> u8 list option \<times> hist) res" where
  "bpf_load_program fuel env type insns insns_cnt license kern_version log_buf log_buf_sz h =
     (let load_attr = \<lparr>l_prog_type = type, l_expected_attach_type = 0, l_name = None,
            l_insns = insns, l_insns_cnt = insns_cnt, l_license = license,
            l_kern_version = kern_version, l_prog_ifindex = 0, l_prog_btf_fd = 0,
            l_func_info_rec_size = 0, l_func_info = [], l_func_info_cnt = 0,
            l_line_info_rec_size = 0, l_line_info = [], l_line_info_cnt = 0,
            l_log_level = 0, l_prog_flags = 0\<rparr>
      in bpf_load_program_xattr fuel env (Some load_attr) log_buf log_buf_sz h)"

section \<open>Map elements and tracing\<close>

definition elem_attr :: "int \<Rightarrow> u8 list \<Rightarrow> u8 list \<Rightarrow> u64 \<Rightarrow> bpf_attr" where
  "elem_attr fd key val flags = Map_elem
     \<lparr>a_elem_fd = word_of_int fd, a_key = key, a_value = val, a_flags = flags\<rparr>"

definition bpf_map_update_elem ::
  "env \<Rightarrow> int \<Rightarrow> u8 list \<Rightarrow> u8 list \<Rightarrow> u64 \<Rightarrow> hist \<Rightarrow> int \<times> hist" where
  "bpf_map_update_elem env fd key val flags h =
     (let (r, h) = sys_bpf env BPF_MAP_UPDATE_ELEM (elem_attr fd key val flags) h
      in (r_ret r, h))"

text \<open>A lookup returns the bytes the kernel stored in the caller's value buffer.\<close>

definition bpf_map_lookup_elem :: "env \<Rightarrow> int \<Rightarrow> u8 list \<Rightarrow> hist \<Rightarrow> int \<times> u8 list \<times> hist" where
  "bpf_map_lookup_elem env fd key h =
     (let (r, h) = sys_bpf env BPF_MAP_LOOKUP_ELEM (elem_attr fd key [] 0) h
      in (r_ret r, r_data r, h))"

definition bpf_map_delete_elem :: "env \<Rightarrow> int \<Rightarrow> u8 list \<Rightarrow> hist \<Rightarrow> int \<times> hist" where
  "bpf_map_delete_elem env fd key h =
     (let (r, h) = sys_bpf env BPF_MAP_DELETE_ELEM (elem_attr fd key [] 0) h
      in (r_ret r, h))"

definition bpf_map_get_next_key :: "env \<Rightarrow> int \<Rightarrow> u8 list \<Rightarrow> hist \<Rightarrow> int \<times> u8 list \<times> hist" where
  "bpf_map_get_next_key env fd key h =
     (let (r, h) = sys_bpf env BPF_MAP_GET_NEXT_KEY (elem_attr fd key [] 0) h
      in (r_ret r, r_data r, h))"

definition bpf_raw_tracepoint_open :: "env \<Rightarrow> string \<Rightarrow> int \<Rightarrow> hist \<Rightarrow> int \<times> hist" where
  "bpf_raw_tracepoint_open env name prog_fd h =
     (let (r, h) = sys_bpf env BPF_RAW_TRACEPOINT_OPEN
                     (Raw_tracepoint name (word_of_int prog_fd)) h
      in (r_ret r, h))"

section \<open>Retries\<close>

text \<open>
  \<open>patient n env\<close>: among any \<open>n\<close> calls in a row, the system answers at least one with something
  other than \<open>EAGAIN\<close>.
\<close>

definition eagain :: "reply \<Rightarrow> bool" where
  "eagain r = (r_ret r < 0 \<and> r_errno r = EAGAIN)"

definition patient :: "nat \<Rightarrow> env \<Rightarrow> bool" where
  "patient n env =
     (\<forall>h cs. length cs = n \<longrightarrow> (\<exists>i < n. \<not> eagain (env (h @ take i cs) (cs ! i))))"

lemma sys_bpf_prog_load_out_of_fuel:
  "sys_bpf_prog_load fuel env attr h = Inl e \<Longrightarrow>
     e = No_fuel \<and> (\<exists>cs. length cs = fuel \<and> (\<forall>i < fuel. eagain (env (h @ take i cs) (cs ! i))))"
proof (induction fuel arbitrary: attr h)
  case (Suc fuel)
  let ?c = "Bpf BPF_PROG_LOAD (Prog_load attr)"
  have e: "eagain (env h ?c)"
    and rest: "sys_bpf_prog_load fuel env (attr_after attr (env h ?c)) (h @ [?c]) = Inl e"
    using Suc.prems
    by (auto simp: sys_bpf_def sys_def eagain_def Let_def split: if_splits)
  from Suc.IH [OF rest] obtain cs where cs: "e = No_fuel" "length cs = fuel"
      "\<forall>i < fuel. eagain (env ((h @ [?c]) @ take i cs) (cs ! i))"
    by blast
  have "eagain (env (h @ take i (?c # cs)) ((?c # cs) ! i))" if "i < Suc fuel" for i
    using that e cs(3) by (cases i) auto
  with cs show ?case
    by (intro conjI exI [of _ "?c # cs"]) simp_all
qed simp

lemma sys_bpf_prog_load_returns:
  "patient n env \<Longrightarrow> n \<le> fuel \<Longrightarrow> \<exists>x. sys_bpf_prog_load fuel env attr h = Inr x"
proof (cases "sys_bpf_prog_load fuel env attr h")
  case (Inl e)
  assume n: "patient n env" "n \<le> fuel"
  from sys_bpf_prog_load_out_of_fuel [OF Inl] obtain cs where
    cs: "length cs = fuel" "\<forall>i < fuel. eagain (env (h @ take i cs) (cs ! i))"
    by blast
  from n cs(1) obtain i where "i < n" "\<not> eagain (env (h @ take i (take n cs)) (take n cs ! i))"
    unfolding patient_def by (metis length_take min.absorb2)
  then show ?thesis
    using cs n by simp
qed blast

section \<open>What the wrappers ask for\<close>

definition prog_load_call :: "call \<Rightarrow> bool" where
  "prog_load_call c = (case c of Bpf BPF_PROG_LOAD (Prog_load _) \<Rightarrow> True | _ \<Rightarrow> False)"

text \<open>\<open>made P h h'\<close>: the calls made between \<open>h\<close> and \<open>h'\<close> all satisfy \<open>P\<close>.\<close>

definition made :: "(call \<Rightarrow> bool) \<Rightarrow> hist \<Rightarrow> hist \<Rightarrow> bool" where
  "made P h h' = (\<exists>cs. h' = h @ cs \<and> list_all P cs)"

lemma made_refl [simp, intro]: "made P h h"
  by (simp add: made_def)

lemma made_snoc [intro]: "made P h h' \<Longrightarrow> P c \<Longrightarrow> made P h (h' @ [c])"
  by (auto simp: made_def)

lemma made_trans: "made P h h' \<Longrightarrow> made P h' h'' \<Longrightarrow> made P h h''"
  by (auto simp: made_def)

lemma made_mono: "made P h h' \<Longrightarrow> (\<And>c. P c \<Longrightarrow> Q c) \<Longrightarrow> made Q h h'"
  by (auto simp: made_def list_all_iff)

lemma sys_bpf_prog_load_made:
  "sys_bpf_prog_load fuel env attr h = Inr (r, a, h') \<Longrightarrow> made prog_load_call h h' \<and> \<not> eagain r"
proof (induction fuel arbitrary: attr h)
  case (Suc fuel)
  let ?c = "Bpf BPF_PROG_LOAD (Prog_load attr)"
  have c: "made prog_load_call h (h @ [?c])"
    by (auto simp: prog_load_call_def)
  show ?case
  proof (cases "eagain (env h ?c)")
    case True
    then have "sys_bpf_prog_load fuel env (attr_after attr (env h ?c)) (h @ [?c]) = Inr (r, a, h')"
      using Suc.prems by (auto simp: sys_bpf_def sys_def eagain_def Let_def)
    from Suc.IH [OF this] show ?thesis
      using made_trans [OF c] by simp
  next
    case False
    then show ?thesis
      using Suc.prems c by (auto simp: sys_bpf_def sys_def eagain_def Let_def split: if_splits)
  qed
qed simp

text \<open>
  The simple entry point has no line or function records, so it loads once without a log and,
  when that fails, once more with the log at level 1.
\<close>

lemma load_again_no_info:
  assumes "l_func_info_rec_size la = 0" "l_line_info_rec_size la = 0"
  shows "load_again fuel env la r attr False False h = Inr (False, r, attr, h)"
  by (subst load_again.simps) (simp add: assms)

lemma bpf_load_program_eq:
  "bpf_load_program fuel env type insns cnt lic ver True sz h =
     (if sz = 0 then Inr (- EINVAL, None, h)
      else bind_res (sys_bpf_prog_load fuel env
             \<lparr>a_prog_type = type, a_insn_cnt = ucast cnt, a_insns = insns, a_license = lic,
              a_log_level = 0, a_log_size = 0, a_log_buf = False, a_kern_version = ver,
              a_prog_flags = 0, a_prog_name = [], a_prog_ifindex = 0,
              a_expected_attach_type = 0, a_prog_btf_fd = 0, a_func_info_rec_size = 0,
              a_func_info = [], a_func_info_cnt = 0, a_line_info_rec_size = 0,
              a_line_info = [], a_line_info_cnt = 0\<rparr> h) (\<lambda>(r, attr, h).
        if 0 \<le> r_ret r then Inr (r_ret r, load_log attr r, h)
        else bind_res (sys_bpf_prog_load fuel env
               (attr\<lparr>a_log_buf := True, a_log_size := ucast sz, a_log_level := 1\<rparr>) h)
             (\<lambda>(r, attr, h). Inr (r_ret r, load_log attr r, h))))"
  by (simp add: bpf_load_program_def bpf_load_program_xattr_def load_attr_of_def obj_name_def
      load_again_no_info Let_def cong: if_cong)

lemma bpf_load_program_made:
  "post (\<lambda>(fd, log, h'). made prog_load_call h h')
     (bpf_load_program fuel env type insns cnt lic ver True sz h)"
  by (rule postI)
    (auto simp: bpf_load_program_eq bind_res_eq_Inr split: if_splits
       dest!: sys_bpf_prog_load_made intro: made_trans)

lemma sys_bpf_prog_load_safe:
  assumes "patient n env" "n \<le> fuel"
  shows "safe (\<lambda>(r, a, h'). made prog_load_call h h') (sys_bpf_prog_load fuel env attr h)"
  using sys_bpf_prog_load_returns [OF assms, of attr h]
  by (auto dest: sys_bpf_prog_load_made)

lemma bpf_load_program_safe:
  assumes "patient n env" "n \<le> fuel"
  shows "safe (\<lambda>(fd, log, h'). made prog_load_call h h')
           (bpf_load_program fuel env type insns cnt lic ver True sz h)"
proof -
  note load = sys_bpf_prog_load_safe [OF assms]
  show ?thesis
    by (auto simp: bpf_load_program_eq wp intro!: safe_mono [OF load])
      (metis made_trans)
qed

section \<open>The request behind a map creation\<close>

text \<open>
  What the kernel is asked for: the parameters as given, the name cut to 15 characters, and the
  node together with its flag when a node is given.
\<close>

definition map_request ::
  "u32 \<Rightarrow> string option \<Rightarrow> u32 \<Rightarrow> u32 \<Rightarrow> u32 \<Rightarrow> u32 \<Rightarrow> u32 \<Rightarrow> u32 \<Rightarrow> call" where
  "map_request map_type name key_size value_size inner_fd max_entries map_flags node =
     Bpf BPF_MAP_CREATE (Map_create
       \<lparr>a_map_type = map_type, a_key_size = key_size, a_value_size = value_size,
        a_max_entries = max_entries,
        a_map_flags = (if 0 \<le> sint node then map_flags OR BPF_F_NUMA_NODE else map_flags),
        a_inner_map_fd = inner_fd, a_numa_node = (if 0 \<le> sint node then node else 0),
        a_map_name = obj_name name, a_map_ifindex = 0, a_btf_fd = 0,
        a_btf_key_type_id = 0, a_btf_value_type_id = 0\<rparr>)"

lemma bpf_create_map_node_eq:
  "bpf_create_map_node env t name ks vs n fl node h =
     (r_ret (env h (map_request t name ks vs 0 n fl node)), h @ [map_request t name ks vs 0 n fl node])"
  by (cases "0 \<le> sint node")
    (simp_all add: bpf_create_map_node_def bpf_create_map_xattr_def sys_bpf_def sys_def map_request_def
       Let_def map_create_zero_def create_map_attr_zero_def)

lemma bpf_create_map_in_map_node_eq:
  "bpf_create_map_in_map_node env t name ks inner n fl node h =
     (r_ret (env h (map_request t name ks 4 inner n fl node)), h @ [map_request t name ks 4 inner n fl node])"
  by (cases "0 \<le> sint node")
    (simp_all add: bpf_create_map_in_map_node_def sys_bpf_def sys_def map_request_def
       Let_def map_create_zero_def)

lemma bpf_create_map_name_eq:
  "bpf_create_map_name env t name ks vs n fl h =
     (r_ret (env h (map_request t name ks vs 0 n fl (- 1))), h @ [map_request t name ks vs 0 n fl (- 1)])"
  by (simp add: bpf_create_map_name_def bpf_create_map_xattr_def sys_bpf_def sys_def map_request_def
       Let_def map_create_zero_def create_map_attr_zero_def)

lemma length_obj_name: "length (obj_name n) \<le> 15"
  by (simp add: obj_name_def split: option.splits)

end
