(* ===== verification/Bpf_Insn.thy ===== *)
theory Bpf_Insn
  imports Prelude
begin

text \<open>
  The instruction mini library \<^verbatim>\<open>src/common/bpf_insn.h\<close>: the 8-byte instruction
  \<open>struct bpf_insn\<close>, its layout in memory, and one definition per macro.  The opcode fields come
  from \<^verbatim>\<open>src/out-of-tree/tools/include/uapi/linux/bpf_common.h\<close> and \<^verbatim>\<open>bpf.h\<close>.
\<close>

section \<open>Instructions and their layout\<close>

record bpf_insn =
  code :: u8
  dst_reg :: "4 word"
  src_reg :: "4 word"
  off :: u16
  imm :: u32

abbreviation nib_u8 :: "4 word \<Rightarrow> u8" where "nib_u8 \<equiv> ucast"
abbreviation u8_nib :: "u8 \<Rightarrow> 4 word" where "u8_nib \<equiv> ucast"
abbreviation lo32 :: "u64 \<Rightarrow> u32" where "lo32 \<equiv> ucast"
abbreviation sx64 :: "u32 \<Rightarrow> u64" where "sx64 \<equiv> scast"

text \<open>The two registers share a byte, the destination in the low half (little endian).\<close>

definition encode_insn :: "bpf_insn \<Rightarrow> u8 list" where
  "encode_insn i =
     [code i, nib_u8 (dst_reg i) OR push_bit 4 (nib_u8 (src_reg i))]
     @ word_bytes (off i) @ word_bytes (imm i)"

definition decode_insn :: "u8 list \<Rightarrow> bpf_insn" where
  "decode_insn bs =
     \<lparr>code = bs ! 0,
      dst_reg = u8_nib (bs ! 1),
      src_reg = u8_nib (drop_bit 4 (bs ! 1)),
      off = bytes_word (take 2 (drop 2 bs)),
      imm = bytes_word (take 4 (drop 4 bs))\<rparr>"

section \<open>Opcode fields\<close>

abbreviation BPF_LD :: u8 where "BPF_LD \<equiv> 0x00"
abbreviation BPF_LDX :: u8 where "BPF_LDX \<equiv> 0x01"
abbreviation BPF_ST :: u8 where "BPF_ST \<equiv> 0x02"
abbreviation BPF_STX :: u8 where "BPF_STX \<equiv> 0x03"
abbreviation BPF_ALU :: u8 where "BPF_ALU \<equiv> 0x04"
abbreviation BPF_JMP :: u8 where "BPF_JMP \<equiv> 0x05"
abbreviation BPF_JMP32 :: u8 where "BPF_JMP32 \<equiv> 0x06"
abbreviation BPF_ALU64 :: u8 where "BPF_ALU64 \<equiv> 0x07"
abbreviation BPF_IMM :: u8 where "BPF_IMM \<equiv> 0x00"
abbreviation BPF_ABS :: u8 where "BPF_ABS \<equiv> 0x20"
abbreviation BPF_MEM :: u8 where "BPF_MEM \<equiv> 0x60"
abbreviation BPF_XADD :: u8 where "BPF_XADD \<equiv> 0xc0"
abbreviation BPF_DW :: u8 where "BPF_DW \<equiv> 0x18"
abbreviation BPF_MOV :: u8 where "BPF_MOV \<equiv> 0xb0"
abbreviation BPF_EXIT :: u8 where "BPF_EXIT \<equiv> 0x90"
abbreviation BPF_K :: u8 where "BPF_K \<equiv> 0x00"
abbreviation BPF_X :: u8 where "BPF_X \<equiv> 0x08"
abbreviation BPF_PSEUDO_MAP_FD :: "4 word" where "BPF_PSEUDO_MAP_FD \<equiv> 1"

definition BPF_CLASS :: "u8 \<Rightarrow> u8" where "BPF_CLASS c = c AND 0x07"
definition BPF_SIZE :: "u8 \<Rightarrow> u8" where "BPF_SIZE c = c AND 0x18"
definition BPF_MODE :: "u8 \<Rightarrow> u8" where "BPF_MODE c = c AND 0xe0"
definition BPF_OP :: "u8 \<Rightarrow> u8" where "BPF_OP c = c AND 0xf0"
definition BPF_SRC :: "u8 \<Rightarrow> u8" where "BPF_SRC c = c AND 0x08"

section \<open>The macros\<close>

definition BPF_RAW_INSN :: "u8 \<Rightarrow> 4 word \<Rightarrow> 4 word \<Rightarrow> u16 \<Rightarrow> u32 \<Rightarrow> bpf_insn" where
  "BPF_RAW_INSN CODE DST SRC OFF IMM =
     \<lparr>code = CODE, dst_reg = DST, src_reg = SRC, off = OFF, imm = IMM\<rparr>"

definition BPF_ALU64_REG :: "u8 \<Rightarrow> 4 word \<Rightarrow> 4 word \<Rightarrow> bpf_insn" where
  "BPF_ALU64_REG OP DST SRC =
     \<lparr>code = BPF_ALU64 OR BPF_OP OP OR BPF_X, dst_reg = DST, src_reg = SRC, off = 0, imm = 0\<rparr>"

definition BPF_ALU32_REG :: "u8 \<Rightarrow> 4 word \<Rightarrow> 4 word \<Rightarrow> bpf_insn" where
  "BPF_ALU32_REG OP DST SRC =
     \<lparr>code = BPF_ALU OR BPF_OP OP OR BPF_X, dst_reg = DST, src_reg = SRC, off = 0, imm = 0\<rparr>"

definition BPF_ALU64_IMM :: "u8 \<Rightarrow> 4 word \<Rightarrow> u32 \<Rightarrow> bpf_insn" where
  "BPF_ALU64_IMM OP DST IMM =
     \<lparr>code = BPF_ALU64 OR BPF_OP OP OR BPF_K, dst_reg = DST, src_reg = 0, off = 0, imm = IMM\<rparr>"

definition BPF_ALU32_IMM :: "u8 \<Rightarrow> 4 word \<Rightarrow> u32 \<Rightarrow> bpf_insn" where
  "BPF_ALU32_IMM OP DST IMM =
     \<lparr>code = BPF_ALU OR BPF_OP OP OR BPF_K, dst_reg = DST, src_reg = 0, off = 0, imm = IMM\<rparr>"

definition BPF_MOV64_REG :: "4 word \<Rightarrow> 4 word \<Rightarrow> bpf_insn" where
  "BPF_MOV64_REG DST SRC =
     \<lparr>code = BPF_ALU64 OR BPF_MOV OR BPF_X, dst_reg = DST, src_reg = SRC, off = 0, imm = 0\<rparr>"

definition BPF_MOV32_REG :: "4 word \<Rightarrow> 4 word \<Rightarrow> bpf_insn" where
  "BPF_MOV32_REG DST SRC =
     \<lparr>code = BPF_ALU OR BPF_MOV OR BPF_X, dst_reg = DST, src_reg = SRC, off = 0, imm = 0\<rparr>"

definition BPF_MOV64_IMM :: "4 word \<Rightarrow> u32 \<Rightarrow> bpf_insn" where
  "BPF_MOV64_IMM DST IMM =
     \<lparr>code = BPF_ALU64 OR BPF_MOV OR BPF_K, dst_reg = DST, src_reg = 0, off = 0, imm = IMM\<rparr>"

definition BPF_MOV32_IMM :: "4 word \<Rightarrow> u32 \<Rightarrow> bpf_insn" where
  "BPF_MOV32_IMM DST IMM =
     \<lparr>code = BPF_ALU OR BPF_MOV OR BPF_K, dst_reg = DST, src_reg = 0, off = 0, imm = IMM\<rparr>"

text \<open>The 64-bit load takes two instruction slots, the second with the reserved opcode 0.\<close>

definition BPF_LD_IMM64_RAW :: "4 word \<Rightarrow> 4 word \<Rightarrow> u64 \<Rightarrow> bpf_insn list" where
  "BPF_LD_IMM64_RAW DST SRC IMM =
     [\<lparr>code = BPF_LD OR BPF_DW OR BPF_IMM, dst_reg = DST, src_reg = SRC, off = 0,
       imm = lo32 IMM\<rparr>,
      \<lparr>code = 0, dst_reg = 0, src_reg = 0, off = 0,
       imm = lo32 (drop_bit 32 IMM)\<rparr>]"

definition BPF_LD_IMM64 :: "4 word \<Rightarrow> u64 \<Rightarrow> bpf_insn list" where
  "BPF_LD_IMM64 DST IMM = BPF_LD_IMM64_RAW DST 0 IMM"

text \<open>\<open>MAP_FD\<close> is a C \<open>int\<close>; the macro converts it to 64 bits with its sign.\<close>

definition BPF_LD_MAP_FD :: "4 word \<Rightarrow> u32 \<Rightarrow> bpf_insn list" where
  "BPF_LD_MAP_FD DST MAP_FD = BPF_LD_IMM64_RAW DST BPF_PSEUDO_MAP_FD (sx64 MAP_FD)"

definition BPF_LD_ABS :: "u8 \<Rightarrow> u32 \<Rightarrow> bpf_insn" where
  "BPF_LD_ABS SIZE IMM =
     \<lparr>code = BPF_LD OR BPF_SIZE SIZE OR BPF_ABS, dst_reg = 0, src_reg = 0, off = 0, imm = IMM\<rparr>"

definition BPF_LDX_MEM :: "u8 \<Rightarrow> 4 word \<Rightarrow> 4 word \<Rightarrow> u16 \<Rightarrow> bpf_insn" where
  "BPF_LDX_MEM SIZE DST SRC OFF =
     \<lparr>code = BPF_LDX OR BPF_SIZE SIZE OR BPF_MEM, dst_reg = DST, src_reg = SRC, off = OFF, imm = 0\<rparr>"

definition BPF_STX_MEM :: "u8 \<Rightarrow> 4 word \<Rightarrow> 4 word \<Rightarrow> u16 \<Rightarrow> bpf_insn" where
  "BPF_STX_MEM SIZE DST SRC OFF =
     \<lparr>code = BPF_STX OR BPF_SIZE SIZE OR BPF_MEM, dst_reg = DST, src_reg = SRC, off = OFF, imm = 0\<rparr>"

definition BPF_STX_XADD :: "u8 \<Rightarrow> 4 word \<Rightarrow> 4 word \<Rightarrow> u16 \<Rightarrow> bpf_insn" where
  "BPF_STX_XADD SIZE DST SRC OFF =
     \<lparr>code = BPF_STX OR BPF_SIZE SIZE OR BPF_XADD, dst_reg = DST, src_reg = SRC, off = OFF, imm = 0\<rparr>"

definition BPF_ST_MEM :: "u8 \<Rightarrow> 4 word \<Rightarrow> u16 \<Rightarrow> u32 \<Rightarrow> bpf_insn" where
  "BPF_ST_MEM SIZE DST OFF IMM =
     \<lparr>code = BPF_ST OR BPF_SIZE SIZE OR BPF_MEM, dst_reg = DST, src_reg = 0, off = OFF, imm = IMM\<rparr>"

definition BPF_JMP_REG :: "u8 \<Rightarrow> 4 word \<Rightarrow> 4 word \<Rightarrow> u16 \<Rightarrow> bpf_insn" where
  "BPF_JMP_REG OP DST SRC OFF =
     \<lparr>code = BPF_JMP OR BPF_OP OP OR BPF_X, dst_reg = DST, src_reg = SRC, off = OFF, imm = 0\<rparr>"

definition BPF_JMP32_REG :: "u8 \<Rightarrow> 4 word \<Rightarrow> 4 word \<Rightarrow> u16 \<Rightarrow> bpf_insn" where
  "BPF_JMP32_REG OP DST SRC OFF =
     \<lparr>code = BPF_JMP32 OR BPF_OP OP OR BPF_X, dst_reg = DST, src_reg = SRC, off = OFF, imm = 0\<rparr>"

definition BPF_JMP_IMM :: "u8 \<Rightarrow> 4 word \<Rightarrow> u32 \<Rightarrow> u16 \<Rightarrow> bpf_insn" where
  "BPF_JMP_IMM OP DST IMM OFF =
     \<lparr>code = BPF_JMP OR BPF_OP OP OR BPF_K, dst_reg = DST, src_reg = 0, off = OFF, imm = IMM\<rparr>"

definition BPF_JMP32_IMM :: "u8 \<Rightarrow> 4 word \<Rightarrow> u32 \<Rightarrow> u16 \<Rightarrow> bpf_insn" where
  "BPF_JMP32_IMM OP DST IMM OFF =
     \<lparr>code = BPF_JMP32 OR BPF_OP OP OR BPF_K, dst_reg = DST, src_reg = 0, off = OFF, imm = IMM\<rparr>"

definition BPF_EXIT_INSN :: bpf_insn where
  "BPF_EXIT_INSN =
     \<lparr>code = BPF_JMP OR BPF_EXIT, dst_reg = 0, src_reg = 0, off = 0, imm = 0\<rparr>"

section \<open>Programs in memory\<close>

text \<open>
  Reading and writing instruction \<open>idx\<close> of a program that is an array of bytes, as an access
  through a \<open>struct bpf_insn *\<close> does.
\<close>

definition get_insn :: "u8 list \<Rightarrow> nat \<Rightarrow> bpf_insn res" where
  "get_insn buf idx = bind_res (slice_res buf (8 * idx) 8) (\<lambda>bs. Inr (decode_insn bs))"

definition put_insn :: "u8 list \<Rightarrow> nat \<Rightarrow> bpf_insn \<Rightarrow> u8 list" where
  "put_insn buf idx i = take (8 * idx) buf @ encode_insn i @ drop (8 * idx + 8) buf"

section \<open>Layout lemmas\<close>

lemma length_encode_insn [simp]: "length (encode_insn i) = 8"
  by (simp add: encode_insn_def)

lemma reg_byte_low: "u8_nib (nib_u8 d OR push_bit 4 (nib_u8 s)) = d"
  by (rule bit_word_eqI) (auto simp: bit_simps)

lemma reg_byte_high:
  "u8_nib (drop_bit 4 (nib_u8 d OR push_bit 4 (nib_u8 s))) = s"
  by (rule bit_word_eqI) (auto simp: bit_simps dest: bit_imp_le_length)

lemma reg_byte_join:
  "nib_u8 (u8_nib b) OR push_bit 4 (nib_u8 (u8_nib (drop_bit 4 b))) = b"
  by (rule bit_word_eqI) (auto simp: bit_simps)

lemma decode_encode_insn [simp]: "decode_insn (encode_insn i) = i"
  by (simp add: decode_insn_def encode_insn_def reg_byte_low reg_byte_high del: drop_bit_or)

lemma word_bytes_bytes_word: "length bs = LENGTH('a) div 8 \<Longrightarrow> 8 dvd LENGTH('a) \<Longrightarrow>
    word_bytes (bytes_word bs :: 'a :: len word) = bs"
proof -
  assume l: "length bs = LENGTH('a) div 8" and d: "8 dvd LENGTH('a)"
  have "(2 :: nat) ^ LENGTH('a) = (2 ^ 8) ^ (LENGTH('a) div 8)"
    using d by (simp only: power_mult [symmetric] dvd_mult_div_cancel)
  then have "le_nat bs < 2 ^ LENGTH('a)"
    using le_nat_lt [of bs] l by simp
  then show ?thesis
    using l by (simp add: word_bytes_def bytes_word_def unat_of_nat le_bytes_le_nat)
qed

lemma encode_decode_insn:
  assumes "length bs = 8"
  shows "encode_insn (decode_insn bs) = bs"
proof -
  obtain a b c0 c1 d0 d1 d2 d3 where b8: "bs = [a, b, c0, c1, d0, d1, d2, d3]"
    using assms by (auto simp: numeral_eq_Suc length_Suc_conv)
  define cs ds where "cs = [c0, c1]" and "ds = [d0, d1, d2, d3]"
  then have bs: "bs = a # b # cs @ ds" "length cs = 2" "length ds = 4"
    using b8 by auto
  have "word_bytes (bytes_word cs :: u16) = cs" "word_bytes (bytes_word ds :: u32) = ds"
    using bs by (auto intro: word_bytes_bytes_word)
  then show ?thesis
    using bs by (simp add: encode_insn_def decode_insn_def reg_byte_join)
qed

lemma length_put_insn [simp]: "8 * k + 8 \<le> length buf \<Longrightarrow> length (put_insn buf k i) = length buf"
  by (simp add: put_insn_def)

lemma get_insn_eq:
  "get_insn buf k = (if 8 * k + 8 \<le> length buf
     then Inr (decode_insn (take 8 (drop (8 * k) buf))) else Inl Out_of_bounds)"
  by (simp add: get_insn_def slice_res_def)

lemma get_insn_put_same:
  "8 * k + 8 \<le> length buf \<Longrightarrow> get_insn (put_insn buf k i) k = Inr i"
  by (simp add: get_insn_eq) (simp add: put_insn_def)

lemma get_insn_put_other:
  assumes "8 * k + 8 \<le> length buf" "j \<noteq> k"
  shows "get_insn (put_insn buf k i) j = get_insn buf j"
proof -
  have "take 8 (drop (8 * j) (put_insn buf k i)) = take 8 (drop (8 * j) buf)"
    if "8 * j + 8 \<le> length buf"
  proof (cases "j < k")
    case True
    then have "8 * j + 8 \<le> 8 * k"
      by simp
    then show ?thesis
      using assms(1) by (simp add: put_insn_def take_drop min_def)
  next
    case False
    then have "8 * k + 8 \<le> 8 * j"
      using assms(2) by simp
    then obtain d where "8 * j = 8 * k + 8 + d"
      by (auto dest: le_Suc_ex)
    then show ?thesis
      using assms(1) by (simp add: put_insn_def add.commute)
  qed
  then show ?thesis
    using assms by (simp add: get_insn_eq)
qed

lemma put_put_insn [simp]:
  "8 * k + 8 \<le> length buf \<Longrightarrow> put_insn (put_insn buf k i) k j = put_insn buf k j"
  by (simp add: put_insn_def)

end
