(* ===== verification/Elf_Maps.thy ===== *)
theory Elf_Maps
  imports Libbpf Bpf_Insn
begin

text \<open>
  The parts of the loader \<^verbatim>\<open>src/common/bpf_load.c\<close> that read an ELF object: access to sections,
  the map definitions of the section \<open>maps\<close>, and the relocations that put the map file
  descriptors into the instructions.  The ELF library (libelf) is a parameter: a record of the
  lookups that the loader performs on an opened file.
\<close>

section \<open>The ELF library\<close>

record gelf_shdr =
  sh_name :: nat
  sh_type :: u32
  sh_flags :: u64
  sh_size :: u64
  sh_link :: u32
  sh_info :: u32
  sh_entsize :: u64

record gelf_sym =
  st_name :: nat
  st_value :: u64
  st_shndx :: u16

record gelf_rel =
  r_offset :: u64
  r_info :: u64

text \<open>
  A data descriptor names a buffer, whose bytes the loader may change, and has a size.
\<close>

record elf_data =
  d_buf :: nat
  d_size :: nat

text \<open>
  A string is a pointer into the data of a string table; \<open>strroom\<close> is the number of bytes from
  there to the end of the table.
\<close>

record elf =
  ehdr_ok :: bool
  e_shnum :: nat
  e_shstrndx :: nat
  getscn :: "nat \<Rightarrow> nat option"
  getshdr :: "nat \<Rightarrow> gelf_shdr option"
  strptr :: "nat \<Rightarrow> nat \<Rightarrow> string option"
  strroom :: "nat \<Rightarrow> nat \<Rightarrow> nat"
  getdata :: "nat \<Rightarrow> elf_data option \<Rightarrow> elf_data option"
  getrel :: "elf_data \<Rightarrow> int \<Rightarrow> gelf_rel option"
  getsym :: "elf_data \<Rightarrow> int \<Rightarrow> gelf_sym option"
  file_bufs :: "nat \<Rightarrow> u8 list"

record libelf =
  elf_version_ok :: bool
  elf_begin :: "int \<Rightarrow> elf option"

abbreviation SHT_PROGBITS :: u32 where "SHT_PROGBITS \<equiv> 1"
abbreviation SHT_SYMTAB :: u32 where "SHT_SYMTAB \<equiv> 2"
abbreviation SHT_REL :: u32 where "SHT_REL \<equiv> 9"
abbreviation SHF_EXECINSTR :: u64 where "SHF_EXECINSTR \<equiv> 4"

text \<open>\<open>sizeof(GElf_Sym)\<close>, \<open>sizeof(struct bpf_insn)\<close>, \<open>sizeof(struct bpf_load_map_def)\<close>.\<close>

abbreviation sizeof_sym :: nat where "sizeof_sym \<equiv> 24"
abbreviation sizeof_insn :: nat where "sizeof_insn \<equiv> 8"
abbreviation sizeof_map_def :: nat where "sizeof_map_def \<equiv> 28"

text \<open>
  \<open>get_sec\<close> returns 0 with the name, header and data of a section, or one of the codes 1 to 4.
\<close>

definition get_sec :: "elf \<Rightarrow> nat \<Rightarrow> nat + (string \<times> gelf_shdr \<times> elf_data)" where
  "get_sec elf i =
     (case getscn elf i of None \<Rightarrow> Inl 1
      | Some scn \<Rightarrow>
        (case getshdr elf scn of None \<Rightarrow> Inl 2
         | Some shdr \<Rightarrow>
           (case strptr elf (e_shstrndx elf) (sh_name shdr) of None \<Rightarrow> Inl 3
            | Some shname \<Rightarrow>
              if sh_size shdr = 0 then Inl 3
              else (case getdata elf scn None of None \<Rightarrow> Inl 4
                 | Some data \<Rightarrow>
                   if getdata elf scn (Some data) \<noteq> None then Inl 4
                   else Inr (shname, shdr, data)))))"

section \<open>Map definitions\<close>

abbreviation MAX_MAPS :: nat where "MAX_MAPS \<equiv> 32"
abbreviation MAX_PROGS :: nat where "MAX_PROGS \<equiv> 32"

record bpf_load_map_def =
  m_type :: u32
  m_key_size :: u32
  m_value_size :: u32
  m_max_entries :: u32
  m_map_flags :: u32
  m_inner_map_idx :: u32
  m_numa_node :: u32

record bpf_map_data =
  md_fd :: int
  md_name :: "string option"
  md_elf_offset :: u64
  md_def :: bpf_load_map_def

text \<open>The structure behind the 28 bytes of a map definition, and its bytes.\<close>

definition def_of_bytes :: "u8 list \<Rightarrow> bpf_load_map_def" where
  "def_of_bytes bs =
     \<lparr>m_type = bytes_word (take 4 bs),
      m_key_size = bytes_word (take 4 (drop 4 bs)),
      m_value_size = bytes_word (take 4 (drop 8 bs)),
      m_max_entries = bytes_word (take 4 (drop 12 bs)),
      m_map_flags = bytes_word (take 4 (drop 16 bs)),
      m_inner_map_idx = bytes_word (take 4 (drop 20 bs)),
      m_numa_node = bytes_word (take 4 (drop 24 bs))\<rparr>"

definition bytes_of_def :: "bpf_load_map_def \<Rightarrow> u8 list" where
  "bytes_of_def d =
     word_bytes (m_type d) @ word_bytes (m_key_size d) @ word_bytes (m_value_size d) @
     word_bytes (m_max_entries d) @ word_bytes (m_map_flags d) @
     word_bytes (m_inner_map_idx d) @ word_bytes (m_numa_node d)"

definition cmp_symbols :: "gelf_sym \<Rightarrow> gelf_sym \<Rightarrow> int" where
  "cmp_symbols lsym rsym =
     (if st_value lsym < st_value rsym then - 1
      else if st_value lsym > st_value rsym then 1
      else 0)"

text \<open>
  \<open>qsort\<close> with a comparison function.  The GNU C library sorts with a merge sort, which keeps
  the order of equal elements; insertion of each element before the first greater one gives the
  same list.
\<close>

primrec qsort_insert :: "('a \<Rightarrow> 'a \<Rightarrow> int) \<Rightarrow> 'a \<Rightarrow> 'a list \<Rightarrow> 'a list" where
  "qsort_insert cmp x [] = [x]"
| "qsort_insert cmp x (y # ys) =
     (if cmp x y \<le> 0 then x # y # ys else y # qsort_insert cmp x ys)"

definition qsort :: "('a \<Rightarrow> 'a \<Rightarrow> int) \<Rightarrow> 'a list \<Rightarrow> 'a list" where
  "qsort cmp xs = foldr (qsort_insert cmp) xs []"

text \<open>
  The loop over the symbol table.  \<open>acc\<close> holds the symbols of the maps section found so far;
  the array \<open>sym\<close> has room for one more than \<open>MAX_MAPS\<close>.
\<close>

fun collect_map_syms ::
  "elf \<Rightarrow> elf_data \<Rightarrow> nat \<Rightarrow> nat list \<Rightarrow> gelf_sym list \<Rightarrow> gelf_sym list res" where
  "collect_map_syms elf symbols shndx [] acc = Inr acc"
| "collect_map_syms elf symbols shndx (i # is) acc =
     (if \<not> length acc < MAX_MAPS + 1 then Inl Assert_failed
      else case getsym elf symbols (int i) of
          None \<Rightarrow> collect_map_syms elf symbols shndx is acc
        | Some s \<Rightarrow>
            if unat (st_shndx s) \<noteq> shndx then collect_map_syms elf symbols shndx is acc
            else collect_map_syms elf symbols shndx is (acc @ [s]))"

text \<open>
  The loop that looks for a byte other than 0 among the \<open>n\<close> bytes from \<open>addr\<close>.
\<close>

fun nonzero_tail :: "u8 list \<Rightarrow> nat \<Rightarrow> nat \<Rightarrow> bool res" where
  "nonzero_tail buf addr 0 = Inr False"
| "nonzero_tail buf addr (Suc n) =
     bind_res (nth_res buf addr) (\<lambda>b. if b \<noteq> 0 then Inr True else nonzero_tail buf (addr + 1) n)"

text \<open>
  The loop that copies the definitions.  \<open>sz_elf\<close> is the size of a definition in the file,
  \<open>sz_copy\<close> the number of bytes copied; a negative size becomes a huge \<open>size_t\<close>.  The result is
  the value to return, if the loop returns, and the table.
\<close>

fun copy_map_defs ::
  "env \<Rightarrow> elf \<Rightarrow> nat \<Rightarrow> u8 list \<Rightarrow> int \<Rightarrow> int \<Rightarrow> bool \<Rightarrow> (nat \<times> gelf_sym) list \<Rightarrow>
   bpf_map_data list \<Rightarrow> hist \<Rightarrow> (int option \<times> bpf_map_data list \<times> hist) res" where
  "copy_map_defs env elf strtabidx buf sz_elf sz_copy validate_zero [] maps h =
     Inr (None, maps, h)"
| "copy_map_defs env elf strtabidx buf sz_elf sz_copy validate_zero ((i, s) # rest) maps h =
     (case strptr elf strtabidx (st_name s) of
        None \<Rightarrow> Inl Null_deref
      | Some map_name \<Rightarrow>
        let (r, h) = sys env (Malloc (length map_name + 1)) h in
        bind_res (nth_res maps i) (\<lambda>m.
        if r_ret r = 0 then Inr (Some (- r_errno r), maps[i := m\<lparr>md_name := None\<rparr>], h)
        else if sz_copy < 0 then Inl Buffer_overflow
        else
          let offset = unat (st_value s) in
          bind_res (slice_res buf offset (nat sz_copy)) (\<lambda>bytes.
          let maps = maps[i := m\<lparr>md_name := Some map_name,
                                 md_elf_offset := st_value s,
                                 md_def := def_of_bytes
                                   (bytes @ replicate (sizeof_map_def - nat sz_copy) 0)\<rparr>] in
          bind_res (if validate_zero
                    then nonzero_tail buf (offset + nat sz_copy) (nat (sz_elf - sz_copy))
                    else Inr False) (\<lambda>nz.
          if nz then Inr (Some (- EFBIG), maps, h)
          else copy_map_defs env elf strtabidx buf sz_elf sz_copy validate_zero rest maps h))))"

definition load_elf_maps_section ::
  "env \<Rightarrow> bpf_map_data list \<Rightarrow> int \<Rightarrow> elf \<Rightarrow> (nat \<Rightarrow> u8 list) \<Rightarrow> elf_data option \<Rightarrow> nat \<Rightarrow> hist \<Rightarrow>
   (int \<times> bpf_map_data list \<times> hist) res" where
  "load_elf_maps_section env maps maps_shndx elf bufs symbols strtabidx h =
     (if maps_shndx < 0 then Inr (- EINVAL, maps, h)
      else case symbols of None \<Rightarrow> Inr (- EINVAL, maps, h)
      | Some symbols \<Rightarrow>
        case Option.bind (getscn elf (nat maps_shndx)) (\<lambda>scn. getdata elf scn None) of
          None \<Rightarrow> Inr (- EINVAL, maps, h)
        | Some data_maps \<Rightarrow>
          let (r, h) = sys env (Malloc ((MAX_MAPS + 1) * sizeof_sym)) h in
          if r_ret r = 0 then Inl Null_deref
          else bind_res (collect_map_syms elf symbols (nat maps_shndx)
                           [0..<d_size symbols div sizeof_sym] []) (\<lambda>syms.
            let nr_maps = length syms; syms = qsort cmp_symbols syms in
            if nr_maps = 0 then Inl Div_by_zero
            else
              let map_sz_elf = to_int32 (int (d_size data_maps div nr_maps));
                  map_sz_copy = int sizeof_map_def;
                  validate_zero = (map_sz_copy < map_sz_elf);
                  map_sz_copy = (if map_sz_elf < map_sz_copy then map_sz_elf else map_sz_copy) in
              bind_res (copy_map_defs env elf strtabidx (bufs (d_buf data_maps)) map_sz_elf
                          map_sz_copy validate_zero (enumerate 0 syms) maps h)
                (\<lambda>(ret, maps, h).
                   case ret of Some e \<Rightarrow> Inr (e, maps, h)
                   | None \<Rightarrow> Inr (int nr_maps, maps, h))))"

section \<open>Relocations\<close>

text \<open>The first entry of the table with the offset, among the first \<open>nr_maps\<close>.\<close>

fun find_map :: "bpf_map_data list \<Rightarrow> nat \<Rightarrow> u64 \<Rightarrow> bpf_map_data option" where
  "find_map (m # ms) (Suc n) v = (if md_elf_offset m = v then Some m else find_map ms n v)"
| "find_map _ _ v = None"

text \<open>
  The loop over the relocation entries rewrites the program buffer \<open>insn\<close>; it returns 1 at the
  first entry it cannot apply.  The code ignores the results of \<open>gelf_getrel\<close> and \<open>gelf_getsym\<close>,
  so when they fail it goes on with variables that have no value.
\<close>

fun apply_relos ::
  "elf \<Rightarrow> elf_data \<Rightarrow> elf_data \<Rightarrow> bpf_map_data list \<Rightarrow> nat \<Rightarrow> nat list \<Rightarrow> u8 list \<Rightarrow>
   (int \<times> u8 list) res" where
  "apply_relos elf data symbols maps nr_maps [] insn = Inr (0, insn)"
| "apply_relos elf data symbols maps nr_maps (i # is) insn =
     (case getrel elf data (int i) of
        None \<Rightarrow> Inl Uninit_read
      | Some rel \<Rightarrow>
        let insn_idx = unat (lo32 (r_offset rel div 8));
            s = getsym elf symbols (to_int32 (uint (drop_bit 32 (r_info rel)))) in
        bind_res (get_insn insn insn_idx) (\<lambda>x.
        if code x \<noteq> (BPF_LD OR BPF_IMM OR BPF_DW) then Inr (1, insn)
        else
          let x = x\<lparr>src_reg := BPF_PSEUDO_MAP_FD\<rparr>;
              insn = put_insn insn insn_idx x in
          if s = None \<and> 0 < nr_maps then Inl Uninit_read
          else case Option.bind s (\<lambda>s. find_map maps nr_maps (st_value s)) of
              Some m \<Rightarrow>
                apply_relos elf data symbols maps nr_maps is
                  (put_insn insn insn_idx (x\<lparr>imm := word_of_int (md_fd m)\<rparr>))
            | None \<Rightarrow> Inr (1, insn)))"

definition parse_relo_and_apply ::
  "elf \<Rightarrow> elf_data \<Rightarrow> elf_data \<Rightarrow> gelf_shdr \<Rightarrow> u8 list \<Rightarrow> bpf_map_data list \<Rightarrow> nat \<Rightarrow>
   (int \<times> u8 list) res" where
  "parse_relo_and_apply elf data symbols shdr insn maps nr_maps =
     (if sh_entsize shdr = 0 then Inl Div_by_zero
      else
        let nrels = to_int32 (uint (sh_size shdr div sh_entsize shdr)) in
        apply_relos elf data symbols maps nr_maps [0..<nat nrels] insn)"

section \<open>Symbols of the maps section\<close>

lemma cmp_symbols_le: "cmp_symbols a b \<le> 0 \<longleftrightarrow> st_value a \<le> st_value b"
  by (auto simp: cmp_symbols_def)

lemma qsort_insert_insort:
  "qsort_insert cmp_symbols x ys = insort_key st_value x ys"
  by (induction ys) (auto simp: cmp_symbols_le)

lemma qsort_cmp_symbols: "qsort cmp_symbols xs = sort_key st_value xs"
proof -
  have "qsort_insert cmp_symbols = insort_key st_value"
    by (intro ext) (rule qsort_insert_insort)
  then show ?thesis
    by (simp add: qsort_def sort_key_def)
qed

text \<open>The symbols of section \<open>shndx\<close>, in the order of the symbol table.\<close>

definition map_syms :: "elf \<Rightarrow> elf_data \<Rightarrow> nat \<Rightarrow> nat list \<Rightarrow> gelf_sym list" where
  "map_syms elf symbols shndx is =
     filter (\<lambda>s. unat (st_shndx s) = shndx) (List.map_filter (\<lambda>i. getsym elf symbols (int i)) is)"

lemma map_syms_simps [simp]:
  "map_syms elf symbols shndx [] = []"
  "map_syms elf symbols shndx (i # is) =
     (case getsym elf symbols (int i) of
        None \<Rightarrow> map_syms elf symbols shndx is
      | Some s \<Rightarrow> (if unat (st_shndx s) = shndx then [s] else []) @ map_syms elf symbols shndx is)"
  by (simp_all add: map_syms_def List.map_filter_def split: option.splits)

lemma collect_map_syms_Inr:
  "length (acc @ map_syms elf symbols shndx is) \<le> MAX_MAPS \<Longrightarrow>
     collect_map_syms elf symbols shndx is acc = Inr (acc @ map_syms elf symbols shndx is)"
  by (induction "is" arbitrary: acc) (auto split: option.splits)

lemma collect_map_syms_post:
  "post (\<lambda>syms. syms = acc @ map_syms elf symbols shndx is) (collect_map_syms elf symbols shndx is acc)"
proof (induction "is" arbitrary: acc)
  case (Cons i js)
  then show ?case
    using Cons.IH [of "acc @ [s]" for s] by (auto split: option.splits)
qed simp

section \<open>Copying the definitions\<close>

lemma nonzero_tail_spec:
  "addr + n \<le> length buf \<Longrightarrow>
     nonzero_tail buf addr n = Inr (\<exists>b \<in> set (take n (drop addr buf)). b \<noteq> 0)"
proof (induction n arbitrary: addr)
  case (Suc n)
  then have "take (Suc n) (drop addr buf) = buf ! addr # take n (drop (addr + 1) buf)"
    by (simp add: Cons_nth_drop_Suc [symmetric])
  then show ?case
    using Suc by (auto simp: nth_res_def)
qed simp

text \<open>The entry written for a symbol, from the bytes of the section.\<close>

definition map_entry ::
  "elf \<Rightarrow> nat \<Rightarrow> u8 list \<Rightarrow> nat \<Rightarrow> bpf_map_data \<Rightarrow> gelf_sym \<Rightarrow> bpf_map_data" where
  "map_entry elf strtabidx buf sz m s =
     m\<lparr>md_name := strptr elf strtabidx (st_name s),
       md_elf_offset := st_value s,
       md_def := def_of_bytes (take sz (drop (unat (st_value s)) buf) @ replicate (sizeof_map_def - sz) 0)\<rparr>"

interpretation copy_defs: c_loop
  "\<lambda>(i, s) (maps, h). bind_res (copy_map_defs env elf strtabidx buf sz_elf sz_copy vz [(i, s)] maps h)
     (\<lambda>(ret, maps, h). case ret of None \<Rightarrow> Inr (Inr (maps, h))
        | Some e \<Rightarrow> Inr (Inl (Some e, maps, h)))"
  "\<lambda>xs (maps, h). copy_map_defs env elf strtabidx buf sz_elf sz_copy vz xs maps h"
  "\<lambda>(maps, h). (None, maps, h)"
  for env elf strtabidx buf sz_elf sz_copy vz
  by unfold_locales
    (auto simp: bind_res_assoc Let_def sys_def bind_res_def nth_res_def split: option.splits sum.splits prod.splits)

definition malloc_call :: "call \<Rightarrow> bool" where
  "malloc_call c = (case c of Malloc _ \<Rightarrow> True | _ \<Rightarrow> False)"

lemma malloc_call_simps [simp]: "malloc_call (Malloc n)"
  by (simp add: malloc_call_def)

text \<open>The table after the definitions of the symbols were copied from index \<open>k\<close> on.\<close>

definition copied ::
  "elf \<Rightarrow> nat \<Rightarrow> u8 list \<Rightarrow> nat \<Rightarrow> nat \<Rightarrow> gelf_sym list \<Rightarrow> bpf_map_data list \<Rightarrow> bpf_map_data list \<Rightarrow> bool"
  where
  "copied elf strtabidx buf sz k syms maps maps' =
     (\<forall>j < length maps. maps' ! j =
        (if k \<le> j \<and> j < k + length syms
         then map_entry elf strtabidx buf sz (maps ! j) (syms ! (j - k)) else maps ! j))"

lemma copied_Cons:
  assumes "copied elf strtabidx buf sz (Suc k) syms (maps[k := map_entry elf strtabidx buf sz (maps ! k) s]) maps'"
    and "k < length maps"
  shows "copied elf strtabidx buf sz k (s # syms) maps maps'"
  using assms by (auto simp: copied_def nth_Cons' nth_list_update)

lemma copy_map_defs_post:
  "post (\<lambda>(ret, maps', h'). length maps' = length maps \<and> made malloc_call h h' \<and>
           (ret = None \<longrightarrow> copied elf strtabidx buf (nat sz_copy) k syms maps maps'))
     (copy_map_defs env elf strtabidx buf sz_elf sz_copy vz (enumerate k syms) maps h)"
proof (induction syms arbitrary: k maps h)
  case (Cons s syms)
  let ?P = "\<lambda>k syms maps h (ret, maps', h'). length maps' = length maps \<and> made malloc_call h h' \<and>
           (ret = None \<longrightarrow> copied elf strtabidx buf (nat sz_copy) k syms maps maps')"
  show ?case
  proof (cases "strptr elf strtabidx (st_name s)")
    case (Some name)
    let ?h = "h @ [Malloc (length name + 1)]"
    let ?maps = "maps[k := map_entry elf strtabidx buf (nat sz_copy) (maps ! k) s]"
    have h: "made malloc_call h ?h" by auto
    have "?P k (s # syms) maps h x" if "?P (Suc k) syms ?maps ?h x" "k < length maps" for x
      using that h by (auto intro: copied_Cons made_trans split: prod.splits)
    then have IH: "k < length maps \<Longrightarrow> post (?P k (s # syms) maps h)
        (copy_map_defs env elf strtabidx buf sz_elf sz_copy vz (enumerate (Suc k) syms) ?maps ?h)"
      by (rule post_mono [OF Cons.IH])
    show ?thesis
      using IH h Some
      by (auto simp: wp sys_def Let_def map_entry_def intro!: postI)
  qed simp
qed (auto simp: copied_def)

text \<open>What the loader relies on in the maps section, for the symbols it found.\<close>

definition defs_in_bounds :: "elf \<Rightarrow> nat \<Rightarrow> u8 list \<Rightarrow> nat \<Rightarrow> gelf_sym list \<Rightarrow> bool" where
  "defs_in_bounds elf strtabidx buf sz syms =
     list_all (\<lambda>s. strptr elf strtabidx (st_name s) \<noteq> None \<and> unat (st_value s) + sz \<le> length buf) syms"

lemma copy_map_defs_safe:
  assumes "k + length syms \<le> length maps" "0 \<le> sz_copy" "sz_copy \<le> sz_elf"
    and "defs_in_bounds elf strtabidx buf (nat sz_elf) syms"
  shows "safe (\<lambda>_. True)
     (copy_map_defs env elf strtabidx buf sz_elf sz_copy vz (enumerate k syms) maps h)"
  using assms(1,4)
proof (induction syms arbitrary: k maps h)
  case (Cons s syms)
  from Cons.prems(2) obtain name where name: "strptr elf strtabidx (st_name s) = Some name"
    and b: "unat (st_value s) + nat sz_elf \<le> length buf"
    and rest: "defs_in_bounds elf strtabidx buf (nat sz_elf) syms"
    by (auto simp: defs_in_bounds_def)
  have "unat (st_value s) + nat sz_copy + nat (sz_elf - sz_copy) \<le> length buf"
    using b assms(2,3) by linarith
  moreover have "safe (\<lambda>_. True)
      (copy_map_defs env elf strtabidx buf sz_elf sz_copy vz (enumerate (Suc k) syms) ms h')"
    if "length ms = length maps" for ms h'
    using Cons.prems rest that by (intro Cons.IH) auto
  ultimately show ?case
    using Cons.prems assms(2) name
    by (auto simp: wp sys_def Let_def nonzero_tail_spec)
qed simp

text \<open>Memory is available and the unknown part of every definition is zero.\<close>

definition malloc_ok :: "env \<Rightarrow> bool" where
  "malloc_ok env = (\<forall>h n. r_ret (env h (Malloc n)) \<noteq> 0)"

definition zero_tails :: "u8 list \<Rightarrow> nat \<Rightarrow> nat \<Rightarrow> gelf_sym list \<Rightarrow> bool" where
  "zero_tails buf sz n syms =
     list_all (\<lambda>s. list_all (\<lambda>b. b = 0) (take n (drop (unat (st_value s) + sz) buf))) syms"

lemma copy_map_defs_completes:
  assumes "malloc_ok env" "0 \<le> sz_copy" "sz_copy \<le> sz_elf"
    and "defs_in_bounds elf strtabidx buf (nat sz_elf) syms"
    and "vz \<longrightarrow> zero_tails buf (nat sz_copy) (nat (sz_elf - sz_copy)) syms"
  shows "post (\<lambda>(ret, _). ret = None)
     (copy_map_defs env elf strtabidx buf sz_elf sz_copy vz (enumerate k syms) maps h)"
  using assms(4,5)
proof (induction syms arbitrary: k maps h)
  case (Cons s syms)
  from Cons.prems(1) obtain name where name: "strptr elf strtabidx (st_name s) = Some name"
    and b: "unat (st_value s) + nat sz_elf \<le> length buf"
    and rest: "defs_in_bounds elf strtabidx buf (nat sz_elf) syms"
    by (auto simp: defs_in_bounds_def)
  have e: "unat (st_value s) + nat sz_copy + nat (sz_elf - sz_copy) \<le> length buf"
    using b assms(2,3) by linarith
  have "post (\<lambda>(ret, _). ret = None)
      (copy_map_defs env elf strtabidx buf sz_elf sz_copy vz (enumerate (Suc k) syms) ms h')"
    for ms h'
    using Cons.prems rest by (intro Cons.IH) (auto simp: zero_tails_def)
  then show ?case
    using Cons.prems assms(1,2) name e
    by (auto simp: wp sys_def Let_def nonzero_tail_spec malloc_ok_def zero_tails_def list_all_iff)
qed simp

lemma copy_map_defs_error:
  assumes "malloc_ok env"
  shows "post (\<lambda>(ret, _). ret = None \<or> ret = Some (- EFBIG))
     (copy_map_defs env elf strtabidx buf sz_elf sz_copy vz xs maps h)"
proof (induction xs arbitrary: maps h)
  case (Cons x xs)
  obtain i s where x: "x = (i, s)" by (cases x)
  show ?case
  proof (cases "strptr elf strtabidx (st_name s)")
    case (Some name)
    then show ?thesis
      using Cons.IH assms
      by (auto simp: x wp sys_def Let_def malloc_ok_def
          intro!: post_all [where m = "nonzero_tail a b c" for a b c])
  qed (simp add: x)
qed simp

section \<open>The maps section\<close>

lemma length_bytes_of_def [simp]: "length (bytes_of_def d) = sizeof_map_def"
  by (simp add: bytes_of_def_def)

lemma def_of_bytes_of_def [simp]: "def_of_bytes (bytes_of_def d) = d"
  by (simp add: def_of_bytes_def bytes_of_def_def)

text \<open>The two sizes used by the copy loop, from the size of a definition in the file.\<close>

definition copy_size :: "nat \<Rightarrow> nat" where
  "copy_size n = min n sizeof_map_def"

lemma load_elf_maps_section_eq:
  assumes "getscn elf shndx = Some scn" "getdata elf scn None = Some data"
    and "malloc_ok env" and "syms = map_syms elf symbols shndx [0..<d_size symbols div sizeof_sym]"
    and "syms \<noteq> []" "length syms \<le> MAX_MAPS"
    and "n = d_size data div length syms" "n < 2 ^ 31"
  shows "load_elf_maps_section env maps (int shndx) elf bufs (Some symbols) strtabidx h =
    bind_res (copy_map_defs env elf strtabidx (bufs (d_buf data)) (int n) (int (copy_size n))
       (sizeof_map_def < n) (enumerate 0 (sort_key st_value syms)) maps
       (h @ [Malloc ((MAX_MAPS + 1) * sizeof_sym)]))
     (\<lambda>(ret, maps, h). case ret of Some e \<Rightarrow> Inr (e, maps, h)
        | None \<Rightarrow> Inr (int (length syms), maps, h))"
proof -
  have "collect_map_syms elf symbols shndx [0..<d_size symbols div sizeof_sym] [] = Inr syms"
    using collect_map_syms_Inr [of "[]" elf symbols shndx "[0..<d_size symbols div sizeof_sym]"]
      assms(4,6) by simp
  moreover have "to_int32 (int n) = int n"
    using assms(8) by (intro to_int32_id) simp_all
  ultimately show ?thesis
    using assms(1,2,3,5)
    by (simp add: load_elf_maps_section_def sys_def malloc_ok_def qsort_cmp_symbols Let_def
        assms(7) [symmetric] copy_size_def)
qed

lemma load_elf_maps_section_ok:
  assumes "getscn elf shndx = Some scn" "getdata elf scn None = Some data"
    and "malloc_ok env" and "syms = map_syms elf symbols shndx [0..<d_size symbols div sizeof_sym]"
    and "syms \<noteq> []" "length syms \<le> MAX_MAPS" "MAX_MAPS \<le> length maps"
    and "n = d_size data div length syms" "n < 2 ^ 31"
    and "defs_in_bounds elf strtabidx (bufs (d_buf data)) n syms"
    and "zero_tails (bufs (d_buf data)) (copy_size n) (n - copy_size n) syms"
  shows "safe (\<lambda>(ret, maps', h'). ret = int (length syms) \<and> length maps' = length maps \<and>
           made malloc_call h h' \<and>
           copied elf strtabidx (bufs (d_buf data)) (copy_size n) 0 (sort_key st_value syms) maps maps')
     (load_elf_maps_section env maps (int shndx) elf bufs (Some symbols) strtabidx h)"
proof -
  let ?h = "h @ [Malloc ((MAX_MAPS + 1) * sizeof_sym)]"
  let ?ss = "sort_key st_value syms"
  let ?c = "copy_map_defs env elf strtabidx (bufs (d_buf data)) (int n) (int (copy_size n))
       (sizeof_map_def < n) (enumerate 0 ?ss) maps ?h"
  have b: "defs_in_bounds elf strtabidx (bufs (d_buf data)) n ?ss"
    and z: "zero_tails (bufs (d_buf data)) (copy_size n) (n - copy_size n) ?ss"
    using assms(10,11) by (auto simp: defs_in_bounds_def zero_tails_def list_all_iff)
  have le: "copy_size n \<le> n"
    by (simp add: copy_size_def)
  have "safe (\<lambda>_. True) ?c"
    using b le assms(6,7) by (intro copy_map_defs_safe) auto
  moreover have "post (\<lambda>(ret, _). ret = None) ?c"
    using b z le assms(3) by (intro copy_map_defs_completes) (auto simp: nat_minus_as_int)
  moreover note copy_map_defs_post [of maps ?h elf strtabidx "bufs (d_buf data)"
      "int (copy_size n)" 0 ?ss env "int n" "sizeof_map_def < n"]
  moreover have "made malloc_call h ?h"
    by auto
  ultimately show ?thesis
    unfolding load_elf_maps_section_eq [OF assms(1-6,8,9)]
    by (cases ?c) (auto simp: wp intro: made_trans)
qed

lemma load_elf_maps_section_safe:
  assumes "getscn elf shndx = Some scn" "getdata elf scn None = Some data"
    and "malloc_ok env" and "syms = map_syms elf symbols shndx [0..<d_size symbols div sizeof_sym]"
    and "syms \<noteq> []" "length syms \<le> MAX_MAPS" "MAX_MAPS \<le> length maps"
    and "n = d_size data div length syms" "n < 2 ^ 31"
    and "defs_in_bounds elf strtabidx (bufs (d_buf data)) n syms"
  shows "safe (\<lambda>(ret, maps', h'). length maps' = length maps \<and> made malloc_call h h' \<and>
           (ret = - EFBIG \<or> ret = int (length syms) \<and>
            copied elf strtabidx (bufs (d_buf data)) (copy_size n) 0 (sort_key st_value syms) maps maps'))
     (load_elf_maps_section env maps (int shndx) elf bufs (Some symbols) strtabidx h)"
proof -
  let ?h = "h @ [Malloc ((MAX_MAPS + 1) * sizeof_sym)]"
  let ?ss = "sort_key st_value syms"
  let ?c = "copy_map_defs env elf strtabidx (bufs (d_buf data)) (int n) (int (copy_size n))
       (sizeof_map_def < n) (enumerate 0 ?ss) maps ?h"
  have b: "defs_in_bounds elf strtabidx (bufs (d_buf data)) n ?ss"
    using assms(10) by (auto simp: defs_in_bounds_def list_all_iff)
  have "safe (\<lambda>_. True) ?c"
    using b assms(6,7) by (intro copy_map_defs_safe) (auto simp: copy_size_def)
  moreover note copy_map_defs_error [OF assms(3), of elf strtabidx "bufs (d_buf data)" "int n"
      "int (copy_size n)" "sizeof_map_def < n" "enumerate 0 ?ss" maps ?h]
  moreover note copy_map_defs_post [of maps ?h elf strtabidx "bufs (d_buf data)"
      "int (copy_size n)" 0 ?ss env "int n" "sizeof_map_def < n"]
  moreover have "made malloc_call h ?h"
    by auto
  ultimately show ?thesis
    unfolding load_elf_maps_section_eq [OF assms(1-6,8,9)]
    by (cases ?c) (auto simp: wp intro: made_trans)
qed

section \<open>What relocation does\<close>

text \<open>The instruction that relocation entry \<open>i\<close> names, and the map it refers to.\<close>

definition relo_idx :: "elf \<Rightarrow> elf_data \<Rightarrow> nat \<Rightarrow> nat option" where
  "relo_idx elf data i = map_option (\<lambda>rel. unat (lo32 (r_offset rel div 8))) (getrel elf data (int i))"

definition relo_map ::
  "elf \<Rightarrow> elf_data \<Rightarrow> elf_data \<Rightarrow> bpf_map_data list \<Rightarrow> nat \<Rightarrow> nat \<Rightarrow> bpf_map_data option" where
  "relo_map elf data symbols maps nr_maps i =
     Option.bind (getrel elf data (int i)) (\<lambda>rel.
     Option.bind (getsym elf symbols (to_int32 (uint (drop_bit 32 (r_info rel))))) (\<lambda>s.
     find_map maps nr_maps (st_value s)))"

definition relo_targets :: "elf \<Rightarrow> elf_data \<Rightarrow> nat list \<Rightarrow> nat set" where
  "relo_targets elf data is = {k. \<exists>i \<in> set is. relo_idx elf data i = Some k}"

lemma find_map_Some:
  "find_map maps n v = Some m \<Longrightarrow> \<exists>j < n. j < length maps \<and> m = maps ! j \<and> md_elf_offset m = v"
proof (induction maps n v rule: find_map.induct)
  case (1 m' ms n v)
  show ?case
  proof (cases "md_elf_offset m' = v")
    case False
    with 1 obtain j where "j < n" "j < length ms" "m = ms ! j" "md_elf_offset m = v"
      by auto
    then show ?thesis
      by (intro exI [of _ "Suc j"]) simp
  qed (use 1 in \<open>auto intro: exI [of _ 0]\<close>)
qed auto

text \<open>Instruction \<open>x'\<close> is \<open>x\<close>, a 64-bit load, made to load map \<open>m\<close>.\<close>

definition relocated :: "bpf_insn \<Rightarrow> bpf_map_data \<Rightarrow> bpf_insn \<Rightarrow> bool" where
  "relocated x m x' = (code x = (BPF_LD OR BPF_IMM OR BPF_DW) \<and>
     x' = x\<lparr>src_reg := BPF_PSEUDO_MAP_FD, imm := word_of_int (md_fd m)\<rparr>)"

text \<open>
  The effect of the entries \<open>is\<close> on a program: nothing but named instructions changes, and, if
  all entries were applied, each named instruction loads the map of an entry that names it.
\<close>

definition relo_effect ::
  "elf \<Rightarrow> elf_data \<Rightarrow> elf_data \<Rightarrow> bpf_map_data list \<Rightarrow> nat \<Rightarrow> nat list \<Rightarrow> u8 list \<Rightarrow> int \<times> u8 list \<Rightarrow> bool"
  where
  "relo_effect elf data symbols maps nr_maps is insn =
     (\<lambda>(ret, insn'). ret \<in> {0, 1} \<and> length insn' = length insn \<and>
        (\<forall>k. k \<notin> relo_targets elf data is \<longrightarrow> get_insn insn' k = get_insn insn k) \<and>
        (ret = 0 \<longrightarrow> (\<forall>k \<in> relo_targets elf data is. \<exists>i \<in> set is. \<exists>m x x'.
           relo_idx elf data i = Some k \<and> relo_map elf data symbols maps nr_maps i = Some m \<and>
           get_insn insn k = Inr x \<and> get_insn insn' k = Inr x' \<and> relocated x m x')))"

lemma relo_effect_Cons:
  assumes k: "relo_idx elf data i = Some k" and m: "relo_map elf data symbols maps nr_maps i = Some m"
    and x: "get_insn insn k = Inr x" "relocated x m x'"
    and rest: "relo_effect elf data symbols maps nr_maps js (put_insn insn k x') (ret, insn')"
  shows "relo_effect elf data symbols maps nr_maps (i # js) insn (ret, insn')"
proof -
  have len: "8 * k + 8 \<le> length insn"
    using x(1) by (auto simp: get_insn_eq split: if_splits)
  have targets: "relo_targets elf data (i # js) = insert k (relo_targets elf data js)"
    using k by (auto simp: relo_targets_def)
  have slot: "get_insn (put_insn insn k x') j = (if j = k then Inr x' else get_insn insn j)" for j
    using len by (simp add: get_insn_put_same get_insn_put_other)
  have head: "\<exists>i' \<in> set (i # js). \<exists>m y y'. relo_idx elf data i' = Some j \<and>
      relo_map elf data symbols maps nr_maps i' = Some m \<and>
      get_insn insn j = Inr y \<and> get_insn insn' j = Inr y' \<and> relocated y m y'"
    if r: "ret = 0" and j: "j \<in> insert k (relo_targets elf data js)" for j
  proof (cases "j \<in> relo_targets elf data js")
    case True
    with rest r obtain i' m' y y' where "i' \<in> set js" "relo_idx elf data i' = Some j"
      "relo_map elf data symbols maps nr_maps i' = Some m'"
      and y: "get_insn (put_insn insn k x') j = Inr y" "get_insn insn' j = Inr y'" "relocated y m' y'"
      unfolding relo_effect_def by blast
    moreover have "\<exists>z. get_insn insn j = Inr z \<and> relocated z m' y'"
      using y x slot [of j] by (auto simp: relocated_def split: if_splits)
    ultimately show ?thesis
      by (meson list.set_intros(2))
  next
    case False
    then have "j = k" "get_insn insn' j = Inr x'"
      using rest slot [of j] j by (auto simp: relo_effect_def)
    then show ?thesis
      using k m x by auto
  qed
  show ?thesis
    using rest head len slot by (auto simp: relo_effect_def targets)
qed

lemma get_insn_in_bounds: "get_insn insn k = Inr x \<Longrightarrow> 8 * k + 8 \<le> length insn"
  by (auto simp: get_insn_eq split: if_splits)

definition relo_sym :: "elf \<Rightarrow> elf_data \<Rightarrow> elf_data \<Rightarrow> nat \<Rightarrow> gelf_sym option" where
  "relo_sym elf data symbols i = Option.bind (getrel elf data (int i)) (\<lambda>rel.
     getsym elf symbols (to_int32 (uint (drop_bit 32 (r_info rel)))))"

lemma apply_relos_Cons:
  "apply_relos elf data symbols maps nr_maps (i # js) insn =
     (case relo_idx elf data i of None \<Rightarrow> Inl Uninit_read
      | Some k \<Rightarrow> bind_res (get_insn insn k) (\<lambda>x.
        if code x \<noteq> (BPF_LD OR BPF_IMM OR BPF_DW) then Inr (1, insn)
        else if relo_sym elf data symbols i = None \<and> 0 < nr_maps then Inl Uninit_read
        else case relo_map elf data symbols maps nr_maps i of
            None \<Rightarrow> Inr (1, put_insn insn k (x\<lparr>src_reg := BPF_PSEUDO_MAP_FD\<rparr>))
          | Some m \<Rightarrow> apply_relos elf data symbols maps nr_maps js
              (put_insn insn k (x\<lparr>src_reg := BPF_PSEUDO_MAP_FD, imm := word_of_int (md_fd m)\<rparr>))))"
proof (cases "getrel elf data (int i)")
  case (Some rel)
  define k where "k = unat (lo32 (r_offset rel div 8))"
  define s where "s = getsym elf symbols (to_int32 (uint (drop_bit 32 (r_info rel))))"
  have "relo_map elf data symbols maps nr_maps i =
      Option.bind s (\<lambda>s. find_map maps nr_maps (st_value s))"
    and "relo_idx elf data i = Some k" and "relo_sym elf data symbols i = s"
    by (simp_all add: relo_map_def relo_idx_def relo_sym_def Some k_def s_def)
  then show ?thesis
    using get_insn_in_bounds [of insn k]
    by (cases "get_insn insn k")
      (simp_all only: apply_relos.simps Some option.case Let_def k_def [symmetric]
         s_def [symmetric] bind_res_simps put_put_insn cong: if_cong option.case_cong)
qed (simp add: relo_idx_def)

lemma apply_relos_post:
  "post (relo_effect elf data symbols maps nr_maps is insn)
     (apply_relos elf data symbols maps nr_maps is insn)"
proof (induction "is" arbitrary: insn)
  case (Cons i js)
  let ?eff = "relo_effect elf data symbols maps nr_maps"
  show ?case
  proof (cases "relo_idx elf data i")
    case k: (Some k)
    show ?thesis
    proof (cases "get_insn insn k")
      case x: (Inr x)
      have fail: "?eff (i # js) insn (1, put_insn insn k y)" "?eff (i # js) insn (1, insn)" for y
        using get_insn_in_bounds [OF x] k
        by (auto simp: relo_effect_def relo_targets_def get_insn_put_other)
      have go: "post (?eff (i # js) insn) (apply_relos elf data symbols maps nr_maps js
          (put_insn insn k (x\<lparr>src_reg := BPF_PSEUDO_MAP_FD, imm := word_of_int (md_fd m)\<rparr>)))"
        if "relo_map elf data symbols maps nr_maps i = Some m"
          "code x = (BPF_LD OR BPF_IMM OR BPF_DW)" for m
        using relo_effect_Cons [OF k that(1) x] that(2)
        by (intro post_mono [OF Cons.IH]) (auto simp: relocated_def)
      show ?thesis
        unfolding apply_relos_Cons k x option.case bind_res_simps
        using fail go by (cases "relo_map elf data symbols maps nr_maps i") auto
    qed (simp only: apply_relos_Cons k option.case bind_res_simps post_simps)
  qed (simp only: apply_relos_Cons option.case post_simps)
qed (simp add: relo_effect_def relo_targets_def)

text \<open>Entries that can be read and that name instructions of the program.\<close>

definition relos_in_bounds :: "elf \<Rightarrow> elf_data \<Rightarrow> elf_data \<Rightarrow> nat list \<Rightarrow> nat \<Rightarrow> bool" where
  "relos_in_bounds elf data symbols is len =
     list_all (\<lambda>i. relo_sym elf data symbols i \<noteq> None \<and>
       (case relo_idx elf data i of None \<Rightarrow> False | Some k \<Rightarrow> 8 * k + 8 \<le> len)) is"

lemma apply_relos_safe:
  "relos_in_bounds elf data symbols is (length insn) \<Longrightarrow>
     safe (\<lambda>_. True) (apply_relos elf data symbols maps nr_maps is insn)"
proof (induction "is" arbitrary: insn)
  case (Cons i js)
  then obtain k where k: "relo_idx elf data i = Some k" "8 * k + 8 \<le> length insn"
    and s: "relo_sym elf data symbols i \<noteq> None"
    and rest: "relos_in_bounds elf data symbols js (length insn)"
    by (auto simp: relos_in_bounds_def split: option.splits)
  from k(2) obtain x where x: "get_insn insn k = Inr x"
    by (simp add: get_insn_eq)
  have "safe (\<lambda>_. True) (apply_relos elf data symbols maps nr_maps js (put_insn insn k y))" for y
    using rest k(2) by (intro Cons.IH) simp
  then show ?case
    unfolding apply_relos_Cons k(1) x option.case bind_res_simps
    using s by (cases "relo_map elf data symbols maps nr_maps i") auto
qed simp

lemma parse_relo_and_apply_safe:
  assumes "sh_entsize shdr \<noteq> 0"
    and "relos_in_bounds elf data symbols
           [0..<nat (to_int32 (uint (sh_size shdr div sh_entsize shdr)))] (length insn)"
  shows "safe (\<lambda>(ret, insn'). length insn' = length insn)
           (parse_relo_and_apply elf data symbols shdr insn maps nr_maps)"
proof -
  let ?is = "[0..<nat (to_int32 (uint (sh_size shdr div sh_entsize shdr)))]"
  have "safe (\<lambda>(ret, insn'). length insn' = length insn)
          (apply_relos elf data symbols maps nr_maps ?is insn)"
    using safe_conj_post [OF apply_relos_safe [OF assms(2)] apply_relos_post [of elf data symbols maps nr_maps ?is insn]]
    by (rule safe_mono) (auto simp: relo_effect_def)
  then show ?thesis
    using assms(1) by (simp add: parse_relo_and_apply_def Let_def)
qed

lemma parse_relo_and_apply_post:
  "post (relo_effect elf data symbols maps nr_maps
           [0..<nat (to_int32 (uint (sh_size shdr div sh_entsize shdr)))] insn)
     (parse_relo_and_apply elf data symbols shdr insn maps nr_maps)"
  using apply_relos_post by (simp add: parse_relo_and_apply_def Let_def)

end
