(* ===== verification/Bpf_Load.thy ===== *)
theory Bpf_Load
  imports Elf_Maps
begin

text \<open>
  The loader \<^verbatim>\<open>src/common/bpf_load.c\<close>: its global variables as the record \<open>loader\<close>, loading and
  attaching one program, creating the maps, and loading a whole object file.  Diagnostics
  printed on failures are left out.
\<close>

section \<open>State of the loader\<close>

record loader =
  license :: "u8 list"
  kern_version :: u32
  processed_sec :: "bool list"
  bpf_log_buf :: "u8 list"
  map_fd :: "int list"
  prog_fd :: "int list"
  event_fd :: "int list"
  prog_cnt :: nat
  prog_array_fd :: int
  map_data :: "bpf_map_data list"
  map_data_count :: nat
  calls :: hist

definition map_data_zero :: bpf_map_data where
  "map_data_zero = \<lparr>md_fd = 0, md_name = None, md_elf_offset = 0,
     md_def = def_of_bytes (replicate sizeof_map_def 0)\<rparr>"

definition loader_init :: loader where
  "loader_init =
     \<lparr>license = replicate 128 0, kern_version = 0, processed_sec = replicate 128 False,
      bpf_log_buf = [], map_fd = replicate MAX_MAPS 0, prog_fd = replicate MAX_PROGS 0,
      event_fd = replicate MAX_PROGS 0, prog_cnt = 0, prog_array_fd = - 1,
      map_data = replicate MAX_MAPS map_data_zero, map_data_count = 0, calls = []\<rparr>"

abbreviation DEBUGFS :: string where "DEBUGFS \<equiv> ''/sys/kernel/debug/tracing/''"
abbreviation BPF_LOG_BUF_SIZE :: u64 where "BPF_LOG_BUF_SIZE \<equiv> 16777215"
abbreviation sizeof_buf :: nat where "sizeof_buf \<equiv> 256"

text \<open>A system call made by the loader.\<close>

definition do_call :: "env \<Rightarrow> call \<Rightarrow> loader \<Rightarrow> reply \<times> loader" where
  "do_call env c L = (let (r, h) = sys env c (calls L) in (r, L\<lparr>calls := h\<rparr>))"

section \<open>Loading and attaching a program\<close>

definition perf_event_open ::
  "env \<Rightarrow> perf_event_attr \<Rightarrow> int \<Rightarrow> int \<Rightarrow> int \<Rightarrow> u64 \<Rightarrow> loader \<Rightarrow> int \<times> loader" where
  "perf_event_open env hw_event pid cpu group_fd flags L =
     (let (r, L) = do_call env (Perf_event_open hw_event pid cpu group_fd flags) L
      in (to_int32 (r_ret r), L))"

definition populate_prog_array :: "env \<Rightarrow> string \<Rightarrow> int \<Rightarrow> loader \<Rightarrow> int \<times> loader" where
  "populate_prog_array env event fd L =
     (let ind = atoi event;
          (err, h) = bpf_map_update_elem env (prog_array_fd L)
                       (word_bytes (word_of_int ind :: u32)) (word_bytes (word_of_int fd :: u32))
                       BPF_ANY (calls L)
      in (if err < 0 then - 1 else 0, L\<lparr>calls := h\<rparr>))"

definition write_kprobe_events :: "env \<Rightarrow> string option \<Rightarrow> loader \<Rightarrow> int \<times> loader" where
  "write_kprobe_events env val L =
     (case val of None \<Rightarrow> (- 1, L)
      | Some v \<Rightarrow>
        let flags = (if v = [] then [O_WRONLY, O_TRUNC] else [O_WRONLY, O_APPEND]);
            (r, L) = do_call env (Open ''/sys/kernel/debug/tracing/kprobe_events'' flags) L;
            (w, L) = do_call env (Write (r_ret r) v) L;
            (_, L) = do_call env (Close (r_ret r)) L
        in (to_int32 (r_ret w), L))"

definition is_socket :: "string \<Rightarrow> bool" where
  "is_socket event = strncmp_eq event ''socket'' 6"
definition is_kprobe :: "string \<Rightarrow> bool" where
  "is_kprobe event = strncmp_eq event ''kprobe/'' 7"
definition is_kretprobe :: "string \<Rightarrow> bool" where
  "is_kretprobe event = strncmp_eq event ''kretprobe/'' 10"
definition is_tracepoint :: "string \<Rightarrow> bool" where
  "is_tracepoint event = strncmp_eq event ''tracepoint/'' 11"
definition is_raw_tracepoint :: "string \<Rightarrow> bool" where
  "is_raw_tracepoint event = strncmp_eq event ''raw_tracepoint/'' 15"
definition is_xdp :: "string \<Rightarrow> bool" where
  "is_xdp event = strncmp_eq event ''xdp'' 3"
definition is_perf_event :: "string \<Rightarrow> bool" where
  "is_perf_event event = strncmp_eq event ''perf_event'' 10"
definition is_cgroup_skb :: "string \<Rightarrow> bool" where
  "is_cgroup_skb event = strncmp_eq event ''cgroup/skb'' 10"
definition is_cgroup_sk :: "string \<Rightarrow> bool" where
  "is_cgroup_sk event = strncmp_eq event ''cgroup/sock'' 11"
definition is_sockops :: "string \<Rightarrow> bool" where
  "is_sockops event = strncmp_eq event ''sockops'' 7"
definition is_sk_skb :: "string \<Rightarrow> bool" where
  "is_sk_skb event = strncmp_eq event ''sk_skb'' 6"
definition is_sk_msg :: "string \<Rightarrow> bool" where
  "is_sk_msg event = strncmp_eq event ''sk_msg'' 6"

definition event_prog_type :: "string \<Rightarrow> bpf_prog_type option" where
  "event_prog_type event =
     (if is_socket event then Some BPF_PROG_TYPE_SOCKET_FILTER
      else if is_kprobe event \<or> is_kretprobe event then Some BPF_PROG_TYPE_KPROBE
      else if is_tracepoint event then Some BPF_PROG_TYPE_TRACEPOINT
      else if is_raw_tracepoint event then Some BPF_PROG_TYPE_RAW_TRACEPOINT
      else if is_xdp event then Some BPF_PROG_TYPE_XDP
      else if is_perf_event event then Some BPF_PROG_TYPE_PERF_EVENT
      else if is_cgroup_skb event then Some BPF_PROG_TYPE_CGROUP_SKB
      else if is_cgroup_sk event then Some BPF_PROG_TYPE_CGROUP_SOCK
      else if is_sockops event then Some BPF_PROG_TYPE_SOCK_OPS
      else if is_sk_skb event then Some BPF_PROG_TYPE_SK_SKB
      else if is_sk_msg event then Some BPF_PROG_TYPE_SK_MSG
      else None)"

text \<open>The character at a position of a string: its NUL byte follows the last character.\<close>

definition char_at :: "string \<Rightarrow> nat \<Rightarrow> char res" where
  "char_at s p = nth_res (s @ [CHR 0x00]) p"

text \<open>
  Sections of sockets, socket operations and socket messages: a section name with a slash and a
  number puts the program into the tail-call array.
\<close>

definition attach_socket :: "env \<Rightarrow> string \<Rightarrow> int \<Rightarrow> loader \<Rightarrow> (int \<times> loader) res" where
  "attach_socket env event fd L =
     (let p = (if is_socket event then 6 else 7) in
      bind_res (char_at event p) (\<lambda>c.
      if c \<noteq> CHR ''/'' then Inr (0, L)
      else bind_res (char_at event (p + 1)) (\<lambda>d.
        if \<not> isdigit d then Inr (- 1, L)
        else Inr (populate_prog_array env (drop (p + 1) event) fd L))))"

definition attach_raw_tracepoint :: "env \<Rightarrow> string \<Rightarrow> int \<Rightarrow> loader \<Rightarrow> (int \<times> loader) res" where
  "attach_raw_tracepoint env event fd L =
     (let (efd, h) = bpf_raw_tracepoint_open env (drop 15 event) fd (calls L);
          L = L\<lparr>calls := h\<rparr> in
      if efd < 0 then Inr (- 1, L)
      else bind_res (upd_res (event_fd L) (prog_cnt L - 1) efd) (\<lambda>es.
        Inr (0, L\<lparr>event_fd := es\<rparr>)))"

text \<open>
  Registering a probe: on x86-64 the code first tries the system-call wrapper's name.  The
  result is the prefix of the event's directory, or \<open>None\<close> if the probe cannot be created.
\<close>

definition register_kprobe ::
  "env \<Rightarrow> bool \<Rightarrow> string \<Rightarrow> loader \<Rightarrow> string option \<times> loader" where
  "register_kprobe env kprobe event L =
     (let p = (if kprobe then ''p:'' else ''r:'');
          (x64, L) = (if strncmp_eq event ''sys_'' 4
             then let (err, L) = write_kprobe_events env
                        (Some (snprintf_buf sizeof_buf
                           (p @ ''__x64_'' @ event @ '' __x64_'' @ event))) L
                  in (0 \<le> err, L)
             else (False, L))
      in if x64 then (Some ''__x64_'', L)
         else let (err, L) = write_kprobe_events env
                    (Some (snprintf_buf sizeof_buf (p @ event @ '' '' @ event))) L
              in if err < 0 then (None, L) else (Some [], L))"

definition tracing_attr :: perf_event_attr where
  "tracing_attr = perf_attr_zero
     \<lparr>pe_type := PERF_TYPE_TRACEPOINT, pe_sample_type := PERF_SAMPLE_RAW,
      pe_sample_period := 1, pe_wakeup_events := 1\<rparr>"

text \<open>
  Reading the event's number and connecting the program to a perf event: the last part of
  \<open>load_and_attach\<close>.
\<close>

definition attach_perf_event :: "env \<Rightarrow> string \<Rightarrow> int \<Rightarrow> loader \<Rightarrow> (int \<times> loader) res" where
  "attach_perf_event env path fd L =
     (let (r, L) = do_call env (Open path [O_RDONLY]) L; efd = r_ret r in
      if efd < 0 then Inr (- 1, L)
      else
        let (r, L) = do_call env (Read efd sizeof_buf) L; err = r_ret r in
        if err < 0 \<or> int sizeof_buf \<le> err then Inr (- 1, L)
        else
          let (_, L) = do_call env (Close efd) L;
              id = atoi (string_of_bytes (take (nat err) (r_data r)));
              (efd, L) = perf_event_open env (tracing_attr\<lparr>pe_config := word_of_int id\<rparr>)
                           (- 1) 0 (- 1) 0 L in
          if efd < 0 then Inr (- 1, L)
          else bind_res (upd_res (event_fd L) (prog_cnt L - 1) efd) (\<lambda>es.
            let L = L\<lparr>event_fd := es\<rparr>;
                (r, L) = do_call env (Ioctl efd PERF_EVENT_IOC_ENABLE 0) L in
            if r_ret r < 0 then Inr (- 1, L)
            else
              let (r, L) = do_call env (Ioctl efd PERF_EVENT_IOC_SET_BPF fd) L in
              if r_ret r < 0 then Inr (- 1, L) else Inr (0, L)))"

definition attach_kprobe :: "env \<Rightarrow> string \<Rightarrow> int \<Rightarrow> loader \<Rightarrow> (int \<times> loader) res" where
  "attach_kprobe env event fd L =
     (let kprobe = is_kprobe event; ev = drop (if kprobe then 7 else 10) event in
      case ev of
        [] \<Rightarrow> Inr (- 1, L)
      | c # _ \<Rightarrow>
        if isdigit c then Inr (populate_prog_array env ev fd L)
        else case register_kprobe env kprobe ev L of
            (None, L) \<Rightarrow> Inr (- 1, L)
          | (Some event_prefix, L) \<Rightarrow>
              bind_res (strcats_res sizeof_buf []
                          [DEBUGFS, ''events/kprobes/'', event_prefix, ev, ''/id'']) (\<lambda>buf.
              attach_perf_event env buf fd L))"

definition attach_tracepoint :: "env \<Rightarrow> string \<Rightarrow> int \<Rightarrow> loader \<Rightarrow> (int \<times> loader) res" where
  "attach_tracepoint env event fd L =
     (let ev = drop 11 event in
      if ev = [] then Inr (- 1, L)
      else bind_res (strcats_res sizeof_buf [] [DEBUGFS, ''events/'', ev, ''/id'']) (\<lambda>buf.
        attach_perf_event env buf fd L))"

definition attach :: "env \<Rightarrow> string \<Rightarrow> int \<Rightarrow> loader \<Rightarrow> (int \<times> loader) res" where
  "attach env event fd L =
     (if is_xdp event \<or> is_perf_event event \<or> is_cgroup_skb event \<or> is_cgroup_sk event
      then Inr (0, L)
      else if is_socket event \<or> is_sockops event \<or> is_sk_skb event \<or> is_sk_msg event
      then attach_socket env event fd L
      else if is_raw_tracepoint event then attach_raw_tracepoint env event fd L
      else if is_kprobe event \<or> is_kretprobe event then attach_kprobe env event fd L
      else attach_tracepoint env event fd L)"

text \<open>\<open>sz\<close> (\<open>size\<close> in the source) is a C \<open>int\<close> made from the size of the section.\<close>

definition load_and_attach ::
  "nat \<Rightarrow> env \<Rightarrow> string \<Rightarrow> u8 list \<Rightarrow> u32 \<Rightarrow> loader \<Rightarrow> (int \<times> loader) res" where
  "load_and_attach fuel env event prog sz L =
     (case event_prog_type event of
        None \<Rightarrow> Inr (- 1, L)
      | Some prog_type \<Rightarrow>
        if prog_cnt L = MAX_PROGS then Inr (- 1, L)
        else
          let insns_cnt = sx64 sz div 8 in
          bind_res (bpf_load_program fuel env prog_type prog insns_cnt (license L)
                      (kern_version L) True BPF_LOG_BUF_SIZE (calls L)) (\<lambda>(fd, log, h).
          let L = L\<lparr>bpf_log_buf := (case log of None \<Rightarrow> bpf_log_buf L | Some t \<Rightarrow> t),
                    calls := h\<rparr> in
          if fd < 0 then Inr (- 1, L)
          else bind_res (upd_res (prog_fd L) (prog_cnt L) fd) (\<lambda>ps.
            attach env event fd (L\<lparr>prog_fd := ps, prog_cnt := prog_cnt L + 1\<rparr>))))"

section \<open>Creating the maps\<close>

type_synonym fixup_map_cb = "bpf_map_data \<Rightarrow> nat \<Rightarrow> bpf_map_data"

definition create_map :: "env \<Rightarrow> bpf_map_data \<Rightarrow> loader \<Rightarrow> (int \<times> loader) res" where
  "create_map env m L =
     (let d = md_def m;
          numa_node = (if m_map_flags d AND BPF_F_NUMA_NODE \<noteq> 0 then m_numa_node d else - 1) in
      if m_type d = BPF_MAP_TYPE_ARRAY_OF_MAPS \<or> m_type d = BPF_MAP_TYPE_HASH_OF_MAPS then
        bind_res (nth_res (map_fd L) (unat (m_inner_map_idx d))) (\<lambda>inner_map_fd.
        let (fd, h) = bpf_create_map_in_map_node env (m_type d) (md_name m) (m_key_size d)
                        (word_of_int inner_map_fd) (m_max_entries d) (m_map_flags d)
                        numa_node (calls L)
        in Inr (fd, L\<lparr>calls := h\<rparr>))
      else
        let (fd, h) = bpf_create_map_node env (m_type d) (md_name m) (m_key_size d)
                        (m_value_size d) (m_max_entries d) (m_map_flags d) numa_node (calls L)
        in Inr (fd, L\<lparr>calls := h\<rparr>))"

text \<open>One round of the loop: \<open>True\<close> when the function returns 1.\<close>

definition load_map ::
  "env \<Rightarrow> fixup_map_cb option \<Rightarrow> nat \<Rightarrow> loader \<Rightarrow> (bool \<times> loader) res" where
  "load_map env fixup_map i L =
     bind_res (nth_res (map_data L) i) (\<lambda>m.
     let m = (case fixup_map of None \<Rightarrow> m | Some f \<Rightarrow> f m i);
         L = L\<lparr>map_data := (map_data L)[i := m]\<rparr> in
     if fixup_map \<noteq> None \<and> md_fd m \<noteq> - 1 then
       bind_res (upd_res (map_fd L) i (md_fd m)) (\<lambda>fds. Inr (False, L\<lparr>map_fd := fds\<rparr>))
     else
       bind_res (create_map env m L) (\<lambda>(fd, L).
       bind_res (upd_res (map_fd L) i fd) (\<lambda>fds.
       let L = L\<lparr>map_fd := fds\<rparr> in
       if fd < 0 then Inr (True, L)
       else
         let L = L\<lparr>map_data := (map_data L)[i := m\<lparr>md_fd := fd\<rparr>]\<rparr> in
         Inr (False, if m_type (md_def m) = BPF_MAP_TYPE_PROG_ARRAY
                     then L\<lparr>prog_array_fd := fd\<rparr> else L))))"

fun load_maps_from ::
  "env \<Rightarrow> fixup_map_cb option \<Rightarrow> nat list \<Rightarrow> loader \<Rightarrow> (int \<times> loader) res" where
  "load_maps_from env fixup_map [] L = Inr (0, L)"
| "load_maps_from env fixup_map (i # is) L =
     bind_res (load_map env fixup_map i L) (\<lambda>(stop, L).
     if stop then Inr (1, L) else load_maps_from env fixup_map is L)"

definition load_maps :: "env \<Rightarrow> nat \<Rightarrow> fixup_map_cb option \<Rightarrow> loader \<Rightarrow> (int \<times> loader) res" where
  "load_maps env nr_maps fixup_map L = load_maps_from env fixup_map [0..<nr_maps] L"

section \<open>Well-formed states and frames\<close>

definition loader_wf :: "loader \<Rightarrow> bool" where
  "loader_wf L = (length (license L) = 128 \<and> length (processed_sec L) = 128 \<and>
     length (map_fd L) = MAX_MAPS \<and> length (prog_fd L) = MAX_PROGS \<and>
     length (event_fd L) = MAX_PROGS \<and> length (map_data L) = MAX_MAPS \<and>
     prog_cnt L \<le> MAX_PROGS \<and> map_data_count L \<le> MAX_MAPS \<and>
     (\<forall>i < prog_cnt L. 0 \<le> prog_fd L ! i))"

lemma loader_wf_init: "loader_wf loader_init"
  by (simp add: loader_wf_def loader_init_def)

lemma do_call_eq [simp]: "do_call env c L = (env (calls L) c, L\<lparr>calls := calls L @ [c]\<rparr>)"
  by (simp add: do_call_def sys_def)

text \<open>Attaching a program changes nothing but \<open>event_fd\<close> and the calls made.\<close>

definition attach_frame :: "loader \<Rightarrow> loader \<Rightarrow> bool" where
  "attach_frame L L' =
     (license L' = license L \<and> kern_version L' = kern_version L \<and>
      processed_sec L' = processed_sec L \<and> bpf_log_buf L' = bpf_log_buf L \<and>
      map_fd L' = map_fd L \<and> prog_fd L' = prog_fd L \<and> prog_cnt L' = prog_cnt L \<and>
      prog_array_fd L' = prog_array_fd L \<and> map_data L' = map_data L \<and>
      map_data_count L' = map_data_count L \<and>
      length (event_fd L') = length (event_fd L) \<and> prefix (calls L) (calls L'))"

lemma attach_frame_refl [simp, intro]: "attach_frame L L"
  by (simp add: attach_frame_def)

lemma attach_frame_trans: "attach_frame L M \<Longrightarrow> attach_frame M N \<Longrightarrow> attach_frame L N"
  by (auto simp: attach_frame_def)

lemma attach_frame_calls [simp, intro]: "attach_frame L (L\<lparr>calls := calls L @ cs\<rparr>)"
  by (simp add: attach_frame_def)

lemma populate_prog_array_eq:
  "populate_prog_array env event fd L =
     (let c = Bpf BPF_MAP_UPDATE_ELEM (elem_attr (prog_array_fd L)
                (word_bytes (word_of_int (atoi event) :: u32))
                (word_bytes (word_of_int fd :: u32)) BPF_ANY)
      in (if r_ret (env (calls L) c) < 0 then - 1 else 0, L\<lparr>calls := calls L @ [c]\<rparr>))"
  by (simp add: populate_prog_array_def bpf_map_update_elem_def sys_bpf_def sys_def Let_def)

lemma write_kprobe_events_eq:
  "write_kprobe_events env (Some v) L =
     (let c = Open ''/sys/kernel/debug/tracing/kprobe_events''
                (if v = [] then [O_WRONLY, O_TRUNC] else [O_WRONLY, O_APPEND]);
          fd = r_ret (env (calls L) c);
          w = env (calls L @ [c]) (Write fd v)
      in (to_int32 (r_ret w), L\<lparr>calls := calls L @ [c, Write fd v, Close fd]\<rparr>))"
  by (simp add: write_kprobe_events_def Let_def)

lemma register_kprobe_frame:
  "register_kprobe env kprobe event L = (p, L') \<Longrightarrow>
     (\<exists>cs. L' = L\<lparr>calls := calls L @ cs\<rparr>) \<and> (p = None \<or> p = Some [] \<or> p = Some ''__x64_'')"
  by (auto simp: register_kprobe_def write_kprobe_events_eq Let_def split: if_splits)

lemma attach_perf_event_post:
  "post (\<lambda>(r, L'). attach_frame L L' \<and> (r = 0 \<or> r = - 1)) (attach_perf_event env path fd L)"
  by (auto simp: attach_perf_event_def perf_event_open_def wp Let_def attach_frame_def)

abbreviation attached :: "loader \<Rightarrow> int \<times> loader \<Rightarrow> bool" where
  "attached L \<equiv> \<lambda>(r, L'). attach_frame L L' \<and> (r = 0 \<or> r = - 1)"

lemma populate_prog_array_attached: "attached L (populate_prog_array env event fd L)"
  by (auto simp: populate_prog_array_eq Let_def)

lemma attach_socket_post: "post (attached L) (attach_socket env event fd L)"
  using populate_prog_array_attached
  by (auto simp: attach_socket_def wp Let_def intro!: postI)

lemma attach_raw_tracepoint_post: "post (attached L) (attach_raw_tracepoint env event fd L)"
  by (auto simp: attach_raw_tracepoint_def bpf_raw_tracepoint_open_def sys_bpf_def sys_def wp
      Let_def attach_frame_def)

lemma attach_kprobe_post: "post (attached L) (attach_kprobe env event fd L)"
proof (cases "drop (if is_kprobe event then 7 else 10) event")
  case (Cons c cs)
  let ?ev = "drop (if is_kprobe event then 7 else 10) event"
  obtain p M where reg: "register_kprobe env (is_kprobe event) ?ev L = (p, M)"
    by (cases "register_kprobe env (is_kprobe event) ?ev L")
  have "attach_frame L M"
    using register_kprobe_frame [OF reg] by auto
  then have "post (attached L) (attach_perf_event env path fd M)" for path
    by (intro post_mono [OF attach_perf_event_post]) (auto intro: attach_frame_trans)
  then show ?thesis
    using Cons reg \<open>attach_frame L M\<close> populate_prog_array_attached [of L env ?ev fd]
    by (auto simp: attach_kprobe_def wp Let_def simp del: drop_eq_Nil intro!: postI split: option.splits)
qed (simp add: attach_kprobe_def)

lemma attach_tracepoint_post: "post (attached L) (attach_tracepoint env event fd L)"
  using attach_perf_event_post by (auto simp: attach_tracepoint_def wp Let_def intro!: postI)

lemma attach_post: "post (attached L) (attach env event fd L)"
  by (simp add: attach_def attach_socket_post attach_raw_tracepoint_post attach_kprobe_post
      attach_tracepoint_post)

text \<open>
  Names the code can handle: the path of an event fits the buffer of 256 bytes, and the name of
  a socket section is long enough for the position at which the code looks for a slash.
\<close>

definition event_name_ok :: "string \<Rightarrow> bool" where
  "event_name_ok event = (length event \<le> 212 \<and> event \<notin> {''sk_skb'', ''sk_msg''})"

lemma strncmp_eq_length: "strncmp_eq s t n \<Longrightarrow> length t = n \<Longrightarrow> n \<le> length s"
  using strncmp_eq_prefix [of s t] by (auto simp: prefix_length_le)

lemma attach_socket_safe:
  assumes "is_socket event \<or> is_sockops event \<or> is_sk_skb event \<or> is_sk_msg event"
    and "event_name_ok event"
  shows "safe (\<lambda>_. True) (attach_socket env event fd L)"
proof -
  have long: "7 \<le> length event" if "take 6 event = t" "event \<noteq> t" "length t = 6" for t
  proof (rule ccontr)
    assume "\<not> 7 \<le> length event"
    then have "take 6 event = event" by simp
    then show False using that by simp
  qed
  have "6 \<le> length event" if "is_socket event"
    using strncmp_eq_length [of event "''socket''"] that by (simp add: is_socket_def)
  moreover have "7 \<le> length event" if "is_sockops event"
    using strncmp_eq_length [of event "''sockops''"] that by (simp add: is_sockops_def)
  moreover have "7 \<le> length event" if "is_sk_skb event \<or> is_sk_msg event"
    using that long [of "''sk_skb''"] long [of "''sk_msg''"] assms(2)
    by (auto simp: is_sk_skb_def is_sk_msg_def strncmp_eq_def event_name_ok_def)
  ultimately have "(if is_socket event then 6 else 7) \<le> length event"
    using assms(1) by auto
  then show ?thesis
    by (auto simp: attach_socket_def char_at_def wp Let_def nth_append split: if_splits)
qed

lemma attach_perf_event_safe:
  "0 < prog_cnt L \<Longrightarrow> prog_cnt L \<le> length (event_fd L) \<Longrightarrow>
     safe (\<lambda>_. True) (attach_perf_event env path fd L)"
  by (auto simp: attach_perf_event_def perf_event_open_def wp Let_def)

lemma attach_kprobe_safe:
  assumes "0 < prog_cnt L" "prog_cnt L \<le> length (event_fd L)" "event_name_ok event"
  shows "safe (\<lambda>_. True) (attach_kprobe env event fd L)"
proof (cases "drop (if is_kprobe event then 7 else 10) event")
  case (Cons c cs)
  let ?ev = "drop (if is_kprobe event then 7 else 10) event"
  obtain p M where reg: "register_kprobe env (is_kprobe event) ?ev L = (p, M)"
    by (cases "register_kprobe env (is_kprobe event) ?ev L")
  have M: "attach_frame L M" "\<forall>s. p = Some s \<longrightarrow> length s \<le> 6"
    using register_kprobe_frame [OF reg] by auto
  have "prog_cnt M = prog_cnt L" "length (event_fd M) = length (event_fd L)"
    using M(1) by (auto simp: attach_frame_def)
  then have "safe (\<lambda>_. True) (attach_perf_event env path fd M)" for path
    using assms by (intro attach_perf_event_safe) auto
  moreover have "length ?ev \<le> 205"
    using assms(3) by (auto simp: event_name_ok_def)
  ultimately show ?thesis
    using Cons reg M(2)
    by (auto simp: attach_kprobe_def wp Let_def strcats_res_Inr simp del: drop_eq_Nil strcats_res.simps
        split: option.splits)
qed (simp add: attach_kprobe_def)

lemma attach_safe:
  assumes "0 < prog_cnt L" "prog_cnt L \<le> length (event_fd L)" "event_name_ok event"
  shows "safe (\<lambda>_. True) (attach env event fd L)"
proof -
  have "safe (\<lambda>_. True) (attach_raw_tracepoint env event fd L)"
    using assms by (auto simp: attach_raw_tracepoint_def bpf_raw_tracepoint_open_def sys_bpf_def
        sys_def wp Let_def)
  moreover have "safe (\<lambda>_. True) (attach_tracepoint env event fd L)"
    using assms attach_perf_event_safe [of L env _ fd]
    by (auto simp: attach_tracepoint_def wp Let_def strcats_res_Inr event_name_ok_def
        simp del: strcats_res.simps)
  ultimately show ?thesis
    using assms by (simp add: attach_def attach_socket_safe attach_kprobe_safe)
qed

section \<open>Loading one program\<close>

text \<open>
  The states \<open>load_and_attach\<close> can leave: the program is recorded under the next number, or
  nothing is recorded and the code reports a failure.
\<close>

definition recorded :: "int \<Rightarrow> loader \<Rightarrow> loader \<Rightarrow> bool" where
  "recorded fd L L' = (0 \<le> fd \<and> prog_cnt L < MAX_PROGS \<and>
     prog_cnt L' = prog_cnt L + 1 \<and> prog_fd L' = (prog_fd L)[prog_cnt L := fd])"

definition load_frame :: "loader \<Rightarrow> loader \<Rightarrow> bool" where
  "load_frame L L' =
     (license L' = license L \<and> kern_version L' = kern_version L \<and>
      processed_sec L' = processed_sec L \<and> map_fd L' = map_fd L \<and>
      prog_array_fd L' = prog_array_fd L \<and> map_data L' = map_data L \<and>
      map_data_count L' = map_data_count L \<and>
      length (event_fd L') = length (event_fd L) \<and> prefix (calls L) (calls L'))"

lemma load_frameI:
  "attach_frame (L\<lparr>bpf_log_buf := b, calls := calls L @ cs, prog_fd := p, prog_cnt := n\<rparr>) L' \<Longrightarrow>
     load_frame L L' \<and> prog_fd L' = p \<and> prog_cnt L' = n"
  by (auto simp: attach_frame_def load_frame_def dest: append_prefixD)

lemma load_frame_log [simp, intro]:
  "load_frame L (L\<lparr>bpf_log_buf := b, calls := calls L @ cs\<rparr>)"
  by (simp add: load_frame_def)

definition load_result :: "loader \<Rightarrow> int \<times> loader \<Rightarrow> bool" where
  "load_result L = (\<lambda>(ret, L'). load_frame L L' \<and>
      (ret = - 1 \<and> prog_cnt L' = prog_cnt L \<and> prog_fd L' = prog_fd L \<or>
       (ret = 0 \<or> ret = - 1) \<and> (\<exists>fd. recorded fd L L')))"

lemma load_result_attached:
  assumes "attached (L\<lparr>bpf_log_buf := b, calls := calls L @ cs,
      prog_fd := (prog_fd L)[prog_cnt L := fd], prog_cnt := Suc (prog_cnt L)\<rparr>) x"
    and "0 \<le> fd" "prog_cnt L < MAX_PROGS"
  shows "load_result L x"
proof (cases x)
  case (Pair ret L')
  then have r: "ret = 0 \<or> ret = - 1"
    and "load_frame L L' \<and> prog_fd L' = (prog_fd L)[prog_cnt L := fd] \<and> prog_cnt L' = Suc (prog_cnt L)"
    using assms(1) by (auto intro!: load_frameI)
  then have "load_frame L L'" "recorded fd L L'"
    using assms(2,3) by (simp_all add: recorded_def)
  then show ?thesis
    using r Pair by (auto simp: load_result_def)
qed

lemma load_and_attach_post:
  assumes "prog_cnt L \<le> MAX_PROGS"
  shows "post (load_result L) (load_and_attach fuel env event prog sz L)"
proof (cases "event_prog_type event")
  case (Some t)
  have go: "post (load_result L) (attach env event fd (L\<lparr>bpf_log_buf := b, calls := calls L @ cs,
      prog_fd := (prog_fd L)[prog_cnt L := fd], prog_cnt := Suc (prog_cnt L)\<rparr>))"
    if "\<not> fd < 0" "prog_cnt L \<noteq> MAX_PROGS" for fd b cs
    using that assms by (intro post_mono [OF attach_post] load_result_attached) auto
  have stop: "load_result L (- 1, L)" "load_result L (- 1, L\<lparr>bpf_log_buf := b, calls := calls L @ cs\<rparr>)"
    for b cs
    by (simp_all add: load_result_def load_frame_def)
  have "post (\<lambda>(fd, log, h). \<exists>cs. h = calls L @ cs)
      (bpf_load_program fuel env t prog (sx64 sz div 8) (license L) (kern_version L) True
         BPF_LOG_BUF_SIZE (calls L))"
    by (rule post_mono [OF bpf_load_program_made]) (auto simp: made_def)
  then show ?thesis
    using go stop by (auto simp: load_and_attach_def Some wp Let_def elim!: post_mono)
qed (simp add: load_and_attach_def load_result_def load_frame_def)

lemma load_and_attach_safe:
  assumes "patient n env" "n \<le> fuel" "loader_wf L" "event_name_ok event"
  shows "safe (\<lambda>_. True) (load_and_attach fuel env event prog sz L)"
proof -
  have "safe (\<lambda>_. True) (attach env event fd (L\<lparr>bpf_log_buf := b, calls := h,
      prog_fd := p, prog_cnt := prog_cnt L + 1\<rparr>))" if "prog_cnt L \<noteq> MAX_PROGS" for fd b h p
    using assms(3,4) that by (intro attach_safe) (auto simp: loader_wf_def)
  then show ?thesis
    using assms(3)
    by (auto simp: load_and_attach_def wp Let_def loader_wf_def split: option.splits
        intro!: safe_mono [OF bpf_load_program_safe [OF assms(1,2)]])
qed

lemma load_and_attach_wf:
  assumes "loader_wf L"
  shows "post (\<lambda>(ret, L'). loader_wf L') (load_and_attach fuel env event prog sz L)"
proof -
  have frame: "loader_wf L'" if "load_frame L L'" "prog_cnt L' = prog_cnt L" "prog_fd L' = prog_fd L" for L'
    using assms that by (simp add: loader_wf_def load_frame_def)
  have "loader_wf L'" if "load_frame L L'" "recorded fd L L'" for fd L'
    using assms that
    by (auto simp: loader_wf_def load_frame_def recorded_def nth_list_update less_Suc_eq)
  with frame show ?thesis
    using assms by (intro post_mono [OF load_and_attach_post]) (auto simp: loader_wf_def load_result_def)
qed

section \<open>Creating all maps\<close>

text \<open>The request made for a map definition.\<close>

definition def_request :: "bpf_map_data \<Rightarrow> int list \<Rightarrow> call" where
  "def_request m fds =
     (let d = md_def m;
          in_map = (m_type d = BPF_MAP_TYPE_ARRAY_OF_MAPS \<or> m_type d = BPF_MAP_TYPE_HASH_OF_MAPS) in
      map_request (m_type d) (md_name m) (m_key_size d)
        (if in_map then 4 else m_value_size d)
        (if in_map then word_of_int (fds ! unat (m_inner_map_idx d)) else 0)
        (m_max_entries d) (m_map_flags d)
        (if m_map_flags d AND BPF_F_NUMA_NODE \<noteq> 0 then m_numa_node d else - 1))"

definition inner_ok :: "bpf_map_data \<Rightarrow> bool" where
  "inner_ok m = (m_type (md_def m) = BPF_MAP_TYPE_ARRAY_OF_MAPS \<or>
     m_type (md_def m) = BPF_MAP_TYPE_HASH_OF_MAPS \<longrightarrow>
       unat (m_inner_map_idx (md_def m)) < MAX_MAPS)"

lemma create_map_eq:
  "length (map_fd L) = MAX_MAPS \<Longrightarrow>
   create_map env m L = (if inner_ok m
     then Inr (r_ret (env (calls L) (def_request m (map_fd L))),
               L\<lparr>calls := calls L @ [def_request m (map_fd L)]\<rparr>)
     else Inl Out_of_bounds)"
  by (simp add: create_map_def bpf_create_map_in_map_node_eq bpf_create_map_node_eq nth_res_def
      inner_ok_def def_request_def Let_def)

lemma create_map_post:
  "post (\<lambda>(fd, L'). \<exists>c. L' = L\<lparr>calls := calls L @ [c]\<rparr> \<and> fd = r_ret (env (calls L) c))
     (create_map env m L)"
  by (auto simp: create_map_def bpf_create_map_in_map_node_eq bpf_create_map_node_eq nth_res_def
      Let_def)

text \<open>Creating maps changes the map tables, the tail-call array and the calls made.\<close>

definition maps_frame :: "loader \<Rightarrow> loader \<Rightarrow> bool" where
  "maps_frame L L' =
     (license L' = license L \<and> kern_version L' = kern_version L \<and>
      processed_sec L' = processed_sec L \<and> bpf_log_buf L' = bpf_log_buf L \<and>
      prog_fd L' = prog_fd L \<and> prog_cnt L' = prog_cnt L \<and> event_fd L' = event_fd L \<and>
      map_data_count L' = map_data_count L \<and>
      length (map_fd L') = length (map_fd L) \<and> length (map_data L') = length (map_data L) \<and>
      prefix (calls L) (calls L'))"

lemma maps_frame_refl [simp, intro]: "maps_frame L L"
  by (simp add: maps_frame_def)

lemma maps_frame_trans: "maps_frame L M \<Longrightarrow> maps_frame M N \<Longrightarrow> maps_frame L N"
  by (auto simp: maps_frame_def)

lemma maps_frame_wf: "maps_frame L L' \<Longrightarrow> loader_wf L \<Longrightarrow> loader_wf L'"
  by (simp add: maps_frame_def loader_wf_def)

text \<open>Map \<open>i\<close> is set up: the two tables agree on its file descriptor.\<close>

definition fd_agrees :: "loader \<Rightarrow> nat \<Rightarrow> bool" where
  "fd_agrees L i = (i < length (map_data L) \<and> i < length (map_fd L) \<and>
     map_fd L ! i = md_fd (map_data L ! i))"

definition same_but :: "nat \<Rightarrow> loader \<Rightarrow> loader \<Rightarrow> bool" where
  "same_but i L L' = (\<forall>j. j \<noteq> i \<longrightarrow>
     map_fd L' ! j = map_fd L ! j \<and> map_data L' ! j = map_data L ! j)"

definition same_def :: "bpf_map_data \<Rightarrow> bpf_map_data \<Rightarrow> bool" where
  "same_def m m' = (m'\<lparr>md_fd := 0\<rparr> = m\<lparr>md_fd := 0\<rparr>)"

abbreviation fixed :: "fixup_map_cb option \<Rightarrow> bpf_map_data \<Rightarrow> nat \<Rightarrow> bpf_map_data" where
  "fixed fixup_map m i \<equiv> (case fixup_map of None \<Rightarrow> m | Some f \<Rightarrow> f m i)"

definition map_loaded :: "fixup_map_cb option \<Rightarrow> nat \<Rightarrow> loader \<Rightarrow> bool \<times> loader \<Rightarrow> bool" where
  "map_loaded fx i L = (\<lambda>(stop, L'). maps_frame L L' \<and> same_but i L L' \<and>
      same_def (fixed fx (map_data L ! i) i) (map_data L' ! i) \<and>
      (\<not> stop \<longrightarrow> fd_agrees L' i \<and> (fx = None \<longrightarrow> 0 \<le> map_fd L' ! i) \<and>
         prog_array_fd L' =
           (if m_type (md_def (map_data L' ! i)) = BPF_MAP_TYPE_PROG_ARRAY \<and>
               (fx = None \<or> md_fd (fixed fx (map_data L ! i) i) = - 1)
            then map_fd L' ! i else prog_array_fd L)))"

lemma load_map_post: "post (map_loaded fx i L) (load_map env fx i L)"
proof (rule postI)
  fix r assume r: "load_map env fx i L = Inr r"
  define m where "m = fixed fx (map_data L ! i) i"
  let ?L = "L\<lparr>map_data := (map_data L)[i := m]\<rparr>"
  from r have i: "i < length (map_data L)"
    by (auto simp: load_map_def bind_res_eq_Inr nth_res_def split: if_splits)
  show "map_loaded fx i L r"
  proof (cases "fx \<noteq> None \<and> md_fd m \<noteq> - 1")
    case True
    then show ?thesis
      using r i unfolding load_map_def map_loaded_def m_def [symmetric]
      by (auto simp: Let_def nth_res_def upd_res_def m_def [symmetric] maps_frame_def same_but_def
          same_def_def fd_agrees_def split: if_splits)
  next
    case False
    with r i obtain fd M where c: "create_map env m ?L = Inr (fd, M)"
      by (auto simp: load_map_def Let_def nth_res_def m_def bind_res_eq_Inr)
    obtain call where M: "M = ?L\<lparr>calls := calls L @ [call]\<rparr>"
      using postD [OF create_map_post c] by auto
    from r i c False M show ?thesis
      unfolding load_map_def map_loaded_def m_def [symmetric]
      by (auto simp: Let_def nth_res_def upd_res_def m_def [symmetric] maps_frame_def same_but_def
          same_def_def fd_agrees_def split: if_splits)
  qed
qed

interpretation maps_loop: c_loop
  "\<lambda>i L. bind_res (load_map env fx i L) (\<lambda>(stop, L). Inr (if stop then Inl (1, L) else Inr L))"
  "load_maps_from env fx" "\<lambda>L. (0, L)" for env fx
  by unfold_locales (auto simp: bind_res_def split: sum.splits)

lemma load_maps_from_frame:
  "post (\<lambda>(ret, L'). maps_frame L L' \<and> (ret = 0 \<or> ret = 1)) (load_maps_from env fx is L)"
proof (rule maps_loop.loop_post [where I = "maps_frame L"])
  fix i M assume "maps_frame L M"
  then show "post (case_sum (\<lambda>(ret, L'). maps_frame L L' \<and> (ret = 0 \<or> ret = 1)) (maps_frame L))
      (bind_res (load_map env fx i M) (\<lambda>(stop, L). Inr (if stop then Inl (1, L) else Inr L)))"
    using load_map_post [of fx i M env]
    by (auto simp: wp map_loaded_def elim!: post_mono intro: maps_frame_trans)
qed auto

text \<open>
  The invariant of the loop without a fixup function, when the maps from \<open>k\<close> on are still to be
  created: the earlier ones are set up and their definitions are untouched.
\<close>

definition maps_inv :: "loader \<Rightarrow> nat \<Rightarrow> loader \<Rightarrow> bool" where
  "maps_inv L k M = (maps_frame L M \<and>
     (\<forall>j < k. fd_agrees M j \<and> 0 \<le> map_fd M ! j) \<and>
     (\<forall>j. same_def (map_data L ! j) (map_data M ! j)) \<and>
     (\<forall>j < k. m_type (md_def (map_data M ! j)) = BPF_MAP_TYPE_PROG_ARRAY \<longrightarrow>
        (\<exists>i < k. j \<le> i \<and> m_type (md_def (map_data M ! i)) = BPF_MAP_TYPE_PROG_ARRAY \<and>
           prog_array_fd M = map_fd M ! i)))"

lemma same_def_refl [simp]: "same_def m m"
  by (simp add: same_def_def)

lemma maps_inv_step:
  assumes inv: "maps_inv L k M" and step: "map_loaded None k M (False, N)"
  shows "maps_inv L (Suc k) N"
proof -
  have *: "map_fd N ! j = map_fd M ! j" "map_data N ! j = map_data M ! j" if "j < k" for j
    using step that by (auto simp: map_loaded_def same_but_def)
  have len: "length (map_data N) = length (map_data M)" "length (map_fd N) = length (map_fd M)"
    using step by (auto simp: map_loaded_def maps_frame_def)
  have frame: "maps_frame L N"
    using inv step by (auto simp: maps_inv_def map_loaded_def intro: maps_frame_trans)
  have fds: "fd_agrees N j \<and> 0 \<le> map_fd N ! j" if "j < Suc k" for j
  proof (cases "j = k")
    case True
    then show ?thesis
      using step by (simp add: map_loaded_def)
  next
    case False
    then have "j < k" "fd_agrees M j \<and> 0 \<le> map_fd M ! j"
      using that inv by (auto simp: maps_inv_def)
    then show ?thesis
      using * [of j] len by (simp add: fd_agrees_def)
  qed
  have defs: "same_def (map_data L ! j) (map_data N ! j)" for j
    using inv step by (cases "j = k") (auto simp: maps_inv_def map_loaded_def same_but_def same_def_def)
  have arr: "\<exists>i < Suc k. j \<le> i \<and> m_type (md_def (map_data N ! i)) = BPF_MAP_TYPE_PROG_ARRAY \<and>
      prog_array_fd N = map_fd N ! i"
    if j: "j < Suc k" "m_type (md_def (map_data N ! j)) = BPF_MAP_TYPE_PROG_ARRAY" for j
  proof (cases "m_type (md_def (map_data N ! k)) = BPF_MAP_TYPE_PROG_ARRAY")
    case True
    then show ?thesis
      using step j(1) by (intro exI [of _ k]) (auto simp: map_loaded_def)
  next
    case False
    then have "j < k" "prog_array_fd N = prog_array_fd M"
      using step j by (auto simp: map_loaded_def less_Suc_eq)
    then obtain i where "i < k" "j \<le> i" "m_type (md_def (map_data M ! i)) = BPF_MAP_TYPE_PROG_ARRAY"
      "prog_array_fd M = map_fd M ! i"
      using inv * j(2) unfolding maps_inv_def by metis
    then show ?thesis
      using * \<open>prog_array_fd N = prog_array_fd M\<close> by (intro exI [of _ i]) auto
  qed
  show ?thesis
    using frame fds defs arr by (simp add: maps_inv_def)
qed

lemma load_maps_inv:
  "post (\<lambda>(ret, L'). ret = 0 \<longrightarrow> maps_inv L n L') (load_maps env n None L)"
  unfolding load_maps_def
proof (rule maps_loop.loop_post_suffix
    [where I = "\<lambda>is M. \<exists>k \<le> n. is = [k..<n] \<and> maps_inv L k M"])
  fix i js M
  assume "suffix (i # js) [0..<n]" "\<exists>k \<le> n. i # js = [k..<n] \<and> maps_inv L k M"
  then obtain k where k: "i # js = [k..<n]" "maps_inv L k M"
    by blast
  then have "i = k" "js = [Suc k..<n]" "Suc k \<le> n"
    by (cases "k < n"; simp add: upt_conv_Cons)+
  then show "post (case_sum (\<lambda>(ret, L'). ret = (0 :: int) \<longrightarrow> maps_inv L n L')
        (\<lambda>M. \<exists>k \<le> n. js = [k..<n] \<and> maps_inv L k M))
      (bind_res (load_map env None i M) (\<lambda>(stop, L). Inr (if stop then Inl (1, L) else Inr L)))"
    using load_map_post [of None i M env] maps_inv_step [OF k(2)]
    by (auto simp: wp elim!: post_mono intro!: exI [of _ "Suc k"])
next
  show "\<exists>k \<le> n. [0..<n] = [k..<n] \<and> maps_inv L k L"
    by (intro exI [of _ 0]) (simp add: maps_inv_def)
next
  fix M assume "\<exists>k \<le> n. [] = [k..<n] \<and> maps_inv L k M"
  then obtain k where "k \<le> n" "[k..<n] = []" "maps_inv L k M"
    by metis
  then have "maps_inv L n M"
    by auto
  then show "case (0, M) of (ret, L') \<Rightarrow> ret = (0 :: int) \<longrightarrow> maps_inv L n L'"
    by simp
qed

lemma load_map_safe:
  assumes "loader_wf L" "i < MAX_MAPS" "inner_ok (fixed fx (map_data L ! i) i)"
  shows "safe (map_loaded fx i L) (load_map env fx i L)"
proof -
  have "safe (\<lambda>_. True) (load_map env fx i L)"
    using assms by (auto simp: load_map_def loader_wf_def wp Let_def create_map_eq)
  then show ?thesis
    by (rule safe_if_post) (rule load_map_post)
qed

lemma load_maps_safe:
  assumes "loader_wf L" "n \<le> MAX_MAPS" "\<forall>i < n. inner_ok (fixed fx (map_data L ! i) i)"
  shows "safe (\<lambda>(ret, L'). maps_frame L L' \<and> (ret = 0 \<or> ret = 1)) (load_maps env n fx L)"
proof -
  let ?I = "\<lambda>is M. \<exists>k \<le> n. is = [k..<n] \<and> maps_frame L M \<and> (\<forall>j \<ge> k. map_data M ! j = map_data L ! j)"
  have "safe (\<lambda>_. True) (load_maps_from env fx [0..<n] L)"
  proof (rule maps_loop.loop_safe_suffix [where I = ?I])
    fix i js M assume "?I (i # js) M"
    then obtain k where k: "i # js = [k..<n]" "maps_frame L M" "\<forall>j \<ge> k. map_data M ! j = map_data L ! j"
      by blast
    then have *: "i = k" "js = [Suc k..<n]" "Suc k \<le> n"
      by (cases "k < n"; simp add: upt_conv_Cons)+
    have eq: "map_data M ! i = map_data L ! i"
      using k(3) * by simp
    have "inner_ok (fixed fx (map_data M ! i) i)"
      unfolding eq using assms(3) * by simp
    then have "safe (map_loaded fx i M) (load_map env fx i M)"
      using k(2) * assms by (intro load_map_safe) (auto intro: maps_frame_wf)
    moreover have "?I js N" if "map_loaded fx i M (stop, N)" for stop N
      using that k * by (intro exI [of _ "Suc k"])
        (auto simp: map_loaded_def same_but_def intro: maps_frame_trans)
    ultimately show "safe (case_sum (\<lambda>_. True) (?I js))
        (bind_res (load_map env fx i M) (\<lambda>(stop, L). Inr (if stop then Inl (1, L) else Inr L)))"
      unfolding safe_bind by (auto elim!: safe_mono)
  next
    show "?I [0..<n] L"
      by (intro exI [of _ 0]) simp
  qed simp
  then show ?thesis
    unfolding load_maps_def by (rule safe_if_post) (rule load_maps_from_frame)
qed

end
