(* ===== verification/Load_File.thy ===== *)
theory Load_File
  imports Bpf_Load
begin

text \<open>
  \<open>do_load_bpf_file\<close> of \<^verbatim>\<open>src/common/bpf_load.c\<close>, one definition per loop over the sections of the
  object file, the entry points \<open>load_bpf_file\<close> and \<open>load_bpf_file_fixup_map\<close>, and
  \<open>read_trace_pipe\<close>.
\<close>

section \<open>First pass: license, version, maps, symbols\<close>

record scan =
  s_maps_shndx :: int
  s_data_maps :: "elf_data option"
  s_strtabidx :: nat
  s_symbols :: "elf_data option"

definition scan_init :: scan where
  "scan_init = \<lparr>s_maps_shndx = - 1, s_data_maps = None, s_strtabidx = unat (- 1 :: u64), s_symbols = None\<rparr>"

definition mark_sec :: "nat \<Rightarrow> loader \<Rightarrow> loader res" where
  "mark_sec i L = bind_res (upd_res (processed_sec L) i True) (\<lambda>ps. Inr (L\<lparr>processed_sec := ps\<rparr>))"

text \<open>
  One round of the first loop; \<open>None\<close> stands for the early \<open>return 1\<close>.  Copying the license
  has no bound but the size of the section.
\<close>

definition scan_sec ::
  "elf \<Rightarrow> (nat \<Rightarrow> u8 list) \<Rightarrow> nat \<Rightarrow> scan \<Rightarrow> loader \<Rightarrow> (scan option \<times> loader) res" where
  "scan_sec elf bufs i S L =
     (case get_sec elf i of
        Inl _ \<Rightarrow> Inr (Some S, L)
      | Inr (shname, shdr, data) \<Rightarrow>
        if shname = ''license'' then
          bind_res (mark_sec i L) (\<lambda>L.
          bind_res (slice_res (bufs (d_buf data)) 0 (d_size data)) (\<lambda>bs.
          if length (license L) < d_size data then Inl Buffer_overflow
          else Inr (Some S, L\<lparr>license := bs @ drop (d_size data) (license L)\<rparr>)))
        else if shname = ''version'' then
          bind_res (mark_sec i L) (\<lambda>L.
          if d_size data \<noteq> 4 then Inr (None, L)
          else bind_res (slice_res (bufs (d_buf data)) 0 4) (\<lambda>bs.
            Inr (Some S, L\<lparr>kern_version := bytes_word bs\<rparr>)))
        else if shname = ''maps'' then
          Inr (Some (S\<lparr>s_maps_shndx := int i, s_data_maps := Some data\<rparr>),
               L\<lparr>map_data := map (\<lambda>m. m\<lparr>md_fd := - 1\<rparr>) (map_data L)\<rparr>)
        else if sh_type shdr = SHT_SYMTAB then
          Inr (Some (S\<lparr>s_strtabidx := unat (sx64 (sh_link shdr)), s_symbols := Some data\<rparr>), L)
        else Inr (Some S, L))"

fun scan_secs ::
  "elf \<Rightarrow> (nat \<Rightarrow> u8 list) \<Rightarrow> nat list \<Rightarrow> scan \<Rightarrow> loader \<Rightarrow> (scan option \<times> loader) res" where
  "scan_secs elf bufs [] S L = Inr (Some S, L)"
| "scan_secs elf bufs (i # is) S L =
     bind_res (scan_sec elf bufs i S L) (\<lambda>(S, L).
     case S of None \<Rightarrow> Inr (None, L) | Some S \<Rightarrow> scan_secs elf bufs is S L)"

section \<open>The maps\<close>

text \<open>
  Reading the definitions and creating the maps, when the file has a maps section.  The number
  of maps is \<open>None\<close> when the code jumps to its end.
\<close>

definition setup_maps ::
  "env \<Rightarrow> elf \<Rightarrow> (nat \<Rightarrow> u8 list) \<Rightarrow> fixup_map_cb option \<Rightarrow> scan \<Rightarrow> loader \<Rightarrow>
   (nat option \<times> loader) res" where
  "setup_maps env elf bufs fixup_map S L =
     (if s_data_maps S = None then Inr (Some 0, L)
      else bind_res (load_elf_maps_section env (map_data L) (s_maps_shndx S) elf bufs (s_symbols S)
                       (s_strtabidx S) (calls L)) (\<lambda>(nr_maps, maps, h).
        let L = L\<lparr>map_data := maps, calls := h\<rparr> in
        if nr_maps < 0 then Inr (None, L)
        else bind_res (load_maps env (nat nr_maps) fixup_map L) (\<lambda>(ret, L).
          if ret \<noteq> 0 then Inr (None, L)
          else bind_res (mark_sec (nat (s_maps_shndx S)) (L\<lparr>map_data_count := nat nr_maps\<rparr>)) (\<lambda>L.
            Inr (Some (nat nr_maps), L)))))"

section \<open>Second pass: relocations\<close>

text \<open>
  A section whose relocations cannot all be applied is left as far as it got; the code does not
  stop.
\<close>

definition relo_sec ::
  "elf \<Rightarrow> elf_data \<Rightarrow> nat \<Rightarrow> nat \<Rightarrow> (nat \<Rightarrow> u8 list) \<times> loader \<Rightarrow>
   ((nat \<Rightarrow> u8 list) \<times> loader) res" where
  "relo_sec elf symbols nr_maps i BL =
     (let (bufs, L) = BL in
      bind_res (nth_res (processed_sec L) i) (\<lambda>processed.
      if processed then Inr (bufs, L)
      else case get_sec elf i of
          Inl _ \<Rightarrow> Inr (bufs, L)
        | Inr (shname, shdr, data) \<Rightarrow>
          if sh_type shdr \<noteq> SHT_REL then Inr (bufs, L)
          else case get_sec elf (unat (sx64 (sh_info shdr))) of
              Inl _ \<Rightarrow> Inr (bufs, L)
            | Inr (shname_prog, shdr_prog, data_prog) \<Rightarrow>
              if sh_type shdr_prog \<noteq> SHT_PROGBITS \<or> sh_flags shdr_prog AND SHF_EXECINSTR = 0
              then Inr (bufs, L)
              else bind_res (mark_sec i L) (\<lambda>L.
                bind_res (parse_relo_and_apply elf data symbols shdr (bufs (d_buf data_prog))
                            (map_data L) nr_maps) (\<lambda>(_, insns).
                Inr (bufs(d_buf data_prog := insns), L)))))"

fun relo_secs ::
  "elf \<Rightarrow> elf_data \<Rightarrow> nat \<Rightarrow> nat list \<Rightarrow> (nat \<Rightarrow> u8 list) \<times> loader \<Rightarrow>
   ((nat \<Rightarrow> u8 list) \<times> loader) res" where
  "relo_secs elf symbols nr_maps [] BL = Inr BL"
| "relo_secs elf symbols nr_maps (i # is) BL =
     bind_res (relo_sec elf symbols nr_maps i BL) (relo_secs elf symbols nr_maps is)"

section \<open>Third pass: programs\<close>

text \<open>
  \<open>memcmp\<close> may read all the bytes it is asked to compare, whether or not a difference comes
  first; with fewer bytes than that left in the string table it reads past the end of the table.
  No byte of a prefix is zero, so the bytes after the end of a name do not matter to the result.
\<close>

definition memcmp_eq :: "nat \<Rightarrow> string \<Rightarrow> string \<Rightarrow> bool res" where
  "memcmp_eq room shname p =
     (if room < length p then Inl Out_of_bounds else Inr (strncmp_eq shname p (length p)))"

primrec memcmp_any :: "nat \<Rightarrow> string \<Rightarrow> string list \<Rightarrow> bool res" where
  "memcmp_any room shname [] = Inr False"
| "memcmp_any room shname (p # ps) =
     bind_res (memcmp_eq room shname p) (\<lambda>eq. if eq then Inr True else memcmp_any room shname ps)"

definition is_prog_sec :: "nat \<Rightarrow> string \<Rightarrow> bool res" where
  "is_prog_sec room shname = memcmp_any room shname
     [''kprobe/'', ''kretprobe/'', ''tracepoint/'', ''raw_tracepoint/'', ''xdp'',
      ''perf_event'', ''socket'', ''cgroup/'', ''sockops'', ''sk_skb'', ''sk_msg'']"

text \<open>The loop carries the value to return; it ends at the first failure.\<close>

fun load_progs ::
  "nat \<Rightarrow> env \<Rightarrow> elf \<Rightarrow> (nat \<Rightarrow> u8 list) \<Rightarrow> nat list \<Rightarrow> int \<Rightarrow> loader \<Rightarrow> (int \<times> loader) res" where
  "load_progs fuel env elf bufs [] ret L = Inr (ret, L)"
| "load_progs fuel env elf bufs (i # is) ret L =
     bind_res (nth_res (processed_sec L) i) (\<lambda>processed.
     if processed then load_progs fuel env elf bufs is ret L
     else case get_sec elf i of
         Inl _ \<Rightarrow> load_progs fuel env elf bufs is ret L
       | Inr (shname, shdr, data) \<Rightarrow>
         bind_res (is_prog_sec (strroom elf (e_shstrndx elf) (sh_name shdr)) shname) (\<lambda>prog.
         if prog then
           bind_res (load_and_attach fuel env shname (bufs (d_buf data))
                       (word_of_nat (d_size data)) L) (\<lambda>(ret, L).
           if ret \<noteq> 0 then Inr (ret, L) else load_progs fuel env elf bufs is ret L)
         else load_progs fuel env elf bufs is ret L))"

section \<open>Loading a file\<close>

text \<open>The part after the first pass, up to the label \<open>done\<close>.\<close>

definition load_scanned ::
  "nat \<Rightarrow> env \<Rightarrow> elf \<Rightarrow> fixup_map_cb option \<Rightarrow> scan \<Rightarrow> loader \<Rightarrow> (int \<times> loader) res" where
  "load_scanned fuel env elf fixup_map S L =
     (case s_symbols S of
        None \<Rightarrow> Inr (1, L)
      | Some syms \<Rightarrow>
        bind_res (setup_maps env elf (file_bufs elf) fixup_map S L) (\<lambda>(nr, L).
        case nr of None \<Rightarrow> Inr (1, L)
        | Some nr_maps \<Rightarrow>
          let secs = [1..<e_shnum elf] in
          bind_res (relo_secs elf syms nr_maps secs (file_bufs elf, L)) (\<lambda>(bufs, L).
          load_progs fuel env elf bufs secs 1 L)))"

definition reset_globals :: "loader \<Rightarrow> loader" where
  "reset_globals L = L\<lparr>kern_version := 0, license := replicate 128 0,
     processed_sec := replicate 128 False\<rparr>"

definition do_load_bpf_file ::
  "nat \<Rightarrow> libelf \<Rightarrow> env \<Rightarrow> string \<Rightarrow> fixup_map_cb option \<Rightarrow> loader \<Rightarrow> (int \<times> loader) res" where
  "do_load_bpf_file fuel lib env path fixup_map L =
     (let L = reset_globals L in
      if \<not> elf_version_ok lib then Inr (1, L)
      else
        let (r, L) = do_call env (Open path [O_RDONLY]) L; fd = r_ret r in
        if fd < 0 then Inr (1, L)
        else case elf_begin lib fd of None \<Rightarrow> Inr (1, L)
        | Some elf \<Rightarrow>
          if \<not> ehdr_ok elf then Inr (1, L)
          else
            let (_, L) = write_kprobe_events env (Some []) L in
            bind_res (scan_secs elf (file_bufs elf) [1..<e_shnum elf] scan_init L) (\<lambda>(S, L).
            case S of None \<Rightarrow> Inr (1, L)
            | Some S \<Rightarrow>
              bind_res (load_scanned fuel env elf fixup_map S L) (\<lambda>(ret, L).
              let (_, L) = do_call env (Close fd) L in Inr (ret, L))))"

definition load_bpf_file :: "nat \<Rightarrow> libelf \<Rightarrow> env \<Rightarrow> string \<Rightarrow> loader \<Rightarrow> (int \<times> loader) res" where
  "load_bpf_file fuel lib env path L = do_load_bpf_file fuel lib env path None L"

definition load_bpf_file_fixup_map ::
  "nat \<Rightarrow> libelf \<Rightarrow> env \<Rightarrow> string \<Rightarrow> fixup_map_cb \<Rightarrow> loader \<Rightarrow> (int \<times> loader) res" where
  "load_bpf_file_fixup_map fuel lib env path fixup_map L =
     do_load_bpf_file fuel lib env path (Some fixup_map) L"

section \<open>The trace pipe\<close>

text \<open>
  \<open>read_trace_pipe\<close> never ends once the pipe is open; \<open>n\<close> is the number of rounds looked at.  A
  round prints what was read.
\<close>

definition trace_pipe_round :: "env \<Rightarrow> int \<Rightarrow> loader \<Rightarrow> loader" where
  "trace_pipe_round env trace_fd L =
     (let (r, L) = do_call env (Read trace_fd 4095) L in
      if 0 < r_ret r
      then snd (do_call env (Puts (string_of_bytes (take (nat (r_ret r)) (r_data r)))) L)
      else L)"

definition read_trace_pipe :: "nat \<Rightarrow> env \<Rightarrow> loader \<Rightarrow> loader" where
  "read_trace_pipe n env L =
     (let (r, L) = do_call env (Open (DEBUGFS @ ''trace_pipe'') [O_RDONLY]) L in
      if r_ret r < 0 then L else (trace_pipe_round env (r_ret r) ^^ n) L)"

section \<open>Names of program sections\<close>

text \<open>The names that the third pass looks for, and the bytes it reads to decide.\<close>

definition prog_name :: "string \<Rightarrow> bool" where
  "prog_name shname =
     list_ex (\<lambda>p. strncmp_eq shname p (length p))
       [''kprobe/'', ''kretprobe/'', ''tracepoint/'', ''raw_tracepoint/'', ''xdp'',
        ''perf_event'', ''socket'', ''cgroup/'', ''sockops'', ''sk_skb'', ''sk_msg'']"

definition name_reads :: "string \<Rightarrow> nat" where
  "name_reads shname =
     (if strncmp_eq shname ''kprobe/'' 7 then 7 else if strncmp_eq shname ''kretprobe/'' 10 then 10
      else if strncmp_eq shname ''tracepoint/'' 11 then 11 else 15)"

lemma is_prog_sec_eq:
  "is_prog_sec room shname =
     (if name_reads shname \<le> room then Inr (prog_name shname) else Inl Out_of_bounds)"
  by (simp add: is_prog_sec_def memcmp_eq_def prog_name_def name_reads_def eval_nat_numeral)

lemma is_prog_sec_wp [wp]:
  "post Q (is_prog_sec room shname) = (name_reads shname \<le> room \<longrightarrow> Q (prog_name shname))"
  "safe Q (is_prog_sec room shname) = (name_reads shname \<le> room \<and> Q (prog_name shname))"
  by (simp_all add: is_prog_sec_eq)

section \<open>What the first pass finds\<close>

text \<open>
  The part of the first pass that only looks at the file, as a fold: which section holds the
  maps, which the symbols.
\<close>

definition scan_step :: "elf \<Rightarrow> nat \<Rightarrow> scan \<Rightarrow> scan" where
  "scan_step elf i S =
     (case get_sec elf i of
        Inl _ \<Rightarrow> S
      | Inr (shname, shdr, data) \<Rightarrow>
        if shname = ''license'' \<or> shname = ''version'' then S
        else if shname = ''maps'' then S\<lparr>s_maps_shndx := int i, s_data_maps := Some data\<rparr>
        else if sh_type shdr = SHT_SYMTAB
        then S\<lparr>s_strtabidx := unat (sx64 (sh_link shdr)), s_symbols := Some data\<rparr>
        else S)"

abbreviation secs :: "elf \<Rightarrow> nat list" where
  "secs elf \<equiv> [1..<e_shnum elf]"

definition scan_of :: "elf \<Rightarrow> scan" where
  "scan_of elf = fold (scan_step elf) (secs elf) scan_init"

text \<open>The first pass changes the license, the version, the marks and the map file descriptors.\<close>

definition scan_frame :: "loader \<Rightarrow> loader \<Rightarrow> bool" where
  "scan_frame L L' =
     (bpf_log_buf L' = bpf_log_buf L \<and> map_fd L' = map_fd L \<and> prog_fd L' = prog_fd L \<and>
      event_fd L' = event_fd L \<and> prog_cnt L' = prog_cnt L \<and> prog_array_fd L' = prog_array_fd L \<and>
      map_data_count L' = map_data_count L \<and> calls L' = calls L \<and>
      length (license L') = length (license L) \<and>
      length (processed_sec L') = length (processed_sec L) \<and>
      length (map_data L') = length (map_data L))"

lemma scan_frame_refl [simp, intro]: "scan_frame L L"
  by (simp add: scan_frame_def)

lemma scan_frame_trans: "scan_frame L M \<Longrightarrow> scan_frame M N \<Longrightarrow> scan_frame L N"
  by (simp add: scan_frame_def)

lemma scan_frame_wf: "scan_frame L L' \<Longrightarrow> loader_wf L \<Longrightarrow> loader_wf L'"
  by (simp add: scan_frame_def loader_wf_def)

lemma mark_sec_eq:
  "mark_sec i L = (if i < length (processed_sec L)
     then Inr (L\<lparr>processed_sec := (processed_sec L)[i := True]\<rparr>) else Inl Out_of_bounds)"
  by (simp add: mark_sec_def upd_res_def)

lemma scan_sec_post:
  "post (\<lambda>(S', L'). scan_frame L L' \<and> (\<forall>s. S' = Some s \<longrightarrow> s = scan_step elf i S))
     (scan_sec elf bufs i S L)"
  by (auto simp: scan_sec_def scan_step_def scan_frame_def mark_sec_eq slice_res_def
      split: sum.splits prod.splits)

text \<open>
  Sections the loader can read: the license fits, the data is as long as it says, and the string
  table does not end before the bytes of the name that are compared.
\<close>

definition sec_ok :: "elf \<Rightarrow> nat \<Rightarrow> bool" where
  "sec_ok elf i = (case get_sec elf i of
      Inl _ \<Rightarrow> True
    | Inr (shname, shdr, data) \<Rightarrow>
        d_size data \<le> length (file_bufs elf (d_buf data)) \<and>
        (shname = ''license'' \<longrightarrow> d_size data \<le> 128) \<and>
        name_reads shname \<le> strroom elf (e_shstrndx elf) (sh_name shdr) \<and>
        (prog_name shname \<longrightarrow> event_name_ok shname))"

lemma scan_sec_safe:
  assumes "sec_ok elf i" "i < 128" "loader_wf L"
  shows "safe (\<lambda>_. True) (scan_sec elf (file_bufs elf) i S L)"
  using assms
  by (auto simp: scan_sec_def sec_ok_def mark_sec_eq slice_res_def loader_wf_def
      split: sum.splits prod.splits)

interpretation scan_loop: c_loop
  "\<lambda>i (S, L). bind_res (scan_sec elf bufs i S L)
     (\<lambda>(S, L). Inr (case S of None \<Rightarrow> Inl (None, L) | Some S \<Rightarrow> Inr (S, L)))"
  "\<lambda>is (S, L). scan_secs elf bufs is S L" "\<lambda>(S, L). (Some S, L)" for elf bufs
  by unfold_locales (auto simp: bind_res_def split: sum.splits option.splits)

lemma scan_secs_post:
  "post (\<lambda>(S', L'). scan_frame L L' \<and> (\<forall>s. S' = Some s \<longrightarrow> s = fold (scan_step elf) is S))
     (scan_secs elf bufs is S L)"
proof (induction "is" arbitrary: S L)
  case (Cons i js)
  have "post (\<lambda>(S', L'). scan_frame L L' \<and> (\<forall>s. S' = Some s \<longrightarrow> s = fold (scan_step elf) (i # js) S))
      (scan_secs elf bufs js (scan_step elf i S) M)" if "scan_frame L M" for M
    using that by (intro post_mono [OF Cons.IH]) (auto intro: scan_frame_trans)
  then show ?case
    using scan_sec_post [of L elf i S bufs]
    by (auto simp: wp split: option.splits elim!: post_mono)
qed simp

lemma scan_secs_safe:
  assumes "list_all (sec_ok elf) is" "\<forall>i \<in> set is. i < 128" "loader_wf L"
  shows "safe (\<lambda>(S', L'). scan_frame L L' \<and> (\<forall>s. S' = Some s \<longrightarrow> s = fold (scan_step elf) is S))
     (scan_secs elf (file_bufs elf) is S L)"
proof -
  have "safe (\<lambda>_. True) (case (S, L) of (S, L) \<Rightarrow> scan_secs elf (file_bufs elf) is S L)"
  proof (rule scan_loop.loop_safe [where I = "\<lambda>(S, M). loader_wf M"])
    fix i and s :: "scan \<times> loader"
    assume i: "i \<in> set is" and "case s of (S, M) \<Rightarrow> loader_wf M"
    then obtain S M where s: "s = (S, M)" "loader_wf M"
      by (cases s) auto
    have "safe (\<lambda>_. True) (scan_sec elf (file_bufs elf) i S M)"
      using assms i s by (intro scan_sec_safe) (auto simp: list_all_iff)
    from safe_conj_post [OF this scan_sec_post]
    show "safe (case_sum (\<lambda>_. True) (\<lambda>(S, M). loader_wf M)) (case s of (S, L) \<Rightarrow>
        bind_res (scan_sec elf (file_bufs elf) i S L)
          (\<lambda>(S, L). Inr (case S of None \<Rightarrow> Inl (None, L) | Some S \<Rightarrow> Inr (S, L))))"
      using s by (auto simp: wp elim!: safe_mono split: option.splits intro: scan_frame_wf)
  qed (use assms in auto)
  then show ?thesis
    by (simp add: safe_if_post scan_secs_post)
qed

section \<open>The maps of a file\<close>

lemma get_sec_Inr:
  "get_sec elf i = Inr (n, shdr, data) \<Longrightarrow>
     \<exists>scn. getscn elf i = Some scn \<and> getdata elf scn None = Some data"
  by (auto simp: get_sec_def split: option.splits if_splits)

lemma scan_of_maps:
  "s_data_maps (scan_of elf) = Some data \<Longrightarrow>
     \<exists>i \<in> set (secs elf). s_maps_shndx (scan_of elf) = int i \<and>
       (\<exists>scn. getscn elf i = Some scn \<and> getdata elf scn None = Some data)"
  unfolding scan_of_def
  by (rule fold_invariant [where Q = "\<lambda>i. i \<in> set (secs elf)" and P = "\<lambda>S. \<forall>data.
        s_data_maps S = Some data \<longrightarrow> (\<exists>i \<in> set (secs elf). s_maps_shndx S = int i \<and>
          (\<exists>scn. getscn elf i = Some scn \<and> getdata elf scn None = Some data))", THEN spec, THEN mp])
    (auto simp: scan_init_def scan_step_def dest: get_sec_Inr split: sum.splits if_splits)

text \<open>
  A maps section the loader can read: between one and 32 map symbols, definitions inside the
  section, and inner maps inside the table.
\<close>

definition maps_ok :: "elf \<Rightarrow> scan \<Rightarrow> bool" where
  "maps_ok elf S =
     (case (s_data_maps S, s_symbols S) of
        (Some data, Some symbols) \<Rightarrow>
          (let syms = map_syms elf symbols (nat (s_maps_shndx S)) [0..<d_size symbols div sizeof_sym];
               n = d_size data div length syms; buf = file_bufs elf (d_buf data) in
           syms \<noteq> [] \<and> length syms \<le> MAX_MAPS \<and> n < 2 ^ 31 \<and>
           defs_in_bounds elf (s_strtabidx S) buf n syms \<and>
           list_all (\<lambda>s. inner_ok (map_entry elf (s_strtabidx S) buf (copy_size n) map_data_zero s)) syms)
      | _ \<Rightarrow> True)"

definition fixup_ok :: "fixup_map_cb option \<Rightarrow> bool" where
  "fixup_ok fx = (case fx of None \<Rightarrow> True | Some f \<Rightarrow> \<forall>m i. inner_ok m \<longrightarrow> inner_ok (f m i))"

lemma inner_ok_map_entry:
  "inner_ok (map_entry elf t buf n m s) = inner_ok (map_entry elf t buf n m' s)"
  by (simp add: inner_ok_def map_entry_def)

lemma setup_maps_safe:
  assumes "malloc_ok env" "maps_ok elf S" "S = scan_of elf" "e_shnum elf \<le> 128"
    and "s_symbols S = Some symbols" "loader_wf L" "fixup_ok fx"
  shows "safe (\<lambda>(nr, L'). loader_wf L') (setup_maps env elf (file_bufs elf) fx S L)"
proof (cases "s_data_maps S")
  case (Some data)
  obtain i scn where i: "i < 128" "s_maps_shndx S = int i" "getscn elf i = Some scn"
    "getdata elf scn None = Some data"
    using scan_of_maps [of elf data] Some assms(3,4) by auto
  define syms where "syms = map_syms elf symbols i [0..<d_size symbols div sizeof_sym]"
  define n where "n = d_size data div length syms"
  let ?buf = "file_bufs elf (d_buf data)"
  have ok: "syms \<noteq> []" "length syms \<le> MAX_MAPS" "n < 2 ^ 31"
      "defs_in_bounds elf (s_strtabidx S) ?buf n syms"
    and inner: "\<forall>s \<in> set syms. inner_ok (map_entry elf (s_strtabidx S) ?buf (copy_size n) m s)" for m
    using assms(2,5) Some i inner_ok_map_entry [of elf "s_strtabidx S" ?buf "copy_size n" m _ map_data_zero]
    by (auto simp: maps_ok_def syms_def n_def Let_def list_all_iff)
  have secs: "safe (\<lambda>(ret, maps', h'). length maps' = length (map_data L) \<and> made malloc_call (calls L) h' \<and>
      (ret = - EFBIG \<or> ret = int (length syms) \<and>
       copied elf (s_strtabidx S) ?buf (copy_size n) 0 (sort_key st_value syms) (map_data L) maps'))
     (load_elf_maps_section env (map_data L) (int i) elf (file_bufs elf) (Some symbols) (s_strtabidx S) (calls L))"
    using i ok assms(1,6)
    by (intro load_elf_maps_section_safe) (auto simp: syms_def n_def loader_wf_def)
  have go: "safe (\<lambda>(ret, M). loader_wf M) (load_maps env (length syms) fx (L\<lparr>map_data := ms, calls := h\<rparr>))"
    if "length ms = length (map_data L)"
      "copied elf (s_strtabidx S) ?buf (copy_size n) 0 (sort_key st_value syms) (map_data L) ms" for ms h
  proof -
    let ?L = "L\<lparr>map_data := ms, calls := h\<rparr>"
    have wf: "loader_wf ?L"
      using assms(6) that(1) by (simp add: loader_wf_def)
    have "inner_ok (ms ! j)" if "j < length syms" for j
    proof -
      have "sort_key st_value syms ! j \<in> set syms"
        using that nth_mem [of j "sort_key st_value syms"] by simp
      then show ?thesis
        using \<open>copied _ _ _ _ _ _ _ _\<close> that ok(2) assms(6) inner
        by (simp add: copied_def loader_wf_def)
    qed
    then have "\<forall>j < length syms. inner_ok (fixed fx (map_data ?L ! j) j)"
      using assms(7) by (auto simp: fixup_ok_def split: option.splits)
    from load_maps_safe [OF wf ok(2) this] show ?thesis
      by (rule safe_mono) (use wf in \<open>auto intro: maps_frame_wf\<close>)
  qed
  have finish: "safe (\<lambda>(nr, L'). loader_wf L') (if ret \<noteq> 0 then Inr (None, M)
      else bind_res (mark_sec i (M\<lparr>map_data_count := length syms\<rparr>)) (\<lambda>L. Inr (Some (length syms), L)))"
    if "loader_wf M" for ret :: int and M
    using that ok(2) i(1) by (auto simp: mark_sec_eq loader_wf_def)
  have "safe (\<lambda>(nr, L'). loader_wf L')
      (bind_res (load_maps env (length syms) fx (L\<lparr>map_data := ms, calls := h\<rparr>)) (\<lambda>(ret, M).
         if ret \<noteq> 0 then Inr (None, M) else
         bind_res (mark_sec i (M\<lparr>map_data_count := length syms\<rparr>)) (\<lambda>L. Inr (Some (length syms), L))))"
    if "length ms = length (map_data L)"
      "copied elf (s_strtabidx S) ?buf (copy_size n) 0 (sort_key st_value syms) (map_data L) ms" for ms h
    unfolding safe_bind by (rule safe_mono [OF go [OF that]]) (use finish in \<open>auto split: if_splits\<close>)
  moreover have "loader_wf (L\<lparr>map_data := ms, calls := h\<rparr>)" if "length ms = length (map_data L)" for ms h
    using assms(6) that by (simp add: loader_wf_def)
  ultimately show ?thesis
    using i(2) assms(5)
    unfolding setup_maps_def Some
    by (simp add: safe_bind Let_def) (rule safe_mono [OF secs], auto simp: safe_bind cong: if_cong)
qed (use assms in \<open>simp add: setup_maps_def\<close>)

section \<open>The later passes\<close>

definition relo_ok :: "elf \<Rightarrow> elf_data \<Rightarrow> nat \<Rightarrow> bool" where
  "relo_ok elf symbols i =
     (case get_sec elf i of
        Inl _ \<Rightarrow> True
      | Inr (shname, shdr, data) \<Rightarrow>
        sh_type shdr = SHT_REL \<longrightarrow>
        (case get_sec elf (unat (sx64 (sh_info shdr))) of
           Inl _ \<Rightarrow> True
         | Inr (shname_prog, shdr_prog, data_prog) \<Rightarrow>
           sh_type shdr_prog = SHT_PROGBITS \<and> sh_flags shdr_prog AND SHF_EXECINSTR \<noteq> 0 \<longrightarrow>
           sh_entsize shdr \<noteq> 0 \<and>
           relos_in_bounds elf data symbols
             [0..<nat (to_int32 (uint (sh_size shdr div sh_entsize shdr)))]
             (length (file_bufs elf (d_buf data_prog)))))"

text \<open>Relocation changes the marks, and no size of a buffer.\<close>

definition relo_frame :: "(nat \<Rightarrow> u8 list) \<times> loader \<Rightarrow> (nat \<Rightarrow> u8 list) \<times> loader \<Rightarrow> bool" where
  "relo_frame = (\<lambda>(bufs, L) (bufs', L').
     L' = L\<lparr>processed_sec := processed_sec L'\<rparr> \<and>
     length (processed_sec L') = length (processed_sec L) \<and>
     (\<forall>b. length (bufs' b) = length (bufs b)))"

lemma relo_frame_refl [simp, intro]: "relo_frame x x"
  by (cases x) (simp add: relo_frame_def)

lemma processed_sec_update_trans:
  "M = L\<lparr>processed_sec := q\<rparr> \<Longrightarrow> N = M\<lparr>processed_sec := p\<rparr> \<Longrightarrow> N = L\<lparr>processed_sec := p\<rparr>"
  by simp

lemma relo_frame_trans: "relo_frame x y \<Longrightarrow> relo_frame y z \<Longrightarrow> relo_frame x z"
  unfolding relo_frame_def
  by (cases x; cases y; cases z) (auto intro: processed_sec_update_trans)

lemma relo_frame_fields:
  assumes "relo_frame (b, L) (b', L')"
  shows "calls L' = calls L" "prog_cnt L' = prog_cnt L" "prog_fd L' = prog_fd L"
    "map_fd L' = map_fd L" "map_data L' = map_data L" "map_data_count L' = map_data_count L"
    "event_fd L' = event_fd L" "license L' = license L" "prog_array_fd L' = prog_array_fd L"
    "length (processed_sec L') = length (processed_sec L)"
proof -
  from assms have *: "L' = L\<lparr>processed_sec := processed_sec L'\<rparr>"
    "length (processed_sec L') = length (processed_sec L)"
    by (auto simp: relo_frame_def)
  from *(2) show "length (processed_sec L') = length (processed_sec L)" .
  show "calls L' = calls L" "prog_cnt L' = prog_cnt L" "prog_fd L' = prog_fd L"
    "map_fd L' = map_fd L" "map_data L' = map_data L" "map_data_count L' = map_data_count L"
    "event_fd L' = event_fd L" "license L' = license L" "prog_array_fd L' = prog_array_fd L"
    by (subst *(1), simp)+
qed

lemma relo_frame_wf: "relo_frame (b, L) (b', L') \<Longrightarrow> loader_wf L \<Longrightarrow> loader_wf L'"
  by (simp add: loader_wf_def relo_frame_fields)

lemma parse_relo_length:
  "post (\<lambda>(ret, insn'). length insn' = length insn)
     (parse_relo_and_apply elf data symbols shdr insn maps nr_maps)"
  by (rule post_mono [OF parse_relo_and_apply_post]) (auto simp: relo_effect_def)

lemma relo_frame_mark:
  "length insns = length (bufs b) \<Longrightarrow>
     relo_frame (bufs, L) (bufs(b := insns), L\<lparr>processed_sec := (processed_sec L)[i := True]\<rparr>)"
  by (auto simp: relo_frame_def)

lemma relo_sec_post: "post (relo_frame x) (relo_sec elf symbols nr_maps i x)"
proof (cases x)
  case (Pair bufs L)
  show ?thesis
    unfolding Pair relo_sec_def
    by (auto simp: wp mark_sec_eq Let_def split: sum.splits intro!: post_mono [OF parse_relo_length] relo_frame_mark)
qed

lemma relo_sec_safe:
  assumes "relo_ok elf symbols i" "i < 128" "loader_wf L"
    and "\<forall>b. length (bufs b) = length (file_bufs elf b)"
  shows "safe (\<lambda>_. True) (relo_sec elf symbols nr_maps i (bufs, L))"
  using assms
  by (auto simp: relo_sec_def wp mark_sec_eq Let_def relo_ok_def loader_wf_def split: sum.splits
      intro!: safe_mono [OF parse_relo_and_apply_safe])

lemma relo_secs_safe:
  assumes "list_all (relo_ok elf symbols) is" "\<forall>i \<in> set is. i < 128" "loader_wf L"
    and "\<forall>b. length (bufs b) = length (file_bufs elf b)"
  shows "safe (\<lambda>(b, M). loader_wf M) (relo_secs elf symbols nr_maps is (bufs, L))"
  using assms
proof (induction "is" arbitrary: bufs L)
  case (Cons i js)
  have "safe (relo_frame (bufs, L)) (relo_sec elf symbols nr_maps i (bufs, L))"
    using Cons.prems by (intro safe_if_post [OF relo_sec_safe relo_sec_post]) auto
  moreover have "safe (\<lambda>(b, M). loader_wf M) (relo_secs elf symbols nr_maps js x)"
    if "relo_frame (bufs, L) x" for x
  proof (cases x)
    case (Pair b' M)
    then show ?thesis
      using that Cons.prems relo_frame_wf [of bufs L b' M]
      by (auto intro!: Cons.IH simp: relo_frame_def)
  qed
  ultimately show ?case
    by (auto simp: safe_bind elim: safe_mono)
qed simp

text \<open>The sections the third pass loads.\<close>

definition prog_secs :: "elf \<Rightarrow> bool list \<Rightarrow> nat list \<Rightarrow> nat list" where
  "prog_secs elf processed is = filter (\<lambda>i. \<not> processed ! i \<and>
     (case get_sec elf i of Inl _ \<Rightarrow> False | Inr (shname, _, _) \<Rightarrow> prog_name shname)) is"

lemma prog_secs_simps [simp]:
  "prog_secs elf processed [] = []"
  "prog_secs elf processed (i # is) =
     (if \<not> processed ! i \<and>
        (case get_sec elf i of Inl _ \<Rightarrow> False | Inr (shname, _, _) \<Rightarrow> prog_name shname)
      then [i] else []) @ prog_secs elf processed is"
  by (simp_all add: prog_secs_def)

lemma load_progs_post:
  assumes "loader_wf L" "ret = 0 \<or> ret = 1"
  shows "post (\<lambda>(ret', L'). loader_wf L' \<and> load_frame L L' \<and>
           (ret' = 0 \<longrightarrow> prog_cnt L' = prog_cnt L + length (prog_secs elf (processed_sec L) is) \<and>
              (ret = 1 \<longrightarrow> prog_secs elf (processed_sec L) is \<noteq> [])))
     (load_progs fuel env elf bufs is ret L)"
  using assms
proof (induction "is" arbitrary: ret L)
  case (Cons i js)
  let ?Q = "\<lambda>is ret L (ret', L'). loader_wf L' \<and> load_frame L L' \<and>
           (ret' = 0 \<longrightarrow> prog_cnt L' = prog_cnt L + length (prog_secs elf (processed_sec L) is) \<and>
              (ret = 1 \<longrightarrow> prog_secs elf (processed_sec L) is \<noteq> []))"
  show ?case
  proof (cases "i \<in> set (prog_secs elf (processed_sec L) [i])")
    case True
    then obtain n shdr data where i: "\<not> processed_sec L ! i" "get_sec elf i = Inr (n, shdr, data)"
      "prog_name n"
      by (auto split: if_splits sum.splits)
    have "prog_cnt L \<le> MAX_PROGS"
      using Cons.prems(1) by (simp add: loader_wf_def)
    then have run: "post (\<lambda>(r, M). loader_wf M \<and> load_result L (r, M))
        (load_and_attach fuel env n (bufs (d_buf data)) (word_of_nat (d_size data)) L)"
      by (intro post_mono [OF post_conj [OF load_and_attach_wf load_and_attach_post]])
        (use Cons.prems(1) in auto)
    have stop: "?Q (i # js) ret L (r, M)" if "loader_wf M" "load_result L (r, M)" "r \<noteq> 0" for r M
      using that by (auto simp: load_result_def)
    have go: "post (?Q (i # js) ret L) (load_progs fuel env elf bufs js 0 M)"
      if M: "loader_wf M" "load_result L (0, M)" for M
    proof -
      have "load_frame L M" "prog_cnt M = prog_cnt L + 1" "processed_sec M = processed_sec L"
        using M(2) by (auto simp: load_result_def recorded_def load_frame_def)
      then show ?thesis
        using Cons.IH [of M 0] M(1) i
        by (auto elim!: post_mono simp: load_frame_def)
    qed
    show ?thesis
      using run i stop go by (auto simp: wp elim!: post_mono)
  next
    case False
    then have "post (?Q (i # js) ret L) (load_progs fuel env elf bufs js ret L)"
      using Cons.IH [OF Cons.prems] by (auto elim!: post_mono split: if_splits)
    then show ?thesis
      using False by (auto simp: wp split: sum.splits if_splits)
  qed
qed (simp add: load_frame_def)

lemma load_progs_safe:
  assumes "patient n env" "n \<le> fuel" "loader_wf L" "ret = 0 \<or> ret = 1"
    and "\<forall>i \<in> set is. i < 128 \<and> sec_ok elf i"
  shows "safe (\<lambda>_. True) (load_progs fuel env elf bufs is ret L)"
  using assms(3-)
proof (induction "is" arbitrary: ret L)
  case (Cons i js)
  have run: "safe (\<lambda>(r, M). loader_wf M) (load_and_attach fuel env name prog sz L)"
    if "event_name_ok name" for name prog sz
    using assms(1,2) Cons.prems(1) that
    by (intro safe_if_post [OF load_and_attach_safe load_and_attach_wf]) auto
  have "safe (\<lambda>_. True) (load_progs fuel env elf bufs js r M)" if "loader_wf M" "r = 0 \<or> r = 1" for r M
    using that Cons.prems(3) by (intro Cons.IH) auto
  moreover have "length (processed_sec L) = 128"
    using Cons.prems(1) by (simp add: loader_wf_def)
  ultimately show ?case
    using Cons.prems
    by (auto simp: wp sec_ok_def split: sum.splits intro!: safe_mono [OF run])
qed simp

section \<open>The whole file\<close>

text \<open>An object file that the loader can read without leaving its arrays.\<close>

definition object_ok :: "elf \<Rightarrow> bool" where
  "object_ok elf = (e_shnum elf \<le> 128 \<and> list_all (sec_ok elf) (secs elf) \<and>
     maps_ok elf (scan_of elf) \<and>
     (case s_symbols (scan_of elf) of None \<Rightarrow> True
      | Some symbols \<Rightarrow> list_all (relo_ok elf symbols) (secs elf)))"

lemma load_scanned_safe:
  assumes "patient n env" "n \<le> fuel" "malloc_ok env" "fixup_ok fx" "object_ok elf" "loader_wf L"
  shows "safe (\<lambda>(ret, L'). loader_wf L') (load_scanned fuel env elf fx (scan_of elf) L)"
proof (cases "s_symbols (scan_of elf)")
  case (Some symbols)
  note ok = assms(5) [unfolded object_ok_def Some option.case]
  have maps: "safe (\<lambda>(nr, L'). loader_wf L') (setup_maps env elf (file_bufs elf) fx (scan_of elf) L)"
    using assms ok Some by (intro setup_maps_safe) auto
  have relo: "safe (\<lambda>(b, M). loader_wf M) (relo_secs elf symbols nr (secs elf) (file_bufs elf, M))"
    if "loader_wf M" for nr M
    using ok that by (intro relo_secs_safe) auto
  have progs: "safe (\<lambda>(ret, L'). loader_wf L') (load_progs fuel env elf bufs (secs elf) 1 M)"
    if "loader_wf M" for bufs M
    using assms(1,2) ok that
    by (intro safe_if_post [OF load_progs_safe post_mono [OF load_progs_post]]) (auto simp: list_all_iff)
  have "safe (\<lambda>(ret, L'). loader_wf L')
      (bind_res (relo_secs elf symbols nr (secs elf) (file_bufs elf, M)) (\<lambda>(bufs, L).
         load_progs fuel env elf bufs (secs elf) 1 L))" if "loader_wf M" for nr M
    unfolding safe_bind using progs by (intro safe_mono [OF relo [OF that]]) auto
  then show ?thesis
    unfolding load_scanned_def Some Let_def
    by (auto simp: safe_bind split: option.splits intro!: safe_mono [OF maps])
qed (use assms in \<open>simp add: load_scanned_def\<close>)

lemma loader_wf_calls [simp]: "loader_wf (L\<lparr>calls := h\<rparr>) = loader_wf L"
  by (simp add: loader_wf_def)

lemma loader_wf_reset: "loader_wf L \<Longrightarrow> loader_wf (reset_globals L)"
  by (simp add: loader_wf_def reset_globals_def)

lemma do_load_bpf_file_total:
  assumes "patient n env" "n \<le> fuel" "malloc_ok env" "fixup_ok fx" "loader_wf L"
    and "\<And>fd elf. elf_begin lib fd = Some elf \<Longrightarrow> object_ok elf"
  shows "safe (\<lambda>(ret, L'). loader_wf L') (do_load_bpf_file fuel lib env path fx L)"
proof -
  let ?L = "reset_globals L"
  let ?fd = "r_ret (env (calls ?L) (Open path [O_RDONLY]))"
  have wf: "loader_wf ?L"
    using assms(5) by (rule loader_wf_reset)
  show ?thesis
  proof (cases "elf_version_ok lib \<and> 0 \<le> ?fd \<and> (\<exists>elf. elf_begin lib ?fd = Some elf \<and> ehdr_ok elf)")
    case True
    then obtain elf where elf: "elf_begin lib ?fd = Some elf" "ehdr_ok elf"
      by blast
    then have ok: "object_ok elf"
      using assms(6) by blast
    have scan: "safe (\<lambda>(S', L'). scan_frame M L' \<and> (\<forall>s. S' = Some s \<longrightarrow> s = scan_of elf))
        (scan_secs elf (file_bufs elf) (secs elf) scan_init M)" if "loader_wf M" for M
      unfolding scan_of_def using ok that by (intro scan_secs_safe) (auto simp: object_ok_def)
    have rest: "safe (\<lambda>(ret, L'). loader_wf L')
        (bind_res (load_scanned fuel env elf fx (scan_of elf) M) (\<lambda>(ret, L).
           let (_, L) = do_call env (Close ?fd) L in Inr (ret, L)))" if "loader_wf M" for M
      unfolding safe_bind
      by (intro safe_mono [OF load_scanned_safe [OF assms(1-4) ok that]]) auto
    have "safe (\<lambda>(ret, L'). loader_wf L')
        (bind_res (scan_secs elf (file_bufs elf) (secs elf) scan_init M) (\<lambda>(S, L).
            case S of None \<Rightarrow> Inr (1, L)
            | Some S \<Rightarrow>
              bind_res (load_scanned fuel env elf fx S L) (\<lambda>(ret, L).
              let (_, L) = do_call env (Close ?fd) L in Inr (ret, L))))" if "loader_wf M" for M
      unfolding safe_bind [of _ "scan_secs _ _ _ _ _"]
      using rest
      by (intro safe_mono [OF scan [OF that]]) (auto split: option.splits dest!: scan_frame_wf [OF _ that])
    then show ?thesis
      using True elf wf
      by (simp add: do_load_bpf_file_def write_kprobe_events_eq Let_def)
  next
    case False
    then show ?thesis
      using wf by (auto simp: do_load_bpf_file_def Let_def split: option.splits)
  qed
qed

section \<open>What a successful load has done\<close>

lemma load_maps_from_bound:
  "post (\<lambda>(ret, L'). ret = 0 \<longrightarrow> (\<forall>i \<in> set is. i < length (map_data L)))
     (load_maps_from env fx is L)"
proof (induction "is" arbitrary: L)
  case (Cons i js)
  have "post (\<lambda>(ret, L'). ret = 0 \<longrightarrow> (\<forall>i \<in> set (i # js). i < length (map_data L)))
      (load_maps_from env fx js M)" if "map_loaded fx i L (False, M)" for M
    using that by (intro post_mono [OF Cons.IH]) (auto simp: map_loaded_def maps_frame_def fd_agrees_def)
  then show ?case
    by (auto simp: post_bind intro!: post_mono [OF load_map_post])
qed simp

text \<open>The state once the maps of the file are set up.\<close>

definition maps_set_up :: "loader \<Rightarrow> bool" where
  "maps_set_up L = (\<forall>i < map_data_count L. fd_agrees L i \<and> 0 \<le> map_fd L ! i)"

lemma load_elf_maps_section_length:
  "post (\<lambda>(ret, maps', h'). length maps' = length maps \<and> prefix h h')
     (load_elf_maps_section env maps shndx elf bufs symbols strtabidx h)"
proof -
  have copy: "post (\<lambda>(ret, maps', h'). length maps' = length maps \<and> prefix h h')
      (copy_map_defs env elf strtabidx buf a b vz (enumerate 0 ss) maps (h @ cs))" for buf a b vz ss cs
    by (rule post_mono [OF copy_map_defs_post]) (auto simp: made_def)
  show ?thesis
    unfolding load_elf_maps_section_def
    by (auto simp: wp sys_def Let_def split: option.splits
        intro!: post_all [where m = "collect_map_syms a b c d e" for a b c d e] post_mono [OF copy])
qed

lemma setup_maps_post:
  assumes "loader_wf L"
  shows "post (\<lambda>(nr, L'). loader_wf L' \<and> prog_cnt L' = prog_cnt L \<and>
           (nr \<noteq> None \<and> fx = None \<and> s_data_maps S \<noteq> None \<longrightarrow> maps_set_up L'))
     (setup_maps env elf bufs fx S L)"
proof (cases "s_data_maps S = None")
  case False
  let ?Q = "\<lambda>(nr, L'). loader_wf L' \<and> prog_cnt L' = prog_cnt L \<and>
           (nr \<noteq> None \<and> fx = None \<and> s_data_maps S \<noteq> None \<longrightarrow> maps_set_up L')"
  have mark: "post ?Q (bind_res (mark_sec i (M\<lparr>map_data_count := n\<rparr>)) (\<lambda>L. Inr (Some n, L)))"
    if "loader_wf M" "prog_cnt M = prog_cnt L" "n \<le> MAX_MAPS"
      "fx = None \<longrightarrow> (\<forall>j < n. fd_agrees M j \<and> 0 \<le> map_fd M ! j)" for i n M
    using that by (auto simp: mark_sec_eq loader_wf_def maps_set_up_def fd_agrees_def)
  have maps: "post ?Q (bind_res (load_maps env n fx M) (\<lambda>(ret, L).
        if ret \<noteq> 0 then Inr (None, L)
        else bind_res (mark_sec i (L\<lparr>map_data_count := n\<rparr>)) (\<lambda>L. Inr (Some n, L))))"
    if M: "loader_wf M" "prog_cnt M = prog_cnt L" for n i M
  proof -
    have len: "length (map_data M) = MAX_MAPS"
      using M(1) by (simp add: loader_wf_def)
    have frame: "post (\<lambda>(ret, N). maps_frame M N \<and> (ret = 0 \<longrightarrow> n \<le> MAX_MAPS))
        (load_maps env n fx M)"
      unfolding load_maps_def
      by (rule post_mono [OF post_conj [OF load_maps_from_frame load_maps_from_bound]])
        (use len in \<open>auto intro!: leI dest: bspec [where x = "MAX_MAPS"]\<close>)
    have fds: "post (\<lambda>(ret, N). ret = 0 \<and> fx = None \<longrightarrow> (\<forall>j < n. fd_agrees N j \<and> 0 \<le> map_fd N ! j))
        (load_maps env n fx M)"
    proof (cases fx)
      case None
      show ?thesis
        unfolding None by (rule post_mono [OF load_maps_inv]) (auto simp: maps_inv_def)
    qed (auto intro: post_all)
    have wf: "loader_wf N \<and> prog_cnt N = prog_cnt L" if "maps_frame M N" for N
      using maps_frame_wf [OF that M(1)] M(2) that by (simp add: maps_frame_def)
    have "post (\<lambda>(ret, N). loader_wf N \<and> prog_cnt N = prog_cnt L \<and> (ret = 0 \<longrightarrow> n \<le> MAX_MAPS \<and>
          (fx = None \<longrightarrow> (\<forall>j < n. fd_agrees N j \<and> 0 \<le> map_fd N ! j)))) (load_maps env n fx M)"
      by (rule post_mono [OF post_conj [OF frame fds]]) (use wf in auto)
    then show ?thesis
      unfolding post_bind [of _ "load_maps _ _ _ _"]
      by (rule post_mono) (use mark in auto)
  qed
  have wf: "loader_wf (L\<lparr>map_data := ms, calls := h\<rparr>)" if "length ms = length (map_data L)" for ms h
    using assms that by (simp add: loader_wf_def)
  show ?thesis
    unfolding setup_maps_def if_not_P [OF False] Let_def
      post_bind [of _ "load_elf_maps_section _ _ _ _ _ _ _ _"]
    by (rule post_mono [OF load_elf_maps_section_length]) (use maps wf assms in auto)
qed (use assms in \<open>simp add: setup_maps_def\<close>)

lemma maps_set_up_cong:
  "map_fd L' = map_fd L \<Longrightarrow> map_data L' = map_data L \<Longrightarrow> map_data_count L' = map_data_count L \<Longrightarrow>
     maps_set_up L' = maps_set_up L"
  by (simp add: maps_set_up_def fd_agrees_def)

lemma relo_secs_post: "post (relo_frame x) (relo_secs elf symbols nr_maps is x)"
proof (induction "is" arbitrary: x)
  case (Cons i js)
  have "post (relo_frame x) (relo_secs elf symbols nr_maps js y)" if "relo_frame x y" for y
    using that by (intro post_mono [OF Cons.IH]) (auto intro: relo_frame_trans)
  then show ?case
    by (auto simp: post_bind intro!: post_mono [OF relo_sec_post])
qed simp

text \<open>
  A load that returned 0: at least one program section, all of them loaded, and the two map
  tables agree.
\<close>

definition loaded :: "elf \<Rightarrow> fixup_map_cb option \<Rightarrow> nat \<Rightarrow> loader \<Rightarrow> bool" where
  "loaded elf fx cnt L' =
     (prog_cnt L' = cnt + length (prog_secs elf (processed_sec L') (secs elf)) \<and>
      prog_secs elf (processed_sec L') (secs elf) \<noteq> [] \<and>
      (fx = None \<and> s_data_maps (scan_of elf) \<noteq> None \<longrightarrow> maps_set_up L'))"

lemma load_scanned_post:
  assumes "loader_wf L"
  shows "post (\<lambda>(ret, L'). loader_wf L' \<and> (ret = 0 \<longrightarrow> loaded elf fx (prog_cnt L) L'))
           (load_scanned fuel env elf fx (scan_of elf) L)"
proof (cases "s_symbols (scan_of elf)")
  case (Some symbols)
  let ?m = "\<lambda>M. fx = None \<and> s_data_maps (scan_of elf) \<noteq> None \<longrightarrow> maps_set_up M"
  let ?Q = "\<lambda>(ret, L'). loader_wf L' \<and> (ret = 0 \<longrightarrow> loaded elf fx (prog_cnt L) L')"
  have progs: "post ?Q (load_progs fuel env elf bufs (secs elf) 1 M)"
    if "loader_wf M" "prog_cnt M = prog_cnt L" "?m M" for bufs M
    using that
    by (intro post_mono [OF load_progs_post])
      (auto simp: loaded_def load_frame_def intro: maps_set_up_cong [THEN iffD2])
  have relo: "post ?Q (bind_res (relo_secs elf symbols nr (secs elf) (file_bufs elf, M)) (\<lambda>(bufs, L).
         load_progs fuel env elf bufs (secs elf) 1 L))"
    if M: "loader_wf M" "prog_cnt M = prog_cnt L" "?m M" for nr M
  proof -
    have "post ?Q (load_progs fuel env elf b (secs elf) 1 N)"
      if "relo_frame (file_bufs elf, M) (b, N)" for b N
    proof (rule progs)
      show "loader_wf N"
        using relo_frame_wf [OF that M(1)] .
      show "prog_cnt N = prog_cnt L" "?m N"
        using M(2,3) relo_frame_fields [OF that] maps_set_up_cong [of N M] by simp_all
    qed
    then show ?thesis
      unfolding post_bind by (intro post_mono [OF relo_secs_post]) auto
  qed
  show ?thesis
    unfolding load_scanned_def Some Let_def option.case post_bind [of _ "setup_maps _ _ _ _ _ _"]
    by (rule post_mono [OF setup_maps_post [OF assms]]) (auto split: option.splits intro!: relo simp del: One_nat_def)
qed (use assms in \<open>simp add: load_scanned_def\<close>)

lemma do_load_bpf_file_post:
  assumes "loader_wf L"
  shows "post (\<lambda>(ret, L'). loader_wf L' \<and>
           (ret = 0 \<longrightarrow> (\<exists>fd elf. elf_begin lib fd = Some elf \<and> loaded elf fx (prog_cnt L) L' \<and>
              last (calls L') = Close fd)))
     (do_load_bpf_file fuel lib env path fx L)"
proof -
  let ?L = "reset_globals L"
  let ?fd = "r_ret (env (calls ?L) (Open path [O_RDONLY]))"
  let ?Q = "\<lambda>(ret, L'). loader_wf L' \<and>
           (ret = 0 \<longrightarrow> (\<exists>fd elf. elf_begin lib fd = Some elf \<and> loaded elf fx (prog_cnt L) L' \<and>
              last (calls L') = Close fd))"
  have wf: "loader_wf ?L" "prog_cnt ?L = prog_cnt L"
    using assms loader_wf_reset by (auto simp: reset_globals_def)
  show ?thesis
  proof (cases "elf_version_ok lib \<and> 0 \<le> ?fd \<and> (\<exists>elf. elf_begin lib ?fd = Some elf \<and> ehdr_ok elf)")
    case True
    then obtain elf where elf: "elf_begin lib ?fd = Some elf" "ehdr_ok elf"
      by blast
    have close: "?Q (ret, M\<lparr>calls := calls M @ [Close ?fd]\<rparr>)"
      if "loader_wf M \<and> (ret = 0 \<longrightarrow> loaded elf fx (prog_cnt L) M)" for ret :: int and M
      using that elf maps_set_up_cong [of "M\<lparr>calls := calls M @ [Close ?fd]\<rparr>" M]
      by (auto simp: loaded_def intro!: exI [of _ ?fd] exI [of _ elf])
    have rest: "post ?Q (bind_res (load_scanned fuel env elf fx (scan_of elf) M) (\<lambda>(ret, L).
           let (_, L) = do_call env (Close ?fd) L in Inr (ret, L)))"
      if "loader_wf M" "prog_cnt M = prog_cnt L" for M
      unfolding post_bind that(2) [symmetric]
      by (rule post_mono [OF load_scanned_post [OF that(1)]]) (use close that(2) in auto)
    have "post ?Q (bind_res (scan_secs elf (file_bufs elf) (secs elf) scan_init M) (\<lambda>(S, L).
            case S of None \<Rightarrow> Inr (1, L)
            | Some S \<Rightarrow>
              bind_res (load_scanned fuel env elf fx S L) (\<lambda>(ret, L).
              let (_, L) = do_call env (Close ?fd) L in Inr (ret, L))))"
      if M: "loader_wf M" "prog_cnt M = prog_cnt L" for M
    proof -
      have "loader_wf N" "prog_cnt N = prog_cnt L" if "scan_frame M N" for N
        using M scan_frame_wf [OF that] that by (auto simp: scan_frame_def)
      then show ?thesis
        unfolding post_bind [of _ "scan_secs _ _ _ _ _"]
        using rest by (intro post_mono [OF scan_secs_post]) (auto split: option.splits simp: scan_of_def)
    qed
    then show ?thesis
      using True elf wf by (simp add: do_load_bpf_file_def write_kprobe_events_eq Let_def)
  next
    case False
    then show ?thesis
      using wf by (auto simp: do_load_bpf_file_def Let_def split: option.splits)
  qed
qed

end
