(* ===== verification/Load_Success.thy ===== *)
theory Load_Success
  imports Load_File
begin

text \<open>
  When the loader succeeds: if the operating system answers every call with success, and every
  program section has a name the loader can attach, loading a well-formed object returns 0.
\<close>

section \<open>A system that answers every call\<close>

definition succeeds :: "env \<Rightarrow> bool" where
  "succeeds env =
     ((\<forall>h c. 0 \<le> r_ret (env h c)) \<and> (\<forall>h n. r_ret (env h (Malloc n)) \<noteq> 0) \<and>
      (\<forall>h c. (\<forall>n. c \<noteq> Malloc n) \<longrightarrow> r_ret (env h c) < 256))"

lemma succeeds_nonneg:
  assumes "succeeds env"
  shows "\<not> r_ret (env h c) < 0" "0 \<le> r_ret (env h c)"
  using assms by (auto simp: succeeds_def not_less)

lemma succeeds_small:
  assumes "succeeds env" "\<forall>n. c \<noteq> Malloc n"
  shows "\<not> 256 \<le> r_ret (env h c)" "to_int32 (r_ret (env h c)) = r_ret (env h c)"
proof -
  have "0 \<le> r_ret (env h c)" "r_ret (env h c) < 256"
    using assms unfolding succeeds_def by blast+
  then show "\<not> 256 \<le> r_ret (env h c)" "to_int32 (r_ret (env h c)) = r_ret (env h c)"
    by (auto intro!: to_int32_id)
qed

lemmas succeeds_ret = succeeds_nonneg succeeds_small

lemma succeeds_patient: "succeeds env \<Longrightarrow> patient (Suc 0) env"
  by (auto simp: patient_def eagain_def succeeds_ret)

lemma succeeds_malloc: "succeeds env \<Longrightarrow> malloc_ok env"
  by (simp add: malloc_ok_def succeeds_def)

section \<open>Attaching\<close>

text \<open>
  Names of program sections that can be attached: a known kind, an event behind the slash, and
  a number behind the slash of a socket section.
\<close>

definition attachable :: "string \<Rightarrow> bool" where
  "attachable event = (event_name_ok event \<and> event_prog_type event \<noteq> None \<and>
     (is_kprobe event \<longrightarrow> 7 < length event) \<and> (is_kretprobe event \<longrightarrow> 10 < length event) \<and>
     (is_tracepoint event \<longrightarrow> 11 < length event) \<and>
     (let p = (if is_socket event then 6 else 7) in
      (is_socket event \<or> is_sockops event \<or> is_sk_skb event \<or> is_sk_msg event) \<and>
      p < length event \<and> event ! p = CHR ''/'' \<longrightarrow> p + 1 < length event \<and> isdigit (event ! (p + 1))))"

lemma attach_perf_event_ok:
  "succeeds env \<Longrightarrow> post (\<lambda>(r, L'). r = 0) (attach_perf_event env path fd L)"
  by (simp add: attach_perf_event_def perf_event_open_def wp Let_def succeeds_ret)

lemma populate_prog_array_ok:
  "succeeds env \<Longrightarrow> fst (populate_prog_array env event fd L) = 0"
  by (simp add: populate_prog_array_eq Let_def succeeds_ret)

lemma register_kprobe_ok:
  "succeeds env \<Longrightarrow> fst (register_kprobe env kprobe event L) \<noteq> None"
  by (simp add: register_kprobe_def write_kprobe_events_eq Let_def succeeds_ret)

lemma attach_kprobe_ok:
  assumes "succeeds env" "drop (if is_kprobe event then 7 else 10) event \<noteq> []"
  shows "post (\<lambda>(r, L'). r = 0) (attach_kprobe env event fd L)"
proof -
  let ?ev = "drop (if is_kprobe event then 7 else 10) event"
  obtain c cs where c: "?ev = c # cs"
    using assms(2) by (cases ?ev) auto
  obtain p M where reg: "register_kprobe env (is_kprobe event) ?ev L = (Some p, M)"
    using register_kprobe_ok [OF assms(1), of "is_kprobe event" ?ev L]
    by (cases "register_kprobe env (is_kprobe event) ?ev L") auto
  obtain q N where pop: "populate_prog_array env ?ev fd L = (q, N)" "q = 0"
    using populate_prog_array_ok [OF assms(1), of ?ev fd L]
    by (cases "populate_prog_array env ?ev fd L") auto
  have "post (\<lambda>(r, L'). r = 0) (attach_kprobe env event fd L) =
     (if isdigit c then True
      else post (\<lambda>buf. post (\<lambda>(r, L'). r = 0) (attach_perf_event env buf fd M))
             (strcats_res sizeof_buf [] [DEBUGFS, ''events/kprobes/'', p, ?ev, ''/id'']))"
    unfolding attach_kprobe_def Let_def reg pop(1) by (simp add: c pop(2) post_bind del: strcats_res.simps)
  then show ?thesis
    using attach_perf_event_ok [OF assms(1)] by (auto intro: post_all)
qed

lemma attach_ok:
  assumes "succeeds env" "attachable event"
  shows "post (\<lambda>(r, L'). r = 0) (attach env event fd L)"
proof -
  have kind: "is_kprobe event \<or> is_kretprobe event \<or> is_tracepoint event"
    if "\<not> (is_xdp event \<or> is_perf_event event \<or> is_cgroup_skb event \<or> is_cgroup_sk event)"
      "\<not> (is_socket event \<or> is_sockops event \<or> is_sk_skb event \<or> is_sk_msg event)"
      "\<not> is_raw_tracepoint event"
    using that assms(2) by (auto simp: attachable_def event_prog_type_def split: if_splits)
  have socket: "post (\<lambda>(r, L'). r = 0) (attach_socket env event fd L)"
    if "is_socket event \<or> is_sockops event \<or> is_sk_skb event \<or> is_sk_msg event"
  proof -
    define p where "p = (if is_socket event then 6 else 7 :: nat)"
    have "p < length event \<Longrightarrow> event ! p = CHR ''/'' \<Longrightarrow> p + 1 < length event \<and> isdigit (event ! (p + 1))"
      using assms(2) that by (auto simp: attachable_def Let_def p_def)
    then show ?thesis
      unfolding attach_socket_def p_def [symmetric]
      by (auto simp: Let_def wp char_at_def nth_append split_beta populate_prog_array_ok [OF assms(1)]
          split: if_splits)
  qed
  have raw: "post (\<lambda>(r, L'). r = 0) (attach_raw_tracepoint env event fd L)"
    using assms(1) by (simp add: attach_raw_tracepoint_def bpf_raw_tracepoint_open_def sys_bpf_def
        sys_def wp Let_def succeeds_ret)
  have kp: "post (\<lambda>(r, L'). r = 0) (attach_kprobe env event fd L)"
    if "is_kprobe event \<or> is_kretprobe event"
    using assms that by (intro attach_kprobe_ok) (auto simp: attachable_def)
  have tp: "post (\<lambda>(r, L'). r = 0) (attach_tracepoint env event fd L)" if "is_tracepoint event"
    using assms that attach_perf_event_ok [OF assms(1)]
    by (auto simp: attach_tracepoint_def attachable_def Let_def post_bind intro!: post_all)
  show ?thesis
    using kind socket raw kp tp by (auto simp: attach_def)
qed

section \<open>Loading programs and maps\<close>

lemma load_and_attach_ok:
  assumes "succeeds env" "attachable event" "prog_cnt L < MAX_PROGS"
  shows "post (\<lambda>(r, L'). r = 0) (load_and_attach fuel env event prog sz L)"
proof -
  obtain t where t: "event_prog_type event = Some t"
    using assms(2) by (auto simp: attachable_def)
  have load: "post (\<lambda>(fd, log, h). 0 \<le> fd)
      (bpf_load_program fuel env t prog cnt lic ver True BPF_LOG_BUF_SIZE h)" for cnt lic ver h
  proof (cases fuel)
    case (Suc f)
    have "sys_bpf_prog_load fuel env a h = Inr (env h (Bpf BPF_PROG_LOAD (Prog_load a)),
        attr_after a (env h (Bpf BPF_PROG_LOAD (Prog_load a))), h @ [Bpf BPF_PROG_LOAD (Prog_load a)])" for a h
      unfolding Suc using assms(1) by (simp add: sys_bpf_def sys_def Let_def succeeds_ret)
    then show ?thesis
      using assms(1) by (simp add: bpf_load_program_eq succeeds_ret)
  qed (simp add: bpf_load_program_eq)
  show ?thesis
    using assms(3) unfolding load_and_attach_def t option.case Let_def
    by (auto simp: post_bind wp intro!: post_mono [OF load] attach_ok [OF assms(1,2)])
qed

lemma load_progs_ok:
  assumes "succeeds env" "loader_wf L" "ret = 0 \<or> ret = 1"
    and "prog_cnt L + length (prog_secs elf (processed_sec L) is) \<le> MAX_PROGS"
    and "\<forall>i \<in> set (prog_secs elf (processed_sec L) is).
           \<forall>n shdr data. get_sec elf i = Inr (n, shdr, data) \<longrightarrow> attachable n"
    and "ret = 1 \<longrightarrow> prog_secs elf (processed_sec L) is \<noteq> []"
  shows "post (\<lambda>(ret', L'). ret' = 0) (load_progs fuel env elf bufs is ret L)"
  using assms(2-)
proof (induction "is" arbitrary: ret L)
  case (Cons i js)
  show ?case
  proof (cases "i \<in> set (prog_secs elf (processed_sec L) [i])")
    case True
    then obtain n shdr data where i: "\<not> processed_sec L ! i" "get_sec elf i = Inr (n, shdr, data)"
      "prog_name n"
      by (auto split: if_splits sum.splits)
    have cnt: "prog_cnt L < MAX_PROGS" "prog_cnt L \<le> MAX_PROGS"
      using Cons.prems(3) i by auto
    have att: "attachable n"
      using Cons.prems(4) i by auto
    have run: "post (\<lambda>(r, M). r = 0 \<and> loader_wf M \<and> load_result L (r, M))
        (load_and_attach fuel env n (bufs (d_buf data)) (word_of_nat (d_size data)) L)"
      by (rule post_mono [OF post_conj [OF load_and_attach_ok [OF assms(1) att cnt(1)]
              post_conj [OF load_and_attach_wf [OF Cons.prems(1)] load_and_attach_post [OF cnt(2)]]]]) auto
    have go: "post (\<lambda>(ret', L'). ret' = 0) (load_progs fuel env elf bufs js 0 M)"
      if M: "loader_wf M" "load_result L (0, M)" for M
    proof -
      have "prog_cnt M = prog_cnt L + 1" "processed_sec M = processed_sec L"
        using M(2) by (auto simp: load_result_def recorded_def load_frame_def)
      then show ?thesis
        using Cons.prems(3,4) M(1) i by (intro Cons.IH) auto
    qed
    show ?thesis
      using i by (auto simp: wp intro!: post_mono [OF run] go)
  next
    case False
    then have "post (\<lambda>(ret', L'). ret' = 0) (load_progs fuel env elf bufs js ret L)"
      using Cons.prems by (intro Cons.IH) (auto split: if_splits)
    then show ?thesis
      using False by (auto simp: wp split: sum.splits if_splits)
  qed
qed auto

lemma load_maps_ok:
  assumes "succeeds env"
  shows "post (\<lambda>(ret, L'). ret = 0) (load_maps env n None L)"
proof -
  have step: "post (\<lambda>(stop, M). \<not> stop) (load_map env None i L)" for i L
  proof -
    have create: "post (\<lambda>(fd, L'). 0 \<le> fd) (create_map env m L)" for m L
      by (rule post_mono [OF create_map_post]) (auto simp: succeeds_nonneg [OF assms])
    show ?thesis
      unfolding load_map_def
      by (auto simp: wp Let_def intro!: post_mono [OF create])
  qed
  have "post (\<lambda>(ret, L'). ret = 0) (load_maps_from env None is L)" for "is"
  proof (induction "is" arbitrary: L)
    case (Cons i js)
    show ?case
      using Cons.IH by (auto simp: post_bind intro!: post_mono [OF step])
  qed simp
  then show ?thesis
    by (simp add: load_maps_def)
qed

section \<open>Which sections are marked\<close>

text \<open>
  Only the license, the version, the maps and relocation sections are marked as processed, so a
  program section is never skipped.
\<close>

definition special_sec :: "elf \<Rightarrow> nat \<Rightarrow> bool" where
  "special_sec elf i = (case get_sec elf i of
      Inl _ \<Rightarrow> False
    | Inr (n, shdr, _) \<Rightarrow> n \<in> {''license'', ''version'', ''maps''} \<or> sh_type shdr = SHT_REL)"

definition marks_ok :: "elf \<Rightarrow> loader \<Rightarrow> bool" where
  "marks_ok elf L = (\<forall>i < length (processed_sec L). processed_sec L ! i \<longrightarrow> special_sec elf i)"

lemma marks_ok_mark:
  "marks_ok elf L \<Longrightarrow> special_sec elf i \<Longrightarrow> marks_ok elf (L\<lparr>processed_sec := (processed_sec L)[i := True]\<rparr>)"
  by (auto simp: marks_ok_def) (metis nth_list_update_neq)

lemma marks_ok_cong: "processed_sec L' = processed_sec L \<Longrightarrow> marks_ok elf L' = marks_ok elf L"
  by (simp add: marks_ok_def)

lemma scan_sec_marks:
  assumes "marks_ok elf L"
  shows "post (\<lambda>(S', L'). marks_ok elf L') (scan_sec elf bufs i S L)"
  using assms
  by (auto simp: scan_sec_def mark_sec_eq slice_res_def special_sec_def marks_ok_def nth_list_update
      split: sum.splits prod.splits)

text \<open>A version section, if any, has four bytes.\<close>

definition version_ok :: "elf \<Rightarrow> nat \<Rightarrow> bool" where
  "version_ok elf i = (case get_sec elf i of
      Inl _ \<Rightarrow> True | Inr (n, _, data) \<Rightarrow> n = ''version'' \<longrightarrow> d_size data = 4)"

lemma scan_secs_ok:
  assumes "marks_ok elf L" "\<forall>i \<in> set is. version_ok elf i"
  shows "post (\<lambda>(S', L'). marks_ok elf L' \<and> S' \<noteq> None) (scan_secs elf bufs is S L)"
  using assms
proof (induction "is" arbitrary: S L)
  case (Cons i js)
  have "post (\<lambda>(S', L'). S' \<noteq> None) (scan_sec elf bufs i S L)"
    using Cons.prems(2)
    by (auto simp: scan_sec_def version_ok_def mark_sec_eq slice_res_def split: sum.splits prod.splits)
  from post_conj [OF this scan_sec_marks [OF Cons.prems(1), of bufs i S]]
  have step: "post (\<lambda>(S', L'). S' \<noteq> None \<and> marks_ok elf L') (scan_sec elf bufs i S L)"
    by (rule post_mono) auto
  show ?case
    using Cons by (auto simp: post_bind split: option.splits intro!: post_mono [OF step])
qed simp

lemma relo_sec_marks:
  assumes "marks_ok elf (snd x)"
  shows "post (\<lambda>y. marks_ok elf (snd y)) (relo_sec elf symbols nr_maps i x)"
proof (cases x)
  case (Pair bufs L)
  then show ?thesis
    using assms marks_ok_mark [of elf L i]
    by (auto simp: relo_sec_def wp mark_sec_eq Let_def special_sec_def split: sum.splits
        intro!: post_mono [OF parse_relo_length])
qed

lemma relo_secs_marks:
  "marks_ok elf (snd x) \<Longrightarrow> post (\<lambda>y. marks_ok elf (snd y)) (relo_secs elf symbols nr_maps is x)"
proof (induction "is" arbitrary: x)
  case (Cons i js)
  then show ?case
    by (auto simp: post_bind intro!: post_mono [OF relo_sec_marks])
qed simp

lemma scan_of_maps_special:
  "s_data_maps (scan_of elf) \<noteq> None \<Longrightarrow> special_sec elf (nat (s_maps_shndx (scan_of elf)))"
  unfolding scan_of_def
  by (rule fold_invariant [where Q = "\<lambda>_. True" and P = "\<lambda>S.
        s_data_maps S \<noteq> None \<longrightarrow> special_sec elf (nat (s_maps_shndx S))", THEN mp])
    (auto simp: scan_init_def scan_step_def special_sec_def split: sum.splits if_splits)

text \<open>The definitions of the maps ask for nothing this loader does not know.\<close>

definition maps_known :: "elf \<Rightarrow> scan \<Rightarrow> bool" where
  "maps_known elf S =
     (case (s_data_maps S, s_symbols S) of
        (Some data, Some symbols) \<Rightarrow>
          (let syms = map_syms elf symbols (nat (s_maps_shndx S)) [0..<d_size symbols div sizeof_sym];
               n = d_size data div length syms in
           zero_tails (file_bufs elf (d_buf data)) (copy_size n) (n - copy_size n) syms)
      | _ \<Rightarrow> True)"

lemma setup_maps_ok:
  assumes "succeeds env" "maps_ok elf S" "maps_known elf S" "S = scan_of elf"
    and "s_symbols S = Some symbols" "loader_wf L" "marks_ok elf L"
  shows "post (\<lambda>(nr, L'). nr \<noteq> None \<and> marks_ok elf L') (setup_maps env elf (file_bufs elf) None S L)"
proof (cases "s_data_maps S")
  case (Some data)
  obtain i scn where i: "s_maps_shndx S = int i" "getscn elf i = Some scn"
    "getdata elf scn None = Some data"
    using scan_of_maps [of elf data] Some assms(4) by auto
  have special: "special_sec elf i"
    using scan_of_maps_special [of elf] Some assms(4) i by simp
  define syms where "syms = map_syms elf symbols i [0..<d_size symbols div sizeof_sym]"
  define n where "n = d_size data div length syms"
  let ?buf = "file_bufs elf (d_buf data)"
  have ok: "syms \<noteq> []" "length syms \<le> MAX_MAPS" "n < 2 ^ 31"
      "defs_in_bounds elf (s_strtabidx S) ?buf n syms" "zero_tails ?buf (copy_size n) (n - copy_size n) syms"
    using assms(2,3,5) Some i by (auto simp: maps_ok_def maps_known_def syms_def n_def Let_def)
  have secs: "safe (\<lambda>(ret, maps', h'). ret = int (length syms) \<and> length maps' = length (map_data L) \<and>
           made malloc_call (calls L) h' \<and>
           copied elf (s_strtabidx S) ?buf (copy_size n) 0 (sort_key st_value syms) (map_data L) maps')
     (load_elf_maps_section env (map_data L) (int i) elf (file_bufs elf) (Some symbols) (s_strtabidx S) (calls L))"
    using i ok assms(1,6) succeeds_malloc [OF assms(1)]
    by (intro load_elf_maps_section_ok) (auto simp: syms_def n_def loader_wf_def)
  have maps: "post (\<lambda>(ret, N). ret = 0 \<and> marks_ok elf N) (load_maps env m None (L\<lparr>map_data := ms, calls := h\<rparr>))"
    for m ms h
  proof -
    let ?L = "L\<lparr>map_data := ms, calls := h\<rparr>"
    have "post (\<lambda>(ret, N). maps_frame ?L N \<and> (ret = 0 \<or> ret = 1)) (load_maps env m None ?L)"
      unfolding load_maps_def by (rule load_maps_from_frame)
    from post_conj [OF load_maps_ok [OF assms(1)] this] show ?thesis
      by (rule post_mono) (use assms(7) in \<open>auto simp: maps_frame_def marks_ok_def\<close>)
  qed
  have mark: "post (\<lambda>(nr, L'). nr \<noteq> None \<and> marks_ok elf L')
      (bind_res (mark_sec i (N\<lparr>map_data_count := m\<rparr>)) (\<lambda>L. Inr (Some m, L)))" if "marks_ok elf N" for N m
    using marks_ok_mark [OF that special] by (auto simp: mark_sec_eq marks_ok_def)
  show ?thesis
    using i(1) assms(5) unfolding setup_maps_def Some Let_def
    by (auto simp: post_bind [of _ "load_elf_maps_section _ _ _ _ _ _ _ _"] post_bind [of _ "load_maps _ _ _ _"]
        intro!: post_mono [OF safe_post [OF secs]] post_mono [OF maps] mark [simplified] cong: if_cong)
qed (use assms in \<open>simp add: setup_maps_def\<close>)

section \<open>The whole load\<close>

text \<open>Sections with the name of a program, and those among them that are not relocations.\<close>

definition prog_named :: "elf \<Rightarrow> nat \<Rightarrow> bool" where
  "prog_named elf i = (case get_sec elf i of Inl _ \<Rightarrow> False | Inr (n, _, _) \<Rightarrow> prog_name n)"

definition loadable :: "elf \<Rightarrow> bool" where
  "loadable elf = (object_ok elf \<and> maps_known elf (scan_of elf) \<and> s_symbols (scan_of elf) \<noteq> None \<and>
     list_all (version_ok elf) (secs elf) \<and>
     list_ex (\<lambda>i. prog_named elf i \<and> \<not> special_sec elf i) (secs elf) \<and>
     list_all (\<lambda>i. case get_sec elf i of Inl _ \<Rightarrow> True
        | Inr (n, _, _) \<Rightarrow> prog_name n \<longrightarrow> attachable n) (secs elf))"

lemma prog_secs_length: "length (prog_secs elf ps is) \<le> length (filter (prog_named elf) is)"
  by (induction "is") (auto simp: prog_named_def split: sum.splits)

lemma load_scanned_ok:
  assumes "succeeds env" "loadable elf" "loader_wf L" "marks_ok elf L"
    and "prog_cnt L + length (filter (prog_named elf) (secs elf)) \<le> MAX_PROGS"
  shows "post (\<lambda>(ret, L'). ret = 0) (load_scanned fuel env elf None (scan_of elf) L)"
proof -
  obtain symbols where sy: "s_symbols (scan_of elf) = Some symbols"
    using assms(2) by (auto simp: loadable_def)
  have len: "e_shnum elf \<le> 128"
    using assms(2) by (simp add: loadable_def object_ok_def)
  obtain k where k: "k \<in> set (secs elf)" "prog_named elf k" "\<not> special_sec elf k"
    using assms(2) by (auto simp: loadable_def list_ex_iff)
  have progs: "post (\<lambda>(ret, L'). ret = 0) (load_progs fuel env elf bufs (secs elf) 1 M)"
    if M: "loader_wf M" "prog_cnt M = prog_cnt L" "marks_ok elf M" for bufs M
  proof (rule load_progs_ok [OF assms(1) M(1)])
    have "\<not> processed_sec M ! k"
      using M(1,3) k len by (auto simp: marks_ok_def loader_wf_def)
    then show "1 = 1 \<longrightarrow> prog_secs elf (processed_sec M) (secs elf) \<noteq> []"
      using k by (auto simp: prog_secs_def filter_empty_conv prog_named_def)
    show "prog_cnt M + length (prog_secs elf (processed_sec M) (secs elf)) \<le> MAX_PROGS"
      using prog_secs_length [of elf "processed_sec M" "secs elf"] assms(5) M(2) by linarith
    show "\<forall>i \<in> set (prog_secs elf (processed_sec M) (secs elf)).
           \<forall>n shdr data. get_sec elf i = Inr (n, shdr, data) \<longrightarrow> attachable n"
    proof (intro ballI allI impI)
      fix i n shdr data
      assume "i \<in> set (prog_secs elf (processed_sec M) (secs elf))" "get_sec elf i = Inr (n, shdr, data)"
      moreover from this have "i \<in> set (secs elf)" "prog_name n"
        by (auto simp: prog_secs_def)
      ultimately show "attachable n"
        using assms(2) by (auto simp: loadable_def list_all_iff dest!: bspec [of _ _ i])
    qed
  qed simp
  have relo: "post (\<lambda>(ret, L'). ret = 0)
      (bind_res (relo_secs elf symbols nr (secs elf) (file_bufs elf, M)) (\<lambda>(bufs, L).
         load_progs fuel env elf bufs (secs elf) 1 L))"
    if M: "loader_wf M" "prog_cnt M = prog_cnt L" "marks_ok elf M" for nr M
  proof -
    have "post (\<lambda>y. relo_frame (file_bufs elf, M) y \<and> marks_ok elf (snd y))
        (relo_secs elf symbols nr (secs elf) (file_bufs elf, M))"
      using M(3) by (intro post_conj relo_secs_post relo_secs_marks) simp
    moreover have "post (\<lambda>(ret, L'). ret = 0) (load_progs fuel env elf b (secs elf) 1 N)"
      if "relo_frame (file_bufs elf, M) (b, N)" "marks_ok elf N" for b N
      using progs relo_frame_wf [OF that(1) M(1)] relo_frame_fields(2) [OF that(1)] that(2) M(2) by simp
    ultimately show ?thesis
      unfolding post_bind by (elim post_mono) auto
  qed
  have maps: "post (\<lambda>(nr, M). nr \<noteq> None \<and> loader_wf M \<and> prog_cnt M = prog_cnt L \<and> marks_ok elf M)
      (setup_maps env elf (file_bufs elf) None (scan_of elf) L)"
    using assms(2) sy
    by (intro post_mono [OF post_conj [OF setup_maps_ok [OF assms(1) _ _ refl sy assms(3,4)] setup_maps_post [OF assms(3)]]])
      (auto simp: loadable_def object_ok_def)
  show ?thesis
    unfolding load_scanned_def sy Let_def option.case post_bind [of _ "setup_maps _ _ _ _ _ _"]
    by (rule post_mono [OF maps]) (auto split: option.splits intro!: relo simp del: One_nat_def)
qed

lemma load_bpf_file_succeeds_post:
  assumes "succeeds env" "elf_version_ok lib" "\<And>fd. elf_begin lib fd = Some elf" "ehdr_ok elf"
    and "loadable elf" "loader_wf L"
    and "prog_cnt L + length (filter (prog_named elf) (secs elf)) \<le> MAX_PROGS"
  shows "post (\<lambda>(ret, L'). ret = 0) (load_bpf_file fuel lib env path L)"
proof -
  let ?fd = "r_ret (env (calls (reset_globals L)) (Open path [O_RDONLY]))"
  have rest: "post (\<lambda>(ret, L'). ret = 0) (bind_res (load_scanned fuel env elf None (scan_of elf) M) (\<lambda>(ret, L).
           let (_, L) = do_call env (Close ?fd) L in Inr (ret, L)))"
    if M: "loader_wf M" "prog_cnt M = prog_cnt L" "marks_ok elf M" for M
    unfolding post_bind using assms(1,5,7) M
    by (intro post_mono [OF load_scanned_ok]) auto
  have scan: "post (\<lambda>(ret, L'). ret = 0) (bind_res (scan_secs elf (file_bufs elf) (secs elf) scan_init M) (\<lambda>(S, L).
            case S of None \<Rightarrow> Inr (1, L)
            | Some S \<Rightarrow>
              bind_res (load_scanned fuel env elf None S L) (\<lambda>(ret, L).
              let (_, L) = do_call env (Close ?fd) L in Inr (ret, L))))"
    if M: "loader_wf M" "prog_cnt M = prog_cnt L" "marks_ok elf M" for M
  proof -
    have *: "post (\<lambda>(S', N). S' = Some (scan_of elf) \<and> loader_wf N \<and> prog_cnt N = prog_cnt L \<and> marks_ok elf N)
        (scan_secs elf (file_bufs elf) (secs elf) scan_init M)"
    proof (rule post_mono [OF post_conj [OF scan_secs_ok [OF M(3)] scan_secs_post]], goal_cases)
      case 1
      then show ?case
        using assms(5) by (simp add: loadable_def list_all_iff)
    next
      case (2 x)
      then show ?case
        using M scan_frame_wf [of M "snd x"] by (cases x) (auto simp: scan_of_def scan_frame_def)
    qed
    show ?thesis
      unfolding post_bind [of _ "scan_secs _ _ _ _ _"]
      using rest by (intro post_mono [OF *]) auto
  qed
  have "loader_wf (reset_globals L)" "prog_cnt (reset_globals L) = prog_cnt L" "marks_ok elf (reset_globals L)"
    using assms(6) loader_wf_reset by (auto simp: reset_globals_def marks_ok_def)
  then have "post (\<lambda>(ret, L'). ret = 0) (bind_res (scan_secs elf (file_bufs elf) (secs elf) scan_init
      ((reset_globals L)\<lparr>calls := h\<rparr>)) (\<lambda>(S, L).
            case S of None \<Rightarrow> Inr (1, L)
            | Some S \<Rightarrow>
              bind_res (load_scanned fuel env elf None S L) (\<lambda>(ret, L).
              let (_, L) = do_call env (Close ?fd) L in Inr (ret, L))))" for h
    by (intro scan) (auto simp: marks_ok_def)
  then show ?thesis
    using assms(1-4)
    by (simp add: load_bpf_file_def do_load_bpf_file_def write_kprobe_events_eq Let_def succeeds_ret)
qed

end
