(* ===== verification/Sample_Object.thy ===== *)
theory Sample_Object
  imports Load_Success
begin

text \<open>
  A small object file and an operating system that answers every call, as concrete values: two
  maps (an array and a tail-call table, listed in the symbol table in the opposite order), a
  probe that loads the tail-call table through one relocation, and a tail-called program
  \<open>kprobe/1\<close>.  The witnesses of the loader's properties use them.
\<close>

definition sample_env :: env where
  "sample_env h c = (case c of
      Read _ _ \<Rightarrow> \<lparr>r_ret = 3, r_errno = 0, r_data = [52, 50, 10], r_attr = None\<rparr>
    | _ \<Rightarrow> \<lparr>r_ret = 7, r_errno = 0, r_data = [], r_attr = None\<rparr>)"

definition sample_def :: "u32 \<Rightarrow> bpf_load_map_def" where
  "sample_def t = \<lparr>m_type = t, m_key_size = 4, m_value_size = 8, m_max_entries = 1,
     m_map_flags = 0, m_inner_map_idx = 0, m_numa_node = 0\<rparr>"

definition sample_buf :: "nat \<Rightarrow> u8 list" where
  "sample_buf i =
     (if i = 1 then [71, 80, 76, 0]
      else if i = 2 then [0, 4, 5, 0]
      else if i = 3 then bytes_of_def (sample_def BPF_MAP_TYPE_ARRAY) @
                         bytes_of_def (sample_def BPF_MAP_TYPE_PROG_ARRAY)
      else if i = 4 then replicate 72 0
      else if i = 5 then concat (map encode_insn (BPF_LD_IMM64 1 0 @ [BPF_EXIT_INSN]))
      else if i = 6 then replicate 16 0
      else if i = 7 then encode_insn BPF_EXIT_INSN
      else [])"

definition sample_shdr :: "nat \<Rightarrow> gelf_shdr" where
  "sample_shdr i = \<lparr>sh_name = i, sh_type = [0, 1, 1, 1, 2, 1, 9, 1] ! i,
     sh_flags = (if i = 5 \<or> i = 7 then 4 else 0), sh_size = 16,
     sh_link = 20, sh_info = 5, sh_entsize = 16\<rparr>"

definition sample_elf :: elf where
  "sample_elf = \<lparr>ehdr_ok = True, e_shnum = 8, e_shstrndx = 9,
     getscn = (\<lambda>i. if 0 < i \<and> i < 8 then Some i else None),
     getshdr = (\<lambda>i. Some (sample_shdr i)),
     strptr = (\<lambda>t i. Some (if t = 9
        then [[], ''license'', ''version'', ''maps'', ''.symtab'', ''kprobe/do_sys_open'',
              ''.relkprobe/do_sys_open'', ''kprobe/1''] ! i
        else if i = 0 then ''arr'' else ''jmp'')),
     strroom = (\<lambda>_ _. 64),
     getdata = (\<lambda>i d. case d of None \<Rightarrow> Some \<lparr>d_buf = i, d_size = length (sample_buf i)\<rparr> | _ \<Rightarrow> None),
     getrel = (\<lambda>d i. if d_buf d = 6 \<and> i = 0 then Some \<lparr>r_offset = 0, r_info = 2 ^ 32\<rparr> else None),
     getsym = (\<lambda>d i. if i = 0 then Some \<lparr>st_name = 0, st_value = 0, st_shndx = 0\<rparr>
        else if i = 1 then Some \<lparr>st_name = 1, st_value = 28, st_shndx = 3\<rparr>
        else if i = 2 then Some \<lparr>st_name = 0, st_value = 0, st_shndx = 3\<rparr> else None),
     file_bufs = sample_buf\<rparr>"

definition sample_lib :: libelf where
  "sample_lib = \<lparr>elf_version_ok = True, elf_begin = (\<lambda>_. Some sample_elf)\<rparr>"

lemma sample_env_ret: "r_ret (sample_env h c) = (case c of Read _ _ \<Rightarrow> 3 | _ \<Rightarrow> 7)"
  by (simp add: sample_env_def split: call.splits)

lemma sample_env_patient: "patient 1 sample_env"
  by (auto simp: patient_def eagain_def sample_env_ret length_Suc_conv split: call.splits)

lemma sample_env_malloc: "malloc_ok sample_env"
  by (simp add: malloc_ok_def sample_env_ret)

lemma sample_get_sec:
  "get_sec sample_elf i = (if 0 < i \<and> i < 8
     then Inr ([[], ''license'', ''version'', ''maps'', ''.symtab'', ''kprobe/do_sys_open'',
                ''.relkprobe/do_sys_open'', ''kprobe/1''] ! i, sample_shdr i,
               \<lparr>d_buf = i, d_size = length (sample_buf i)\<rparr>)
     else Inl 1)"
  by (simp add: get_sec_def sample_elf_def sample_shdr_def)

lemma sample_secs: "[Suc 0..<e_shnum sample_elf] = [Suc 0, 2, 3, 4, 5, 6, 7]"
  by (simp add: sample_elf_def upt_rec)

lemma sample_buf_lengths:
  "length (sample_buf (Suc 0)) = 4" "length (sample_buf 2) = 4" "length (sample_buf 3) = 56"
  "length (sample_buf 4) = 72" "length (sample_buf 5) = 24" "length (sample_buf 6) = 16"
  "length (sample_buf 7) = 8"
  by (simp_all add: sample_buf_def BPF_LD_IMM64_def BPF_LD_IMM64_RAW_def)

lemma sample_scan:
  "scan_of sample_elf = \<lparr>s_maps_shndx = 3, s_data_maps = Some \<lparr>d_buf = 3, d_size = 56\<rparr>,
     s_strtabidx = 20, s_symbols = Some \<lparr>d_buf = 4, d_size = 72\<rparr>\<rparr>"
  by (simp add: scan_of_def sample_secs scan_step_def sample_get_sec sample_shdr_def scan_init_def
      sample_buf_lengths)

lemma sample_syms:
  "map_syms sample_elf \<lparr>d_buf = 4, d_size = 72\<rparr> 3 [0..<3] =
     [\<lparr>st_name = 1, st_value = 28, st_shndx = 3\<rparr>, \<lparr>st_name = 0, st_value = 0, st_shndx = 3\<rparr>]"
  by (simp add: upt_rec sample_elf_def)

lemma sample_sec_ok: "list_all (sec_ok sample_elf) (secs sample_elf)"
  by (simp add: sample_secs sec_ok_def sample_get_sec sample_buf_lengths)
    (simp add: sample_elf_def sample_buf_lengths prog_name_def name_reads_def strncmp_eq_def event_name_ok_def)

lemma sample_maps_ok: "maps_ok sample_elf (scan_of sample_elf)"
proof -
  have b: "file_bufs sample_elf 3 = bytes_of_def (sample_def BPF_MAP_TYPE_ARRAY) @
      bytes_of_def (sample_def BPF_MAP_TYPE_PROG_ARRAY)"
    by (simp add: sample_elf_def sample_buf_def)
  have "defs_in_bounds sample_elf 20 (file_bufs sample_elf 3) 28
     [\<lparr>st_name = 1, st_value = 28, st_shndx = 3\<rparr>, \<lparr>st_name = 0, st_value = 0, st_shndx = 3\<rparr>]"
    by (simp add: defs_in_bounds_def b) (simp add: sample_elf_def)
  moreover have "56 div Suc (Suc 0) = 28"
    by (simp flip: numeral_2_eq_2)
  ultimately show ?thesis
    by (simp add: maps_ok_def sample_scan sample_syms inner_ok_def map_entry_def copy_size_def b Let_def)
      (simp add: sample_def_def)
qed

lemma sample_relo_ok: "list_all (relo_ok sample_elf \<lparr>d_buf = 4, d_size = 72\<rparr>) (secs sample_elf)"
proof -
  have r: "getrel sample_elf \<lparr>d_buf = 6, d_size = 16\<rparr> 0 = Some \<lparr>r_offset = 0, r_info = 2 ^ 32\<rparr>"
    "getsym sample_elf d 1 = Some \<lparr>st_name = 1, st_value = 28, st_shndx = 3\<rparr>"
    "file_bufs sample_elf 5 = sample_buf 5" for d
    by (simp_all add: sample_elf_def)
  have "relos_in_bounds sample_elf \<lparr>d_buf = 6, d_size = 16\<rparr> \<lparr>d_buf = 4, d_size = 72\<rparr> [0] 24"
    by (simp add: relos_in_bounds_def relo_sym_def relo_idx_def r to_int32_def drop_bit_eq_div)
  then show ?thesis
    by (simp add: sample_secs relo_ok_def sample_get_sec sample_shdr_def sample_buf_lengths r
        to_int32_def)
qed

lemma sample_object_ok: "object_ok sample_elf"
  using sample_sec_ok sample_maps_ok sample_relo_ok
  by (simp add: object_ok_def sample_scan) (simp add: sample_elf_def)

lemma sample_env_succeeds: "succeeds sample_env"
  by (simp add: succeeds_def sample_env_ret split: call.splits)

lemma sample_prog_named: "filter (prog_named sample_elf) (secs sample_elf) = [5, 7]"
  by (simp add: sample_secs prog_named_def sample_get_sec prog_name_def strncmp_eq_def)

lemma sample_known: "maps_known sample_elf (scan_of sample_elf)"
proof -
  have "56 div Suc (Suc 0) = 28"
    by (simp flip: numeral_2_eq_2)
  then show ?thesis
    by (simp add: maps_known_def sample_scan sample_syms zero_tails_def copy_size_def Let_def)
qed

lemma sample_loadable: "loadable sample_elf"
proof -
  have "list_all (version_ok sample_elf) (secs sample_elf)"
    by (simp add: sample_secs version_ok_def sample_get_sec sample_buf_lengths)
  moreover have "list_ex (\<lambda>i. prog_named sample_elf i \<and> \<not> special_sec sample_elf i) (secs sample_elf)"
    by (simp add: sample_secs prog_named_def special_sec_def sample_get_sec prog_name_def
        strncmp_eq_def sample_shdr_def)
  moreover have "list_all (\<lambda>i. case get_sec sample_elf i of Inl _ \<Rightarrow> True
        | Inr (n, _, _) \<Rightarrow> prog_name n \<longrightarrow> attachable n) (secs sample_elf)"
    by (simp add: sample_secs sample_get_sec prog_name_def strncmp_eq_def attachable_def
        event_name_ok_def event_prog_type_def is_socket_def is_kprobe_def is_kretprobe_def
        is_tracepoint_def is_sockops_def is_sk_skb_def is_sk_msg_def)
  ultimately show ?thesis
    using sample_object_ok sample_known by (simp add: loadable_def sample_scan)
qed

lemma sample_prog_cnt: "prog_cnt loader_init = 0"
  by (simp add: loader_init_def)

lemma sample_load:
  assumes "succeeds env" and "loader_wf L" and "prog_cnt L = 0"
  shows "\<exists>L'. load_bpf_file 1 sample_lib env path L = Inr (0, L') \<and> loader_wf L'"
proof -
  have "safe (\<lambda>(ret, L'). loader_wf L') (do_load_bpf_file 1 sample_lib env path None L)"
    using assms succeeds_patient [OF assms(1)] succeeds_malloc [OF assms(1)]
    by (intro do_load_bpf_file_total [where n = "Suc 0"])
      (auto simp: fixup_ok_def sample_lib_def sample_object_ok)
  then obtain ret L' where *: "load_bpf_file 1 sample_lib env path L = Inr (ret, L')" "loader_wf L'"
    by (auto simp: load_bpf_file_def dest: safeD)
  moreover have "post (\<lambda>(ret, L'). ret = 0) (load_bpf_file 1 sample_lib env path L)"
    using assms by (intro load_bpf_file_succeeds_post [where elf = sample_elf])
      (auto simp: sample_lib_def sample_loadable sample_prog_named [simplified],
       simp add: sample_elf_def)
  ultimately show ?thesis
    by (auto dest: postD)
qed

end
