(* ===== verification/Loader_Props.thy ===== *)
theory Loader_Props
  imports Sample_Object
begin

text \<open>
  The properties of the loader of object files, each with a concrete instance on the sample
  object where it has assumptions.
\<close>

section \<open>Loading a file\<close>

lemma sample_load_returns:
  "\<exists>ret L'. load_bpf_file 1 sample_lib sample_env ''prog.o'' loader_init = Inr (ret, L')"
proof -
  have "safe (\<lambda>(ret, L'). loader_wf L')
      (do_load_bpf_file 1 sample_lib sample_env ''prog.o'' None loader_init)"
    by (rule do_load_bpf_file_total [where n = 1])
      (auto simp: sample_env_patient [simplified] sample_env_malloc fixup_ok_def loader_wf_init
        sample_lib_def sample_object_ok)
  then show ?thesis
    by (auto simp: load_bpf_file_def dest: safeD)
qed

lemma sample_load_zero:
  "\<exists>L'. load_bpf_file 1 sample_lib sample_env ''prog.o'' loader_init = Inr (0, L')"
proof -
  have "post (\<lambda>(ret, L'). ret = 0) (load_bpf_file 1 sample_lib sample_env ''prog.o'' loader_init)"
    by (rule load_bpf_file_succeeds_post [where elf = sample_elf])
      (auto simp: sample_env_succeeds sample_lib_def sample_loadable loader_wf_init sample_prog_named
        [simplified] sample_prog_cnt, simp add: sample_elf_def)
  then show ?thesis
    using sample_load_returns by (auto dest: postD)
qed

text \<open>
  C1.  Loading an object file that is well formed (at most 128 sections, a license of at most
  128 bytes, between one and 32 map symbols whose definitions lie inside the section, readable
  relocations that name instructions of the program, section names that fit the buffers and are
  followed by enough of the string table for the comparisons with \<open>memcmp\<close>) never accesses an array
  out of bounds, divides by zero, reads an uninitialised variable or loops for ever: the function
  returns, and the global state is well formed again.  Memory can be allocated, and among any \<open>n\<close>
  consecutive program loads the kernel answers one with something other than \<open>EAGAIN\<close>.
\<close>

theorem do_load_bpf_file_safe:
  assumes "patient n env" "n \<le> fuel" "malloc_ok env" "fixup_ok fx" "loader_wf L"
    and "\<And>fd elf. elf_begin lib fd = Some elf \<Longrightarrow> object_ok elf"
  shows "\<exists>ret L'. do_load_bpf_file fuel lib env path fx L = Inr (ret, L') \<and> loader_wf L'"
  using safeD [OF do_load_bpf_file_total [OF assms]] by auto

theorem do_load_bpf_file_safe_witness:
  "\<exists>ret L'. do_load_bpf_file 1 sample_lib sample_env ''prog.o'' None loader_init = Inr (ret, L') \<and>
     loader_wf L'"
  by (rule do_load_bpf_file_safe [where n = 1])
    (auto simp: sample_env_patient [simplified] sample_env_malloc fixup_ok_def loader_wf_init sample_lib_def
      sample_object_ok)

text \<open>
  C7.  Whatever the file contains, a load that returns leaves the global tables with their
  sizes, at most 32 programs and at most 32 maps, and only valid descriptors among the
  programs.
\<close>

theorem load_bpf_file_keeps_wf:
  assumes "loader_wf L" "load_bpf_file fuel lib env path L = Inr (ret, L')"
  shows "loader_wf L'"
  using postD [OF do_load_bpf_file_post [OF assms(1)], where x = "(ret, L')"] assms(2)
  by (auto simp: load_bpf_file_def)

theorem load_bpf_file_keeps_wf_witness:
  "\<exists>ret L'. load_bpf_file 1 sample_lib sample_env ''prog.o'' loader_init = Inr (ret, L') \<and> loader_wf L'"
proof -
  obtain ret L' where "load_bpf_file 1 sample_lib sample_env ''prog.o'' loader_init = Inr (ret, L')"
    using sample_load_returns by blast
  then show ?thesis
    using load_bpf_file_keeps_wf [OF loader_wf_init] by blast
qed

text \<open>
  C2.  When \<open>load_bpf_file\<close> returns 0, the file had at least one program section, every
  unprocessed program section was loaded (the number of programs grew by their number), the
  tables \<open>map_fd\<close> and \<open>map_data\<close> agree on the descriptor of every map of the file, and the last
  call closed the object file.
\<close>

theorem load_bpf_file_zero:
  assumes "loader_wf L" "load_bpf_file fuel lib env path L = Inr (0, L')"
  shows "\<exists>fd elf. elf_begin lib fd = Some elf \<and> last (calls L') = Close fd \<and>
    prog_cnt L' = prog_cnt L + length (prog_secs elf (processed_sec L') [1..<e_shnum elf]) \<and>
    prog_secs elf (processed_sec L') [1..<e_shnum elf] \<noteq> [] \<and>
    (s_data_maps (scan_of elf) \<noteq> None \<longrightarrow>
       (\<forall>i < map_data_count L'. 0 \<le> map_fd L' ! i \<and> map_fd L' ! i = md_fd (map_data L' ! i)))"
  using postD [OF do_load_bpf_file_post [OF assms(1)], where x = "(0, L')"] assms(2)
  by (fastforce simp: load_bpf_file_def loaded_def maps_set_up_def fd_agrees_def)

theorem load_bpf_file_zero_witness:
  "\<exists>L' fd elf. load_bpf_file 1 sample_lib sample_env ''prog.o'' loader_init = Inr (0, L') \<and>
    elf_begin sample_lib fd = Some elf \<and> last (calls L') = Close fd \<and>
    prog_cnt L' = length (prog_secs elf (processed_sec L') [1..<e_shnum elf]) \<and> 0 < prog_cnt L'"
proof -
  obtain L' where L': "load_bpf_file 1 sample_lib sample_env ''prog.o'' loader_init = Inr (0, L')"
    using sample_load_zero by blast
  from load_bpf_file_zero [OF loader_wf_init this] obtain fd elf where
    "elf_begin sample_lib fd = Some elf" "last (calls L') = Close fd"
    "prog_cnt L' = prog_cnt loader_init + length (prog_secs elf (processed_sec L') [1..<e_shnum elf])"
    "prog_secs elf (processed_sec L') [1..<e_shnum elf] \<noteq> []"
    by blast
  then show ?thesis
    using L' by (intro exI [of _ L'] exI [of _ fd] exI [of _ elf]) (simp add: loader_init_def)
qed

text \<open>
  C5.  Progress: if every call to the system succeeds, the file is well formed, it has a program
  section, all its program sections have names that can be attached and they fit into the
  table, then \<open>load_bpf_file\<close> returns 0.
\<close>

theorem load_bpf_file_succeeds:
  assumes "succeeds env" "elf_version_ok lib" "\<And>fd. elf_begin lib fd = Some elf" "ehdr_ok elf"
    and "loadable elf" "loader_wf L" "0 < fuel"
    and "prog_cnt L + length (filter (prog_named elf) [1..<e_shnum elf]) \<le> MAX_PROGS"
  shows "\<exists>L'. load_bpf_file fuel lib env path L = Inr (0, L')"
proof -
  have "safe (\<lambda>(ret, L'). loader_wf L') (do_load_bpf_file fuel lib env path None L)"
    using assms succeeds_patient [OF assms(1)] succeeds_malloc [OF assms(1)]
    by (intro do_load_bpf_file_total [where n = "Suc 0"]) (auto simp: fixup_ok_def loadable_def)
  then obtain ret L' where *: "load_bpf_file fuel lib env path L = Inr (ret, L')"
    by (auto simp: load_bpf_file_def dest: safeD)
  moreover have "post (\<lambda>(ret, L'). ret = 0) (load_bpf_file fuel lib env path L)"
    using assms by (intro load_bpf_file_succeeds_post [where elf = elf]) auto
  ultimately show ?thesis
    by (auto dest: postD)
qed

theorem load_bpf_file_succeeds_witness:
  "\<exists>L'. load_bpf_file 3 sample_lib sample_env ''prog.o'' loader_init = Inr (0, L')"
  by (rule load_bpf_file_succeeds [where elf = sample_elf])
    (auto simp: sample_env_succeeds sample_lib_def sample_loadable loader_wf_init sample_prog_named
      [simplified] sample_prog_cnt, simp add: sample_elf_def)

section \<open>Maps and relocations\<close>

text \<open>
  C4.  Reading the maps section inverts writing it: if the section consists of the bytes of the
  definitions \<open>ds\<close> and the symbol table names each of them once, in any order, the loader finds
  exactly \<open>ds\<close>, in the order of the section, with the right offset and name for each.
\<close>

theorem maps_section_roundtrip:
  assumes "getscn elf shndx = Some scn" "getdata elf scn None = Some data" "malloc_ok env"
    and maps: "length maps = MAX_MAPS"
    and ds: "ds \<noteq> []" "length ds \<le> MAX_MAPS" "bufs (d_buf data) = concat (map bytes_of_def ds)"
      "d_size data = sizeof_map_def * length ds"
    and syms: "syms = map_syms elf symbols shndx [0..<d_size symbols div sizeof_sym]"
      "distinct (map st_value syms)"
      "set (map st_value syms) = set (map (\<lambda>i. word_of_nat (sizeof_map_def * i)) [0..<length ds])"
      "\<forall>s \<in> set syms. strptr elf strtabidx (st_name s) \<noteq> None"
  shows "\<exists>maps' h'. load_elf_maps_section env maps (int shndx) elf bufs (Some symbols) strtabidx h =
           Inr (int (length ds), maps', h') \<and>
         map md_def (take (length ds) maps') = ds \<and>
         (\<forall>i < length ds. md_elf_offset (maps' ! i) = word_of_nat (sizeof_map_def * i)) \<and>
         (\<forall>s \<in> set syms. md_name (maps' ! (unat (st_value s) div sizeof_map_def)) =
            strptr elf strtabidx (st_name s))"
proof -
  let ?ss = "sort_key st_value syms"
  define off :: "nat \<Rightarrow> u64" where "off = (\<lambda>i. word_of_nat (sizeof_map_def * i))"
  have offs: "unat (off i) = sizeof_map_def * i" if "i < length ds" for i
    unfolding off_def unat_of_nat using that ds(2) by simp
  note syms = syms(1,2) syms(3) [folded off_def] syms(4)
  have sorted: "sorted (map off [0..<length ds])" "distinct (map off [0..<length ds])"
    using offs by (auto simp: sorted_iff_nth_mono distinct_map word_le_nat_alt intro!: inj_onI
        dest!: arg_cong [where f = unat])
  have vals: "map st_value ?ss = map off [0..<length ds]"
    using sorted syms(2,3) by (intro sorted_distinct_set_unique) (auto simp: distinct_map)
  then have len: "length syms = length ds"
    by (metis length_map length_sort length_upt minus_nat.diff_0)
  have nth: "st_value (?ss ! i) = off i" if "i < length ds" for i
    using arg_cong [OF vals, of "\<lambda>xs. xs ! i"] that len by simp
  have n: "d_size data div length syms = sizeof_map_def"
    using ds(1,4) len by simp
  have blen: "length (bufs (d_buf data)) = sizeof_map_def * length ds"
    unfolding ds(3) by (rule length_concat_uniform) simp
  have "\<forall>s \<in> set syms. unat (st_value s) + sizeof_map_def \<le> length (bufs (d_buf data))"
  proof
    fix s assume "s \<in> set syms"
    then obtain i where "i < length ds" "st_value s = off i"
      using syms(3) by (metis (no_types, lifting) atLeastLessThan_iff image_eqI imageE list.set_map set_upt)
    then show "unat (st_value s) + sizeof_map_def \<le> length (bufs (d_buf data))"
      using offs blen by auto
  qed
  then have "defs_in_bounds elf strtabidx (bufs (d_buf data)) sizeof_map_def syms"
    using syms(4) by (auto simp: defs_in_bounds_def list_all_iff)
  then have "safe (\<lambda>(ret, maps', h'). ret = int (length syms) \<and> length maps' = length maps \<and>
           made malloc_call h h' \<and>
           copied elf strtabidx (bufs (d_buf data)) (copy_size sizeof_map_def) 0 ?ss maps maps')
     (load_elf_maps_section env maps (int shndx) elf bufs (Some symbols) strtabidx h)"
    using assms(1-3) maps ds(1,2) syms(1) len n
    by (intro load_elf_maps_section_ok) (auto simp: copy_size_def zero_tails_def list_all_iff)
  then obtain maps' h' where r: "load_elf_maps_section env maps (int shndx) elf bufs (Some symbols) strtabidx h
      = Inr (int (length ds), maps', h')" "length maps' = length maps"
    and c: "copied elf strtabidx (bufs (d_buf data)) sizeof_map_def 0 ?ss maps maps'"
    using len by (auto dest!: safeD simp: copy_size_def)
  have entry: "maps' ! i = map_entry elf strtabidx (bufs (d_buf data)) sizeof_map_def (maps ! i) (?ss ! i)"
    if "i < length ds" for i
    using c that len maps ds(2) by (simp add: copied_def)
  have "md_def (maps' ! i) = ds ! i" if "i < length ds" for i
    using entry [OF that] that nth offs
    by (simp add: map_entry_def ds(3) take_drop_concat_uniform)
  then have "map md_def (take (length ds) maps') = ds"
    using r(2) maps ds(2) by (intro nth_equalityI) auto
  moreover have "\<forall>i < length ds. md_elf_offset (maps' ! i) = off i"
    using entry nth by (simp add: map_entry_def)
  moreover have "md_name (maps' ! (unat (st_value s) div sizeof_map_def)) = strptr elf strtabidx (st_name s)"
    if "s \<in> set syms" for s
  proof -
    from that obtain i where i: "i < length ds" "?ss ! i = s"
      using len by (metis in_set_conv_nth length_sort set_sort)
    then show ?thesis
      using entry [OF i(1)] nth [OF i(1)] offs [OF i(1)] by (simp add: map_entry_def)
  qed
  ultimately show ?thesis
    using r(1) unfolding off_def by blast
qed

theorem maps_section_roundtrip_witness:
  "\<exists>maps' h'. load_elf_maps_section sample_env (map_data loader_init) (int 3) sample_elf (file_bufs sample_elf)
       (Some \<lparr>d_buf = 4, d_size = 72\<rparr>) 20 [] = Inr (2, maps', h') \<and>
     map md_def (take 2 maps') = [sample_def BPF_MAP_TYPE_ARRAY, sample_def BPF_MAP_TYPE_PROG_ARRAY]"
proof -
  let ?ds = "[sample_def BPF_MAP_TYPE_ARRAY, sample_def BPF_MAP_TYPE_PROG_ARRAY]"
  have "\<exists>maps' h'. load_elf_maps_section sample_env (map_data loader_init) (int 3) sample_elf
         (file_bufs sample_elf) (Some \<lparr>d_buf = 4, d_size = 72\<rparr>) 20 [] = Inr (int (length ?ds), maps', h') \<and>
       map md_def (take (length ?ds) maps') = ?ds \<and>
       (\<forall>i < length ?ds. md_elf_offset (maps' ! i) = word_of_nat (sizeof_map_def * i)) \<and>
       (\<forall>s \<in> set (map_syms sample_elf \<lparr>d_buf = 4, d_size = 72\<rparr> 3 [0..<3]).
          md_name (maps' ! (unat (st_value s) div sizeof_map_def)) = strptr sample_elf 20 (st_name s))"
    by (rule maps_section_roundtrip [where scn = 3 and data = "\<lparr>d_buf = 3, d_size = 56\<rparr>"])
      (simp_all add: sample_env_malloc sample_syms loader_init_def, simp_all add: sample_elf_def sample_buf_def
        sample_buf_lengths upt_rec insert_commute)
  then show ?thesis
    by (auto simp: numeral_2_eq_2)
qed

lemma sx64_fd:
  assumes "0 \<le> v" "v < 2 ^ 31"
  shows "lo32 (drop_bit 32 (sx64 (word_of_int v))) = 0" "lo32 (sx64 (word_of_int v)) = word_of_int v"
proof -
  have "sint (word_of_int v :: u32) = v"
    using to_int32_id [of v] assms by (simp add: to_int32_def)
  then have "sx64 (word_of_int v) = word_of_int v"
    by (simp add: scast_eq)
  moreover have "drop_bit 32 (word_of_int v :: u64) = 0"
    using assms
    by (intro word_uint_eqI, subst unsigned_drop_bit_eq)
      (simp add: drop_bit_eq_div take_bit_int_eq_self uint_word_of_int)
  moreover have "lo32 (word_of_int v :: u64) = word_of_int v"
    by (rule bit_word_eqI) (simp add: bit_simps)
  ultimately show "lo32 (drop_bit 32 (sx64 (word_of_int v))) = 0"
    "lo32 (sx64 (word_of_int v)) = word_of_int v"
    by simp_all
qed

text \<open>
  C3.  A relocated program is the program written with the map macros: where the compiler
  emitted a 64-bit load of an arbitrary constant and every relocation was applied, the two
  instruction slots are those of \<open>BPF_LD_MAP_FD\<close> with the descriptor of a map whose offset is
  the value of a symbol of a relocation for this instruction; all instructions that no
  relocation names are unchanged.
\<close>

theorem relocation_is_ld_map_fd:
  assumes "parse_relo_and_apply elf data symbols shdr insn maps nr_maps = Inr (0, insn')"
    and "nrels = nat (to_int32 (uint (sh_size shdr div sh_entsize shdr)))"
    and "k \<in> relo_targets elf data [0..<nrels]" "Suc k \<notin> relo_targets elf data [0..<nrels]"
    and "get_insn insn k = Inr (BPF_LD_IMM64 dst c ! 0)" "get_insn insn (Suc k) = Inr (BPF_LD_IMM64 dst 0 ! 1)"
    and "\<forall>m \<in> set maps. 0 \<le> md_fd m \<and> md_fd m < 2 ^ 31"
  shows "(\<exists>m \<in> set maps. \<exists>i < nrels. relo_idx elf data i = Some k \<and>
            map_option st_value (relo_sym elf data symbols i) = Some (md_elf_offset m) \<and>
            get_insn insn' k = Inr (BPF_LD_MAP_FD dst (word_of_int (md_fd m)) ! 0) \<and>
            get_insn insn' (Suc k) = Inr (BPF_LD_MAP_FD dst (word_of_int (md_fd m)) ! 1)) \<and>
         (\<forall>j. j \<notin> relo_targets elf data [0..<nrels] \<longrightarrow> get_insn insn' j = get_insn insn j) \<and>
         length insn' = length insn"
proof -
  have eff: "relo_effect elf data symbols maps nr_maps [0..<nrels] insn (0, insn')"
    using postD [OF parse_relo_and_apply_post assms(1)] assms(2) by simp
  then obtain i m x x' where i: "i < nrels" "relo_idx elf data i = Some k"
    "relo_map elf data symbols maps nr_maps i = Some m"
    and x: "get_insn insn k = Inr x" "get_insn insn' k = Inr x'" "relocated x m x'"
    using assms(3) by (fastforce simp: relo_effect_def)
  obtain s where s: "relo_sym elf data symbols i = Some s" "find_map maps nr_maps (st_value s) = Some m"
    using i(3) by (auto simp: relo_map_def relo_sym_def bind_eq_Some_conv)
  then have m: "m \<in> set maps" "md_elf_offset m = st_value s"
    using find_map_Some by fastforce+
  have fd: "0 \<le> md_fd m" "md_fd m < 2 ^ 31"
    using assms(7) m(1) by auto
  have w: "lo32 (drop_bit 32 (sx64 (word_of_int (md_fd m)))) = 0"
    "lo32 (sx64 (word_of_int (md_fd m))) = word_of_int (md_fd m)"
    using sx64_fd [OF fd] by auto
  have "get_insn insn' (Suc k) = get_insn insn (Suc k)"
    using eff assms(4) by (simp add: relo_effect_def)
  then have "get_insn insn' k = Inr (BPF_LD_MAP_FD dst (word_of_int (md_fd m)) ! 0)"
    "get_insn insn' (Suc k) = Inr (BPF_LD_MAP_FD dst (word_of_int (md_fd m)) ! 1)"
    using x assms(5,6) w
    by (auto simp: relocated_def BPF_LD_IMM64_def BPF_LD_MAP_FD_def BPF_LD_IMM64_RAW_def)
  then show ?thesis
    using i(1,2) s(1) m eff by (auto simp: relo_effect_def intro!: bexI [of _ m] exI [of _ i])
qed

theorem relocation_is_ld_map_fd_witness:
  "\<exists>insn'. parse_relo_and_apply sample_elf \<lparr>d_buf = 6, d_size = 16\<rparr> \<lparr>d_buf = 4, d_size = 72\<rparr> (sample_shdr 6)
      (sample_buf 5) [map_data_zero\<lparr>md_fd := 9, md_elf_offset := 28\<rparr>] 1 = Inr (0, insn') \<and>
     get_insn insn' 0 = Inr (BPF_LD_MAP_FD 1 9 ! 0)"
proof -
  let ?d = "\<lparr>d_buf = 6, d_size = 16\<rparr>" and ?sy = "\<lparr>d_buf = 4, d_size = 72\<rparr>"
  let ?m = "map_data_zero\<lparr>md_fd := 9, md_elf_offset := 28\<rparr>"
  have rel: "relo_idx sample_elf ?d 0 = Some 0"
    "relo_sym sample_elf ?d ?sy 0 = Some \<lparr>st_name = 1, st_value = 28, st_shndx = 3\<rparr>"
    "relo_map sample_elf ?d ?sy [?m] 1 0 = Some ?m"
    by (simp_all add: relo_idx_def relo_sym_def relo_map_def sample_elf_def to_int32_def drop_bit_eq_div)
  have insns: "get_insn (sample_buf 5) 0 = Inr (BPF_LD_IMM64 1 0 ! 0)"
    "get_insn (sample_buf 5) (Suc 0) = Inr (BPF_LD_IMM64 1 0 ! 1)"
    by (simp_all add: sample_buf_def get_insn_def slice_res_def BPF_LD_IMM64_def BPF_LD_IMM64_RAW_def)
  have "apply_relos sample_elf ?d ?sy [?m] 1 [0] (sample_buf 5) = Inr (0, put_insn (sample_buf 5) 0
      ((BPF_LD_IMM64 1 0 ! 0)\<lparr>src_reg := BPF_PSEUDO_MAP_FD, imm := word_of_int 9\<rparr>))"
    unfolding apply_relos_Cons rel insns option.case bind_res_simps
    by (simp add: BPF_LD_IMM64_def BPF_LD_IMM64_RAW_def)
  then obtain insn' where run: "parse_relo_and_apply sample_elf ?d ?sy (sample_shdr 6) (sample_buf 5) [?m] 1 = Inr (0, insn')"
    by (simp add: parse_relo_and_apply_def sample_shdr_def to_int32_def)
  have t: "relo_targets sample_elf ?d [0..<1] = {0}"
    using rel by (auto simp: relo_targets_def)
  from relocation_is_ld_map_fd [OF run refl _ _ insns]
  have "get_insn insn' 0 = Inr (BPF_LD_MAP_FD 1 9 ! 0)"
    using t by (simp add: sample_shdr_def to_int32_def map_data_zero_def)
  then show ?thesis
    using run by blast
qed

text \<open>
  C8.  Creating the maps without a fixup function: on success every map has a valid descriptor
  on which \<open>map_fd\<close> and \<open>map_data\<close> agree, the definitions are untouched, and if there are
  tail-call tables, \<open>prog_array_fd\<close> is the descriptor of the last one.
\<close>

theorem load_maps_tables:
  assumes "load_maps env n None L = Inr (0, L')"
  shows "(\<forall>i < n. map_fd L' ! i = md_fd (map_data L' ! i) \<and> 0 \<le> map_fd L' ! i \<and>
            md_def (map_data L' ! i) = md_def (map_data L ! i)) \<and>
         (\<forall>i < n. m_type (md_def (map_data L ! i)) = BPF_MAP_TYPE_PROG_ARRAY \<and>
            (\<forall>j < n. i < j \<longrightarrow> m_type (md_def (map_data L ! j)) \<noteq> BPF_MAP_TYPE_PROG_ARRAY) \<longrightarrow>
            prog_array_fd L' = map_fd L' ! i)"
proof -
  have inv: "maps_inv L n L'"
    using postD [OF load_maps_inv assms] by simp
  have defs: "md_def (map_data L' ! j) = md_def (map_data L ! j)" for j
  proof -
    have "same_def (map_data L ! j) (map_data L' ! j)"
      using inv by (simp add: maps_inv_def)
    then show ?thesis
      unfolding same_def_def by (metis bpf_map_data.select_convs(4) bpf_map_data.surjective bpf_map_data.update_convs(1))
  qed
  have "prog_array_fd L' = map_fd L' ! i"
    if i: "i < n" "m_type (md_def (map_data L ! i)) = BPF_MAP_TYPE_PROG_ARRAY"
      "\<forall>j < n. i < j \<longrightarrow> m_type (md_def (map_data L ! j)) \<noteq> BPF_MAP_TYPE_PROG_ARRAY" for i
  proof -
    from inv i(1,2) obtain j where "j < n" "i \<le> j" "m_type (md_def (map_data L' ! j)) = BPF_MAP_TYPE_PROG_ARRAY"
      "prog_array_fd L' = map_fd L' ! j"
      unfolding maps_inv_def by (metis defs)
    then show ?thesis
      using i(3) defs [of j] by (cases "i = j") auto
  qed
  then show ?thesis
    using inv defs by (auto simp: maps_inv_def fd_agrees_def)
qed

theorem load_maps_tables_witness:
  "\<exists>L'. load_maps sample_env 1 None (loader_init\<lparr>map_data := [map_data_zero\<lparr>md_def := sample_def BPF_MAP_TYPE_PROG_ARRAY\<rparr>]\<rparr>)
     = Inr (0, L') \<and> prog_array_fd L' = map_fd L' ! 0"
proof -
  let ?L = "loader_init\<lparr>map_data := [map_data_zero\<lparr>md_def := sample_def BPF_MAP_TYPE_PROG_ARRAY\<rparr>]\<rparr>"
  obtain L' where run: "load_maps sample_env 1 None ?L = Inr (0, L')"
    by (simp add: load_maps_def load_map_def nth_res_def upd_res_def create_map_eq inner_ok_def
        sample_def_def loader_init_def sample_env_ret def_request_def map_request_def Let_def)
  from load_maps_tables [OF run] have "prog_array_fd L' = map_fd L' ! 0"
    by (simp add: sample_def_def)
  then show ?thesis
    using run by blast
qed

lemma copy_map_defs_rejects:
  assumes "malloc_ok env" "0 \<le> sz_copy" "sz_copy \<le> sz_elf"
    and "defs_in_bounds elf strtabidx buf (nat sz_elf) syms"
    and "\<not> zero_tails buf (nat sz_copy) (nat (sz_elf - sz_copy)) syms"
  shows "post (\<lambda>(ret, _). ret = Some (- EFBIG))
     (copy_map_defs env elf strtabidx buf sz_elf sz_copy True (enumerate k syms) maps h)"
  using assms(4,5)
proof (induction syms arbitrary: k maps h)
  case (Cons s syms)
  from Cons.prems(1) obtain name where name: "strptr elf strtabidx (st_name s) = Some name"
    and b: "unat (st_value s) + nat sz_elf \<le> length buf"
    and rest: "defs_in_bounds elf strtabidx buf (nat sz_elf) syms"
    by (auto simp: defs_in_bounds_def)
  have e: "unat (st_value s) + nat sz_copy + nat (sz_elf - sz_copy) \<le> length buf"
    using b assms(2,3) by linarith
  have "post (\<lambda>(ret, _). ret = Some (- EFBIG))
      (copy_map_defs env elf strtabidx buf sz_elf sz_copy True (enumerate (Suc k) syms) ms h')"
    if "\<not> zero_tails buf (nat sz_copy) (nat (sz_elf - sz_copy)) syms" for ms h'
    using rest that by (rule Cons.IH)
  then show ?case
    using Cons.prems assms(1,2) name e
    by (auto simp: wp sys_def Let_def nonzero_tail_spec malloc_ok_def zero_tails_def list_all_iff)
qed (simp add: zero_tails_def)

text \<open>
  C12.  Definitions that are longer than this loader knows, for any number of maps at any offsets of
  the section: when one of them asks for a newer feature (a byte other than zero behind the known
  part of the definition of any symbol) the section is rejected with \<open>-EFBIG\<close>, and when none does
  the definitions are accepted.
\<close>

theorem newer_map_definition_rejected:
  assumes "getscn elf shndx = Some scn" "getdata elf scn None = Some data" "malloc_ok env"
    and "syms = map_syms elf symbols shndx [0..<d_size symbols div sizeof_sym]"
    and "syms \<noteq> []" "length syms \<le> MAX_MAPS" "length maps = MAX_MAPS"
    and "n = d_size data div length syms" "sizeof_map_def < n" "n < 2 ^ 31"
    and "\<forall>s \<in> set syms. strptr elf strtabidx (st_name s) \<noteq> None \<and>
           unat (st_value s) + n \<le> length (bufs (d_buf data))"
  shows "\<exists>maps' h'. load_elf_maps_section env maps (int shndx) elf bufs (Some symbols) strtabidx h =
    Inr (if \<exists>s \<in> set syms. \<exists>j. sizeof_map_def \<le> j \<and> j < n \<and> bufs (d_buf data) ! (unat (st_value s) + j) \<noteq> 0
         then - EFBIG else int (length syms), maps', h')"
proof -
  let ?buf = "bufs (d_buf data)"
  have b: "defs_in_bounds elf strtabidx ?buf n syms"
    using assms(11) by (simp add: defs_in_bounds_def list_all_iff)
  have tail: "list_all (\<lambda>b. b = 0) (take (n - 28) (drop (unat (st_value s) + 28) ?buf)) \<longleftrightarrow>
      (\<forall>j. 28 \<le> j \<and> j < n \<longrightarrow> ?buf ! (unat (st_value s) + j) = 0)" if "s \<in> set syms" for s
  proof -
    have "unat (st_value s) + n \<le> length ?buf"
      using assms(11) that by blast
    then have "list_all (\<lambda>b. b = 0) (take (n - 28) (drop (unat (st_value s) + 28) ?buf)) \<longleftrightarrow>
        (\<forall>i < n - 28. ?buf ! (unat (st_value s) + (28 + i)) = 0)"
      using assms(9) by (auto simp: list_all_length add.assoc)
    also have "\<dots> \<longleftrightarrow> (\<forall>j. 28 \<le> j \<and> j < n \<longrightarrow> ?buf ! (unat (st_value s) + j) = 0)"
      by (metis add_less_imp_less_left le_add1 le_add_diff_inverse less_diff_conv add.commute)
    finally show ?thesis .
  qed
  have tails: "zero_tails ?buf 28 (n - 28) syms \<longleftrightarrow>
      \<not> (\<exists>s \<in> set syms. \<exists>j. 28 \<le> j \<and> j < n \<and> ?buf ! (unat (st_value s) + j) \<noteq> 0)"
    using tail by (auto simp: zero_tails_def list_all_iff [of _ syms])
  have size: "copy_size n = 28"
    using assms(9) by (simp add: copy_size_def)
  have len: "MAX_MAPS \<le> length maps"
    using assms(7) by simp
  show ?thesis
  proof (cases "zero_tails ?buf 28 (n - 28) syms")
    case True
    then show ?thesis
      using safeD [OF load_elf_maps_section_ok [where h = h and bufs = bufs, OF assms(1-6) len assms(8,10) b]] size tails by fastforce
  next
    case False
    let ?c = "copy_map_defs env elf strtabidx ?buf (int n) (int (copy_size n)) (sizeof_map_def < n)
      (enumerate 0 (sort_key st_value syms)) maps (h @ [Malloc ((MAX_MAPS + 1) * sizeof_sym)])"
    have "post (\<lambda>(ret, _). ret = Some (- EFBIG)) ?c"
      using False b assms(3,9) size
      by (simp, intro copy_map_defs_rejects) (auto simp: defs_in_bounds_def zero_tails_def list_all_iff nat_diff_distrib)
    moreover have "safe (\<lambda>_. True) ?c"
      using b assms(6,7,9) size by (intro copy_map_defs_safe) (auto simp: defs_in_bounds_def list_all_iff)
    ultimately obtain maps' h' where "?c = Inr (Some (- EFBIG), maps', h')"
      by (auto dest!: safeD postD)
    then show ?thesis
      using False tails unfolding load_elf_maps_section_eq [OF assms(1-6,8,10)] by auto
  qed
qed

theorem newer_map_definition_rejected_witness:
  "\<exists>maps' h'. load_elf_maps_section sample_env (map_data loader_init) (int 3)
      (sample_elf\<lparr>getdata := \<lambda>i d. Some \<lparr>d_buf = 3, d_size = 58\<rparr>,
                  getsym := \<lambda>d i. if i = 1 then Some \<lparr>st_name = 1, st_value = 29, st_shndx = 3\<rparr>
                    else if i = 2 then Some \<lparr>st_name = 0, st_value = 0, st_shndx = 3\<rparr> else None\<rparr>)
      (\<lambda>_. replicate 57 0 @ [1]) (Some \<lparr>d_buf = 4, d_size = 72\<rparr>) 20 [] = Inr (- EFBIG, maps', h')"
proof -
  let ?elf = "sample_elf\<lparr>getdata := \<lambda>i d. Some \<lparr>d_buf = 3, d_size = 58\<rparr>,
                  getsym := \<lambda>d i. if i = 1 then Some \<lparr>st_name = 1, st_value = 29, st_shndx = 3\<rparr>
                    else if i = 2 then Some \<lparr>st_name = 0, st_value = 0, st_shndx = 3\<rparr> else None\<rparr>"
  let ?syms = "[\<lparr>st_name = 1, st_value = 29, st_shndx = 3\<rparr>, \<lparr>st_name = 0, st_value = 0, st_shndx = 3\<rparr>]"
  let ?new = "\<exists>s \<in> set ?syms. \<exists>j. sizeof_map_def \<le> j \<and> j < 29 \<and> (replicate 57 0 @ [1 :: u8]) ! (unat (st_value s) + j) \<noteq> 0"
  have new: ?new
    by (intro bexI [of _ "hd ?syms"] exI [of _ 28]) (simp_all add: nth_append)
  have "\<exists>maps' h'. load_elf_maps_section sample_env (map_data loader_init) (int 3) ?elf
      (\<lambda>_. replicate 57 0 @ [1]) (Some \<lparr>d_buf = 4, d_size = 72\<rparr>) 20 [] =
      Inr (if ?new then - EFBIG else int (length ?syms), maps', h')"
    by (rule newer_map_definition_rejected [where scn = 3 and data = "\<lparr>d_buf = 3, d_size = 58\<rparr>"
          and bufs = "\<lambda>_. replicate 57 0 @ [1]" and n = 29])
      (simp_all add: sample_env_malloc upt_rec loader_init_def, simp_all add: sample_elf_def flip: numeral_2_eq_2)
  then show ?thesis
    unfolding if_P [OF new] .
qed

section \<open>Attaching programs\<close>

text \<open>
  The calls that connect program \<open>fd\<close> to the event whose number is in the file \<open>path\<close>, after the
  calls \<open>h\<close>, with the descriptor of the event: every argument that the system provides is the
  answer to an earlier call.
\<close>

definition event_calls :: "env \<Rightarrow> hist \<Rightarrow> string \<Rightarrow> int \<Rightarrow> int \<times> call list" where
  "event_calls env h path fd =
     (let e = r_ret (env h (Open path [O_RDONLY]));
          r = env (h @ [Open path [O_RDONLY]]) (Read e 256);
          id = atoi (string_of_bytes (take (nat (r_ret r)) (r_data r)));
          cs = [Open path [O_RDONLY], Read e 256, Close e];
          open_event = Perf_event_open (tracing_attr\<lparr>pe_config := word_of_int id\<rparr>) (- 1) 0 (- 1) 0;
          p = r_ret (env (h @ cs) open_event)
      in (p, cs @ [open_event, Ioctl p PERF_EVENT_IOC_ENABLE 0, Ioctl p PERF_EVENT_IOC_SET_BPF fd]))"

lemma attach_perf_event_trace:
  assumes "succeeds env" "0 < prog_cnt L" "prog_cnt L \<le> length (event_fd L)"
    and "event_calls env (calls L) path fd = (p, cs)"
  shows "attach_perf_event env path fd L =
    Inr (0, L\<lparr>event_fd := (event_fd L)[prog_cnt L - 1 := p], calls := calls L @ cs\<rparr>)"
  using assms
  by (auto simp: event_calls_def attach_perf_event_def perf_event_open_def upd_res_def Let_def succeeds_ret)

text \<open>
  C6.  Attaching a probe to a kernel function, when every call succeeds: the program is loaded
  once, the probe is registered under the function's name, its number is read from the tracing
  directory, a perf event with exactly the number that was read is opened and enabled, and only
  then connected to the program; each descriptor in the calls is the one that the system returned
  for it, and those of the program and of the event are stored under the next program number.
\<close>

theorem load_kprobe_trace:
  assumes "succeeds env" "0 < fuel" "loader_wf L" "prog_cnt L < MAX_PROGS"
    and ev: "ev \<noteq> []" "\<not> isdigit (hd ev)" "\<not> prefix ''sys_'' ev" "length ev \<le> 126"
  shows "\<exists>L' attr h fd k e id p.
    load_and_attach fuel env (''kprobe/'' @ ev) prog sz L = Inr (0, L') \<and>
    h = calls L @
      [Bpf BPF_PROG_LOAD (Prog_load attr),
       Open ''/sys/kernel/debug/tracing/kprobe_events'' [O_WRONLY, O_APPEND],
       Write k (''p:'' @ ev @ '' '' @ ev), Close k] \<and>
    calls L' = h @
      [Open (DEBUGFS @ ''events/kprobes/'' @ ev @ ''/id'') [O_RDONLY], Read e 256, Close e,
       Perf_event_open (tracing_attr\<lparr>pe_config := word_of_int (atoi (string_of_bytes id))\<rparr>) (- 1) 0 (- 1) 0,
       Ioctl p PERF_EVENT_IOC_ENABLE 0, Ioctl p PERF_EVENT_IOC_SET_BPF fd] \<and>
    fd = r_ret (env (calls L) (Bpf BPF_PROG_LOAD (Prog_load attr))) \<and>
    k = r_ret (env (calls L @ [Bpf BPF_PROG_LOAD (Prog_load attr)])
          (Open ''/sys/kernel/debug/tracing/kprobe_events'' [O_WRONLY, O_APPEND])) \<and>
    e = r_ret (env h (Open (DEBUGFS @ ''events/kprobes/'' @ ev @ ''/id'') [O_RDONLY])) \<and>
    id = (let r = env (h @ [Open (DEBUGFS @ ''events/kprobes/'' @ ev @ ''/id'') [O_RDONLY]]) (Read e 256)
          in take (nat (r_ret r)) (r_data r)) \<and>
    p = r_ret (env (h @ [Open (DEBUGFS @ ''events/kprobes/'' @ ev @ ''/id'') [O_RDONLY], Read e 256, Close e])
          (Perf_event_open (tracing_attr\<lparr>pe_config := word_of_int (atoi (string_of_bytes id))\<rparr>) (- 1) 0 (- 1) 0)) \<and>
    a_prog_type attr = BPF_PROG_TYPE_KPROBE \<and> a_insns attr = prog \<and> a_license attr = license L \<and>
    prog_cnt L' = prog_cnt L + 1 \<and> prog_fd L' ! prog_cnt L = fd \<and> event_fd L' ! prog_cnt L = p"
proof -
  let ?ev = "''kprobe/'' @ ev"
  have kinds: "event_prog_type ?ev = Some BPF_PROG_TYPE_KPROBE" "is_kprobe ?ev" "\<not> is_raw_tracepoint ?ev"
    "\<not> (is_xdp ?ev \<or> is_perf_event ?ev \<or> is_cgroup_skb ?ev \<or> is_cgroup_sk ?ev)"
    "\<not> (is_socket ?ev \<or> is_sockops ?ev \<or> is_sk_skb ?ev \<or> is_sk_msg ?ev)"
    by (simp_all add: event_prog_type_def is_socket_def is_kprobe_def is_kretprobe_def is_tracepoint_def
        is_raw_tracepoint_def is_xdp_def is_perf_event_def is_cgroup_skb_def is_cgroup_sk_def
        is_sockops_def is_sk_skb_def is_sk_msg_def strncmp_eq_def)
  obtain c cs where c: "ev = c # cs" "\<not> isdigit c"
    using ev(1,2) by (cases ev) auto
  have "\<not> strncmp_eq ev ''sys_'' 4"
    using ev(3) strncmp_eq_prefix [of ev "''sys_''"] by (simp add: eval_nat_numeral)
  then have reg: "register_kprobe env True ev M =
      (let o1 = Open ''/sys/kernel/debug/tracing/kprobe_events'' [O_WRONLY, O_APPEND];
           k = r_ret (env (calls M) o1)
       in (Some [], M\<lparr>calls := calls M @ [o1, Write k (''p:'' @ ev @ '' '' @ ev), Close k]\<rparr>))" for M
    using ev(4) assms(1)
    by (simp add: register_kprobe_def snprintf_buf_id write_kprobe_events_eq Let_def succeeds_ret)
  obtain f where f: "fuel = Suc f"
    using assms(2) by (cases fuel) auto
  define attr where "attr = \<lparr>a_prog_type = BPF_PROG_TYPE_KPROBE, a_insn_cnt = ucast (sx64 sz div 8), a_insns = prog,
       a_license = license L, a_log_level = 0, a_log_size = 0, a_log_buf = False,
       a_kern_version = kern_version L, a_prog_flags = 0, a_prog_name = [], a_prog_ifindex = 0,
       a_expected_attach_type = 0, a_prog_btf_fd = 0, a_func_info_rec_size = 0, a_func_info = [],
       a_func_info_cnt = 0, a_line_info_rec_size = 0, a_line_info = [], a_line_info_cnt = 0\<rparr>"
  define r where "r = env (calls L) (Bpf BPF_PROG_LOAD (Prog_load attr))"
  have load: "bpf_load_program fuel env BPF_PROG_TYPE_KPROBE prog (sx64 sz div 8) (license L)
      (kern_version L) True BPF_LOG_BUF_SIZE (calls L) =
      Inr (r_ret r, load_log (attr_after attr r) r, calls L @ [Bpf BPF_PROG_LOAD (Prog_load attr)])"
    unfolding bpf_load_program_eq attr_def [symmetric] f using assms(1)
    by (simp add: sys_bpf_def sys_def Let_def succeeds_ret r_def)
  have len: "length (DEBUGFS @ ''events/kprobes/'' @ ev @ ''/id'') < sizeof_buf"
    using ev(4) by simp
  have path: "strcats_res sizeof_buf [] [DEBUGFS, ''events/kprobes/'', [], ev, ''/id''] =
      Inr (DEBUGFS @ ''events/kprobes/'' @ ev @ ''/id'')"
    using len by (subst strcats_res_Inr) auto
  have att: "attach env ?ev fd M = attach_perf_event env (DEBUGFS @ ''events/kprobes/'' @ ev @ ''/id'') fd
      (snd (register_kprobe env True ev M))" for fd M
  proof -
    have d: "drop (if is_kprobe ?ev then 7 else 10) ?ev = ev"
      using kinds(2) by simp
    have a: "attach env ?ev fd M = attach_kprobe env ?ev fd M"
      using kinds by (simp add: attach_def)
    have "attach env ?ev fd M = (case register_kprobe env True ev M of
        (None, L) \<Rightarrow> Inr (- 1, L)
      | (Some event_prefix, L) \<Rightarrow>
          bind_res (strcats_res sizeof_buf [] [DEBUGFS, ''events/kprobes/'', event_prefix, ev, ''/id''])
            (\<lambda>buf. attach_perf_event env buf fd L))"
      unfolding a attach_kprobe_def Let_def d using kinds(2) c by (simp del: strcats_res.simps)
    also have "\<dots> = attach_perf_event env (DEBUGFS @ ''events/kprobes/'' @ ev @ ''/id'') fd
        (snd (register_kprobe env True ev M))"
      unfolding reg Let_def prod.case option.case path bind_res_simps snd_conv ..
    finally show ?thesis .
  qed
  define M where "M = L\<lparr>bpf_log_buf := (case load_log (attr_after attr r) r of None \<Rightarrow> bpf_log_buf L | Some t \<Rightarrow> t),
      calls := calls L @ [Bpf BPF_PROG_LOAD (Prog_load attr)],
      prog_fd := (prog_fd L)[prog_cnt L := r_ret r], prog_cnt := prog_cnt L + 1\<rparr>"
  have "load_and_attach fuel env ?ev prog sz L = attach env ?ev (r_ret r) M"
    using assms(3,4) load kinds(1) succeeds_ret [OF assms(1)]
    by (simp add: load_and_attach_def upd_res_def loader_wf_def Let_def M_def r_def)
  moreover define N where "N = snd (register_kprobe env True ev M)"
  define k where "k = r_ret (env (calls M) (Open ''/sys/kernel/debug/tracing/kprobe_events'' [O_WRONLY, O_APPEND]))"
  have N: "calls N = calls L @ [Bpf BPF_PROG_LOAD (Prog_load attr),
       Open ''/sys/kernel/debug/tracing/kprobe_events'' [O_WRONLY, O_APPEND],
       Write k (''p:'' @ ev @ '' '' @ ev), Close k]"
    "prog_cnt N = prog_cnt L + 1" "prog_fd N = (prog_fd L)[prog_cnt L := r_ret r]"
    "event_fd N = event_fd L"
    unfolding N_def reg Let_def k_def by (simp_all add: M_def)
  moreover have len: "length (event_fd L) = MAX_PROGS" "length (prog_fd L) = MAX_PROGS"
    using assms(3) by (simp_all add: loader_wf_def)
  moreover have "0 < prog_cnt N" "prog_cnt N \<le> length (event_fd N)"
    using N(2,4) len(1) assms(4) by simp_all
  moreover obtain p cs where ev_calls: "event_calls env (calls N) (DEBUGFS @ ''events/kprobes/'' @ ev @ ''/id'') (r_ret r) = (p, cs)"
    by (cases "event_calls env (calls N) (DEBUGFS @ ''events/kprobes/'' @ ev @ ''/id'') (r_ret r)")
  ultimately have run: "load_and_attach fuel env ?ev prog sz L =
      Inr (0, N\<lparr>event_fd := (event_fd L)[prog_cnt L := p], calls := calls N @ cs\<rparr>)"
    using att [of "r_ret r" M, folded N_def] attach_perf_event_trace [OF assms(1) _ _ ev_calls] by simp
  have k: "k = r_ret (env (calls L @ [Bpf BPF_PROG_LOAD (Prog_load attr)])
      (Open ''/sys/kernel/debug/tracing/kprobe_events'' [O_WRONLY, O_APPEND]))"
    by (simp add: k_def M_def)
  show ?thesis
    by (rule exI [of _ "N\<lparr>event_fd := (event_fd L)[prog_cnt L := p], calls := calls N @ cs\<rparr>"], rule exI [of _ attr],
        rule exI [of _ "calls N"], rule exI [of _ "r_ret r"], rule exI [of _ k])
      (use run k N len assms(4) ev_calls in \<open>auto simp: event_calls_def Let_def attr_def r_def\<close>)
qed

theorem load_kprobe_trace_witness:
  "\<exists>L' attr. load_and_attach 1 sample_env (''kprobe/do_sys_open'') (sample_buf 5) 24 loader_init = Inr (0, L') \<and>
    calls L' =
      [Bpf BPF_PROG_LOAD (Prog_load attr),
       Open ''/sys/kernel/debug/tracing/kprobe_events'' [O_WRONLY, O_APPEND],
       Write 7 ''p:do_sys_open do_sys_open'', Close 7,
       Open ''/sys/kernel/debug/tracing/events/kprobes/do_sys_open/id'' [O_RDONLY], Read 7 256, Close 7,
       Perf_event_open (tracing_attr\<lparr>pe_config := 42\<rparr>) (- 1) 0 (- 1) 0,
       Ioctl 7 PERF_EVENT_IOC_ENABLE 0, Ioctl 7 PERF_EVENT_IOC_SET_BPF 7]"
proof -
  have "\<not> prefix ''sys_'' ''do_sys_open''" "\<not> isdigit (CHR ''d'')"
    by (simp_all add: isdigit_def)
  moreover have "calls loader_init = []"
    by (simp add: loader_init_def)
  moreover have "atoi (string_of_bytes (take 3 [52, 50, 10])) = 42"
    by code_simp
  ultimately show ?thesis
    using load_kprobe_trace [OF sample_env_succeeds _ loader_wf_init, of 1 "''do_sys_open''" "sample_buf 5" 24]
    by (auto simp: sample_prog_cnt sample_env_def Let_def)
qed

text \<open>
  C9.  A program in a section \<open>kprobe/\<close>\<open>n\<close> with a number \<open>n\<close> instead of a function is not
  attached but stored in the tail-call table: exactly one call is made, which puts the
  program's descriptor into slot \<open>n\<close>.
\<close>

theorem numbered_kprobe_goes_to_prog_array:
  assumes "n < 2 ^ 31"
  shows "attach env (''kprobe/'' @ dec_nat n) fd L =
    (let c = Bpf BPF_MAP_UPDATE_ELEM (elem_attr (prog_array_fd L) (word_bytes (word_of_nat n :: u32))
               (word_bytes (word_of_int fd :: u32)) BPF_ANY)
     in Inr (if r_ret (env (calls L) c) < 0 then - 1 else 0, L\<lparr>calls := calls L @ [c]\<rparr>))"
proof -
  let ?ev = "''kprobe/'' @ dec_nat n"
  have kinds: "is_kprobe ?ev" "\<not> is_raw_tracepoint ?ev"
    "\<not> (is_xdp ?ev \<or> is_perf_event ?ev \<or> is_cgroup_skb ?ev \<or> is_cgroup_sk ?ev)"
    "\<not> (is_socket ?ev \<or> is_sockops ?ev \<or> is_sk_skb ?ev \<or> is_sk_msg ?ev)"
    by (simp_all add: is_socket_def is_kprobe_def is_raw_tracepoint_def is_xdp_def is_perf_event_def
        is_cgroup_skb_def is_cgroup_sk_def is_sockops_def is_sk_skb_def is_sk_msg_def strncmp_eq_def)
  have d: "drop (if is_kprobe ?ev then 7 else 10) ?ev = dec_nat n"
    using kinds(1) by simp
  obtain c cs where c: "dec_nat n = c # cs" "isdigit c"
    using dec_nat_nonempty [of n] dec_nat_digits [of n] by (cases "dec_nat n") auto
  have "attach env ?ev fd L = attach_kprobe env ?ev fd L"
    using kinds by (simp add: attach_def)
  also have "\<dots> = Inr (populate_prog_array env (dec_nat n) fd L)"
    unfolding attach_kprobe_def Let_def d using c by (simp del: strcats_res.simps)
  finally show ?thesis
    using atoi_dec_nat [OF assms] by (simp add: populate_prog_array_eq Let_def)
qed

theorem numbered_kprobe_goes_to_prog_array_witness:
  "attach sample_env (''kprobe/'' @ dec_nat 1) 7 loader_init =
    Inr (0, loader_init\<lparr>calls := [Bpf BPF_MAP_UPDATE_ELEM (elem_attr (- 1) (word_bytes (1 :: u32))
               (word_bytes (7 :: u32)) BPF_ANY)]\<rparr>)"
  using numbered_kprobe_goes_to_prog_array [of 1 sample_env 7 loader_init]
  by (simp add: sample_env_ret loader_init_def)

text \<open>
  C13.  In sections of the kinds \<open>sk_skb\<close> and \<open>sk_msg\<close> the code skips seven characters of a
  prefix of six, so the slash of \<open>sk_skb/\<close>\<open>n\<close> is not seen: the program is never put into the
  tail-call table, no call is made, and success is reported.
\<close>

theorem numbered_sk_skb_is_ignored:
  "attach_socket env (''sk_skb/'' @ dec_nat n) fd L = Inr (0, L) \<and>
   attach_socket env (''sk_msg/'' @ dec_nat n) fd L = Inr (0, L)"
proof -
  obtain c cs where c: "dec_nat n = c # cs" "isdigit c"
    using dec_nat_nonempty [of n] dec_nat_digits [of n] by (cases "dec_nat n") auto
  then have "c \<noteq> CHR ''/''"
    by (auto simp: isdigit_def)
  then show ?thesis
    by (simp add: c attach_socket_def is_socket_def strncmp_eq_def char_at_def nth_res_def)
qed

section \<open>System-call wrappers\<close>

text \<open>
  C10.  Loading a program terminates: if among any \<open>n\<close> consecutive calls the kernel answers at
  least one with something other than \<open>EAGAIN\<close>, at most \<open>n\<close> rounds of each retry loop are
  needed, and nothing but program loads is asked of the kernel.
\<close>

theorem bpf_load_program_terminates:
  assumes "patient n env" "n \<le> fuel"
  shows "\<exists>fd log cs. bpf_load_program fuel env type insns cnt lic ver True sz h = Inr (fd, log, h @ cs) \<and>
           list_all prog_load_call cs"
  using safeD [OF bpf_load_program_safe [OF assms, where h = h and type = type and insns = insns
      and cnt = cnt and lic = lic and ver = ver and sz = sz]]
  by (auto simp: made_def)

theorem bpf_load_program_terminates_witness:
  "\<exists>fd log cs. bpf_load_program 1 sample_env BPF_PROG_TYPE_XDP (sample_buf 7) 1 [] 0 True 64 [] = Inr (fd, log, cs) \<and>
     list_all prog_load_call cs"
  using bpf_load_program_terminates [OF sample_env_patient, of 1 BPF_PROG_TYPE_XDP "sample_buf 7" 1 "[]" 0 64 "[]"]
  by simp

text \<open>
  C11.  What is asked of the kernel for a map definition: its type, key size, number of entries and
  flags unchanged, a name of at most 15 characters that is a prefix of the given one, the value
  size unchanged (4, a descriptor, for maps of maps), and a NUMA node only if the definition's
  flags request one, in which case the node's flag stays set.
\<close>

theorem create_map_request:
  assumes "length (map_fd L) = MAX_MAPS" "create_map env m L = Inr (fd, L')"
  shows "\<exists>a. calls L' = calls L @ [Bpf BPF_MAP_CREATE (Map_create a)] \<and>
    a_map_type a = m_type (md_def m) \<and> a_key_size a = m_key_size (md_def m) \<and>
    a_max_entries a = m_max_entries (md_def m) \<and> a_map_flags a = m_map_flags (md_def m) \<and>
    length (a_map_name a) \<le> 15 \<and> (\<forall>s. md_name m = Some s \<longrightarrow> prefix (a_map_name a) s) \<and>
    (if m_type (md_def m) = BPF_MAP_TYPE_ARRAY_OF_MAPS \<or> m_type (md_def m) = BPF_MAP_TYPE_HASH_OF_MAPS
     then a_value_size a = 4 \<and> a_inner_map_fd a = word_of_int (map_fd L ! unat (m_inner_map_idx (md_def m)))
     else a_value_size a = m_value_size (md_def m)) \<and>
    (m_map_flags (md_def m) AND BPF_F_NUMA_NODE = 0 \<longrightarrow> a_numa_node a = 0) \<and>
    (m_map_flags (md_def m) AND BPF_F_NUMA_NODE \<noteq> 0 \<and> 0 \<le> sint (m_numa_node (md_def m)) \<longrightarrow>
       a_numa_node a = m_numa_node (md_def m))"
proof -
  let ?d = "md_def m"
  have flag: "m_map_flags ?d OR BPF_F_NUMA_NODE = m_map_flags ?d" if "m_map_flags ?d AND BPF_F_NUMA_NODE \<noteq> 0"
  proof (rule bit_word_eqI)
    fix n assume "n < LENGTH(32)"
    have four: "bit BPF_F_NUMA_NODE k \<longleftrightarrow> k = 2" for k
      using bit_exp_iff [of 2 k, where ?'a = u32] by (auto dest: bit_imp_le_length)
    have "bit (m_map_flags ?d) 2"
      using that bit_iff_and_push_bit_not_eq_0 [of "m_map_flags ?d" 2] by simp
    then show "bit (m_map_flags ?d OR BPF_F_NUMA_NODE) n = bit (m_map_flags ?d) n"
      using four [of n] by (auto simp: bit_or_iff)
  qed
  have name: "length (obj_name (md_name m)) \<le> 15" "\<forall>s. md_name m = Some s \<longrightarrow> prefix (obj_name (md_name m)) s"
    by (auto simp: length_obj_name) (simp add: obj_name_def take_is_prefix)
  have "calls L' = calls L @ [def_request m (map_fd L)]"
    using assms(2) by (auto simp: create_map_eq [OF assms(1)] split: if_splits)
  then show ?thesis
    using flag name by (auto simp: def_request_def map_request_def Let_def)
qed

theorem create_map_request_witness:
  "\<exists>a fd L'. create_map sample_env (map_data_zero\<lparr>md_def := sample_def BPF_MAP_TYPE_ARRAY\<rparr>) loader_init = Inr (fd, L') \<and>
     calls L' = [Bpf BPF_MAP_CREATE (Map_create a)] \<and> a_map_type a = BPF_MAP_TYPE_ARRAY \<and> a_numa_node a = 0"
proof -
  let ?m = "map_data_zero\<lparr>md_def := sample_def BPF_MAP_TYPE_ARRAY\<rparr>"
  have len: "length (map_fd loader_init) = MAX_MAPS" "calls loader_init = []"
    by (simp_all add: loader_init_def)
  moreover obtain fd L' where run: "create_map sample_env ?m loader_init = Inr (fd, L')"
    by (simp add: create_map_eq [OF len(1)] inner_ok_def sample_def_def)
  ultimately show ?thesis
    using create_map_request [OF len(1) run] by (auto simp: sample_def_def)
qed

end
