(* ===== verification/Kernel_Api.thy ===== *)
theory Kernel_Api
  imports Sys_Env "HOL-Library.State_Monad"
begin

text \<open>
  The interface between the programs that run inside the kernel and the kernel.  A program
  reaches the kernel through helper functions only; they are a parameter, the record \<open>kapi\<close>, and
  act on a kernel state of unknown type.  Programs are computations of the state monad over
  that type, written in the order of the source.  What the programs rely on is the documentation
  of the helpers in \<open>uapi/linux/bpf.h\<close>, stated by the locale \<open>kernel_doc\<close> over an abstract view of
  the kernel state; a reference kernel shows that the documentation can be met.
\<close>

named_theorems kwp \<open>rules for computations that run in the kernel\<close>

section \<open>Maps and registers\<close>

text \<open>
  \<open>struct bpf_map_def\<close> of \<open>bpf_helpers.h\<close>, with the name of the variable that declares the map.
  The three last members are zero in every program.
\<close>

record bpf_map_def =
  bm_name :: string
  bm_type :: u32
  bm_key_size :: u32
  bm_value_size :: u32
  bm_max_entries :: u32

text \<open>The registers of a probed function that the programs read.\<close>

record pt_regs =
  PT_REGS_PARM1 :: u64
  PT_REGS_PARM2 :: u64
  PT_REGS_PARM3 :: u64
  PT_REGS_IP :: u64

text \<open>
  A pointer given to a helper: an address, or a place in a local array of the program, given by
  the bytes from there to the end of the array.  A pointer to a map value is the map and the key.
\<close>

datatype kptr = Addr u64 | Local "u8 list"

type_synonym kref = "bpf_map_def \<times> u8 list"

datatype karg = Num u64 | Bytes "u8 list" | Ref kref

section \<open>Helper functions\<close>

text \<open>
  A helper that fills a local array gets its old contents and returns the new ones.  The
  helper for tail calls returns the program found in the table, or None when the call fails.
\<close>

record 's kapi =
  k_lookup :: "bpf_map_def \<Rightarrow> u8 list \<Rightarrow> ('s, bool) state"
  k_load :: "kref \<Rightarrow> ('s, u8 list) state"
  k_store :: "kref \<Rightarrow> u8 list \<Rightarrow> ('s, unit) state"
  k_update :: "bpf_map_def \<Rightarrow> u8 list \<Rightarrow> u8 list \<Rightarrow> u64 \<Rightarrow> ('s, int) state"
  k_delete :: "bpf_map_def \<Rightarrow> u8 list \<Rightarrow> ('s, int) state"
  k_probe_read :: "u8 list \<Rightarrow> kptr \<Rightarrow> ('s, int \<times> u8 list) state"
  k_probe_read_str :: "u8 list \<Rightarrow> kptr \<Rightarrow> ('s, int \<times> u8 list) state"
  k_probe_write_user :: "u64 \<Rightarrow> u8 list \<Rightarrow> ('s, int) state"
  k_override_return :: "u64 \<Rightarrow> ('s, int) state"
  k_strtol :: "u8 list \<Rightarrow> u64 \<Rightarrow> u64 \<Rightarrow> ('s, int \<times> u64) state"
  k_strtoul :: "u8 list \<Rightarrow> u64 \<Rightarrow> u64 \<Rightarrow> ('s, int \<times> u64) state"
  k_ktime_get_ns :: "('s, u64) state"
  k_get_current_pid_tgid :: "('s, u64) state"
  k_trace_printk :: "string \<Rightarrow> karg list \<Rightarrow> ('s, int) state"
  k_my_printk :: "('s, int) state"
  k_tail_call :: "bpf_map_def \<Rightarrow> u32 \<Rightarrow> ('s, int option) state"
  k_perf_event_output :: "bpf_map_def \<Rightarrow> u64 \<Rightarrow> u8 list \<Rightarrow> ('s, int) state"

text \<open>
  The helpers get as many bytes of the key and the value as the map declares, whatever the type
  of the variable that holds them.
\<close>

definition lookup_elem :: "'s kapi \<Rightarrow> bpf_map_def \<Rightarrow> u8 list \<Rightarrow> ('s, kref option) state" where
  "lookup_elem K m key = do {
     let key = take (unat (bm_key_size m)) key;
     found \<leftarrow> k_lookup K m key;
     State_Monad.return (if found then Some (m, key) else None)
   }"

definition update_elem ::
  "'s kapi \<Rightarrow> bpf_map_def \<Rightarrow> u8 list \<Rightarrow> u8 list \<Rightarrow> u64 \<Rightarrow> ('s, int) state" where
  "update_elem K m key value flags =
     k_update K m (take (unat (bm_key_size m)) key) (take (unat (bm_value_size m)) value) flags"

definition delete_elem :: "'s kapi \<Rightarrow> bpf_map_def \<Rightarrow> u8 list \<Rightarrow> ('s, int) state" where
  "delete_elem K m key = k_delete K m (take (unat (bm_key_size m)) key)"

text \<open>Reading and writing a number through a pointer to a map value.\<close>

definition load64 :: "'s kapi \<Rightarrow> kref \<Rightarrow> ('s, u64) state" where
  "load64 K p = do { bs \<leftarrow> k_load K p; State_Monad.return (bytes_word (take 8 bs)) }"

definition store64 :: "'s kapi \<Rightarrow> kref \<Rightarrow> u64 \<Rightarrow> ('s, unit) state" where
  "store64 K p w = do { bs \<leftarrow> k_load K p; k_store K p (word_bytes w @ drop 8 bs) }"

definition load32 :: "'s kapi \<Rightarrow> kref \<Rightarrow> ('s, u32) state" where
  "load32 K p = do { bs \<leftarrow> k_load K p; State_Monad.return (bytes_word (take 4 bs)) }"

definition store32 :: "'s kapi \<Rightarrow> kref \<Rightarrow> u32 \<Rightarrow> ('s, unit) state" where
  "store32 K p w = do { bs \<leftarrow> k_load K p; k_store K p (word_bytes w @ drop 4 bs) }"

definition load8 :: "'s kapi \<Rightarrow> kref \<Rightarrow> ('s, u8) state" where
  "load8 K p = do { bs \<leftarrow> k_load K p; State_Monad.return (hd bs) }"

text \<open>\<open>__sync_fetch_and_add\<close> on a 64-bit value.\<close>

definition fetch_and_add64 :: "'s kapi \<Rightarrow> kref \<Rightarrow> u64 \<Rightarrow> ('s, unit) state" where
  "fetch_and_add64 K p d = do { w \<leftarrow> load64 K p; store64 K p (w + d) }"

section \<open>What the kernel shows of its state\<close>

record kview =
  v_map :: "bpf_map_def \<Rightarrow> u8 list \<Rightarrow> u8 list option"
  v_mem :: "u64 \<Rightarrow> u8 option"
  v_user :: "u64 \<Rightarrow> bool"
  v_ret :: "u64 option"
  v_log :: "(string \<times> karg list) list"
  v_time :: u64
  v_pid :: u64
  v_prog :: "bpf_map_def \<Rightarrow> u32 \<Rightarrow> int option"
  v_out :: "(bpf_map_def \<times> u64 \<times> u8 list) list"

definition mem_bytes :: "kview \<Rightarrow> u64 \<Rightarrow> nat \<Rightarrow> u8 list option" where
  "mem_bytes v a n =
     (if \<forall>i \<in> set [0..<n]. v_mem v (a + word_of_nat i) \<noteq> None
      then Some (map (\<lambda>i. the (v_mem v (a + word_of_nat i))) [0..<n]) else None)"

definition writable :: "kview \<Rightarrow> u64 \<Rightarrow> nat \<Rightarrow> bool" where
  "writable v a n =
     (\<forall>i \<in> set [0..<n]. v_mem v (a + word_of_nat i) \<noteq> None \<and> v_user v (a + word_of_nat i))"

primrec mem_put :: "(u64 \<Rightarrow> u8 option) \<Rightarrow> u64 \<Rightarrow> u8 list \<Rightarrow> u64 \<Rightarrow> u8 option" where
  "mem_put mem a [] = mem"
| "mem_put mem a (b # bs) = (mem_put mem (a + 1) bs)(a \<mapsto> b)"

definition put_elem :: "bpf_map_def \<Rightarrow> u8 list \<Rightarrow> u8 list \<Rightarrow> kview \<Rightarrow> kview" where
  "put_elem m key value v = v\<lparr>v_map := (v_map v)(m := (v_map v m)(key \<mapsto> value))\<rparr>"

definition log_line :: "string \<Rightarrow> karg list \<Rightarrow> kview \<Rightarrow> kview" where
  "log_line fmt args v = v\<lparr>v_log := v_log v @ [(fmt, args)]\<rparr>"

definition is_array :: "bpf_map_def \<Rightarrow> bool" where
  "is_array m = (bm_type m = BPF_MAP_TYPE_ARRAY)"

text \<open>
  The elements of an array exist for every index below its size and cannot be removed; a value
  has the size the map declares.
\<close>

definition maps_ok_view :: "kview \<Rightarrow> bool" where
  "maps_ok_view v =
     (\<forall>m key. (is_array m \<longrightarrow> (v_map v m key \<noteq> None) =
                 (length key = unat (bm_key_size m) \<and> le_nat key < unat (bm_max_entries m))) \<and>
              (\<forall>bs. v_map v m key = Some bs \<longrightarrow> length bs = unat (bm_value_size m)))"

text \<open>
  Copying a string into an array: up to and including the first NUL byte, or all but one byte of
  the array and a NUL.  \<open>src\<close> is as long as the array.
\<close>

definition copy_str :: "u8 list \<Rightarrow> u8 list \<Rightarrow> u8 list" where
  "copy_str src dst =
     (let t = takeWhile (\<lambda>b. b \<noteq> 0) src in
      if length t < length dst then t @ 0 # drop (Suc (length t)) dst
      else take (length dst - 1) t @ [0])"

text \<open>
  Conversion of the initial part of a buffer, base 10: white space, then digits.  The result is
  the number of bytes consumed and the value; None when there are no digits.
\<close>

definition byte_isspace :: "u8 \<Rightarrow> bool" where
  "byte_isspace b = (b = 32 \<or> (9 \<le> b \<and> b \<le> 13))"

definition byte_isdigit :: "u8 \<Rightarrow> bool" where
  "byte_isdigit b = (48 \<le> b \<and> b \<le> 57)"

definition digits_value :: "u8 list \<Rightarrow> nat" where
  "digits_value ds = foldl (\<lambda>acc d. 10 * acc + (unat d - 48)) 0 ds"

definition parse_ul :: "u8 list \<Rightarrow> (nat \<times> nat) option" where
  "parse_ul buf =
     (let t = dropWhile byte_isspace buf; ds = takeWhile byte_isdigit t in
      if ds = [] then None
      else Some (length buf - length t + length ds, digits_value ds))"

section \<open>Numbers in map values\<close>

lemma word_bytes_bytes_word64:
  assumes "length bs = 8"
  shows "word_bytes (bytes_word bs :: u64) = bs"
proof -
  have "unat (word_of_nat (le_nat bs) :: u64) = le_nat bs"
    using le_nat_lt [of bs] assms by (simp add: unat_of_nat)
  then show ?thesis
    using le_bytes_le_nat [of bs 8] assms by (simp add: word_bytes_def bytes_word_def)
qed

lemma word_bytes_bytes_word32:
  assumes "length bs = 4"
  shows "word_bytes (bytes_word bs :: u32) = bs"
proof -
  have "unat (word_of_nat (le_nat bs) :: u32) = le_nat bs"
    using le_nat_lt [of bs] assms by (simp add: unat_of_nat)
  then show ?thesis
    using le_bytes_le_nat [of bs 4] assms by (simp add: word_bytes_def bytes_word_def)
qed

section \<open>Memory\<close>

lemma mem_bytes_sub:
  assumes "mem_bytes v a n = Some bs" and "i + k \<le> n"
  shows "mem_bytes v (a + word_of_nat i) k = Some (take k (drop i bs))"
proof -
  have addr: "a + word_of_nat i + word_of_nat j = a + word_of_nat (i + j)" for j
    by simp
  have all: "v_mem v (a + word_of_nat j) \<noteq> None" if "j < n" for j
    using assms(1) that by (auto simp: mem_bytes_def split: if_splits)
  have "v_mem v (a + word_of_nat i + word_of_nat j) \<noteq> None" if "j < k" for j
    unfolding addr using assms(2) that by (intro all) simp
  then show ?thesis
    using assms by (auto simp: mem_bytes_def add.assoc intro!: nth_equalityI split: if_splits)
qed

lemma length_mem_bytes: "mem_bytes v a n = Some bs \<Longrightarrow> length bs = n"
  by (auto simp: mem_bytes_def split: if_splits)

lemma mem_put_outside:
  "(\<And>i. i < length bs \<Longrightarrow> x \<noteq> a + word_of_nat i) \<Longrightarrow> mem_put mem a bs x = mem x"
proof (induction bs arbitrary: a)
  case (Cons b bs)
  have "x \<noteq> a + 1 + word_of_nat i" if "i < length bs" for i
    using Cons.prems [of "Suc i"] that by (simp add: add.assoc)
  then show ?case
    using Cons.IH [of "a + 1"] Cons.prems [of 0] by simp
qed simp

lemma mem_put_inside:
  "i < length bs \<Longrightarrow> length bs < 2 ^ 64 \<Longrightarrow> mem_put mem a bs (a + word_of_nat i) = Some (bs ! i)"
proof (induction bs arbitrary: a i)
  case (Cons b bs)
  show ?case
  proof (cases i)
    case (Suc j)
    have "unat (word_of_nat i :: u64) = i"
      using Cons.prems by (simp add: unat_of_nat)
    then have "word_of_nat i \<noteq> (0 :: u64)"
      using Suc by (metis nat.distinct(1) unsigned_0)
    then show ?thesis
      using Suc Cons.IH [of j "a + 1"] Cons.prems by (simp add: add.assoc)
  qed simp
qed simp

lemma mem_bytes_put:
  assumes "v_mem v = mem_put mem a bs" and "length bs < 2 ^ 64"
  shows "mem_bytes v a (length bs) = Some bs"
  using assms mem_put_inside [OF _ assms(2)]
  by (auto simp: mem_bytes_def intro!: nth_equalityI)

lemma length_copy_str: "dst \<noteq> [] \<Longrightarrow> length src = length dst \<Longrightarrow> length (copy_str src dst) = length dst"
  using length_takeWhile_le [of "\<lambda>b. b \<noteq> 0" src] by (cases dst) (auto simp: copy_str_def Let_def)

lemma mem_bytes_upd [simp]:
  "mem_bytes (v\<lparr>v_map := x1\<rparr>) a n = mem_bytes v a n"
  "mem_bytes (v\<lparr>v_ret := x2\<rparr>) a n = mem_bytes v a n"
  "mem_bytes (v\<lparr>v_time := x4\<rparr>) a n = mem_bytes v a n"
  "mem_bytes (log_line fmt args v) a n = mem_bytes v a n"
  "mem_bytes (put_elem m key x v) a n = mem_bytes v a n"
  by (simp_all add: mem_bytes_def put_elem_def log_line_def)

lemma writable_upd [simp]:
  "writable (v\<lparr>v_map := x1\<rparr>) a n = writable v a n"
  "writable (v\<lparr>v_ret := x2\<rparr>) a n = writable v a n"
  "writable (v\<lparr>v_time := x4\<rparr>) a n = writable v a n"
  "writable (log_line fmt args v) a n = writable v a n"
  "writable (put_elem m key x v) a n = writable v a n"
  by (simp_all add: writable_def put_elem_def log_line_def)

lemma put_elem_fields [simp]:
  "v_map (put_elem m key x v) = (v_map v)(m := (v_map v m)(key \<mapsto> x))"
  "v_mem (put_elem m key x v) = v_mem v" "v_user (put_elem m key x v) = v_user v"
  "v_ret (put_elem m key x v) = v_ret v" "v_log (put_elem m key x v) = v_log v"
  "v_time (put_elem m key x v) = v_time v" "v_pid (put_elem m key x v) = v_pid v"
  "v_prog (put_elem m key x v) = v_prog v" "v_out (put_elem m key x v) = v_out v"
  by (simp_all add: put_elem_def)

lemma log_line_fields [simp]:
  "v_map (log_line fmt args v) = v_map v" "v_mem (log_line fmt args v) = v_mem v"
  "v_user (log_line fmt args v) = v_user v" "v_ret (log_line fmt args v) = v_ret v"
  "v_log (log_line fmt args v) = v_log v @ [(fmt, args)]" "v_time (log_line fmt args v) = v_time v"
  "v_pid (log_line fmt args v) = v_pid v" "v_prog (log_line fmt args v) = v_prog v"
  "v_out (log_line fmt args v) = v_out v"
  by (simp_all add: log_line_def)

section \<open>Reasoning about programs\<close>

text \<open>
  \<open>vruns view m v Q\<close>: run in any kernel state that shows \<open>v\<close>, the program returns a result and
  leaves a view that satisfy \<open>Q\<close>.  The rules run a program symbolically, backwards from \<open>Q\<close>.
\<close>

definition vruns ::
  "('s \<Rightarrow> kview) \<Rightarrow> ('s, 'a) state \<Rightarrow> kview \<Rightarrow> ('a \<Rightarrow> kview \<Rightarrow> bool) \<Rightarrow> bool" where
  "vruns view m v Q =
     (\<forall>s. view s = v \<longrightarrow> (case run_state m s of (x, s') \<Rightarrow> Q x (view s')))"

lemma vruns_return [kwp]: "Q x v \<Longrightarrow> vruns view (State_Monad.return x) v Q"
  by (simp add: vruns_def)

lemma vruns_bind [kwp]:
  "vruns view m v (\<lambda>x v'. vruns view (f x) v' Q) \<Longrightarrow> vruns view (State_Monad.bind m f) v Q"
  by (auto simp: vruns_def split: prod.splits)

lemma vruns_if [kwp]:
  "(b \<Longrightarrow> vruns view m v Q) \<Longrightarrow> (\<not> b \<Longrightarrow> vruns view n v Q) \<Longrightarrow>
   vruns view (if b then m else n) v Q"
  by simp

lemma vruns_let [kwp]: "vruns view (f x) v Q \<Longrightarrow> vruns view (let y = x in f y) v Q"
  by simp

lemma vruns_case_Some [kwp]:
  "vruns view (n x) v Q \<Longrightarrow> vruns view (case Some x of None \<Rightarrow> m | Some y \<Rightarrow> n y) v Q"
  by simp

lemma vruns_case_None [kwp]:
  "vruns view m v Q \<Longrightarrow> vruns view (case None of None \<Rightarrow> m | Some y \<Rightarrow> n y) v Q"
  by simp

lemma vruns_case_prod [kwp]:
  "vruns view (f a b) v Q \<Longrightarrow> vruns view (case (a, b) of (x, y) \<Rightarrow> f x y) v Q"
  by simp

lemma vruns_mono:
  "vruns view m v P \<Longrightarrow> (\<And>x v'. P x v' \<Longrightarrow> Q x v') \<Longrightarrow> vruns view m v Q"
  by (auto simp: vruns_def split: prod.splits)

lemma vruns_conj:
  "vruns view m v P \<Longrightarrow> vruns view m v Q \<Longrightarrow> vruns view m v (\<lambda>x v'. P x v' \<and> Q x v')"
  by (auto simp: vruns_def split: prod.splits)

lemma vrunsD: "vruns view m (view s) Q \<Longrightarrow> run_state m s = (x, s') \<Longrightarrow> Q x (view s')"
  by (auto simp: vruns_def)

text \<open>Maps.\<close>

locale map_helpers =
  fixes K :: "'s kapi" and view :: "'s \<Rightarrow> kview"
  assumes maps_legal: "maps_ok_view (view s)"
    and lookup_doc:
      "vruns view (k_lookup K m key) v (\<lambda>found v'. found = (v_map v m key \<noteq> None) \<and> v' = v)"
    and load_doc:
      "v_map v m key = Some bs \<Longrightarrow> vruns view (k_load K (m, key)) v (\<lambda>x v'. x = bs \<and> v' = v)"
    and store_doc:
      "v_map v m key \<noteq> None \<Longrightarrow> length bs = unat (bm_value_size m) \<Longrightarrow>
       vruns view (k_store K (m, key) bs) v (\<lambda>_ v'. v' = put_elem m key bs v)"
    and update_array_doc:
      "is_array m \<Longrightarrow> v_map v m key \<noteq> None \<Longrightarrow> length bs = unat (bm_value_size m) \<Longrightarrow>
       vruns view (k_update K m key bs BPF_ANY) v (\<lambda>r v'. r = 0 \<and> v' = put_elem m key bs v)"
    and update_array_noexist_doc:
      "is_array m \<Longrightarrow> vruns view (k_update K m key bs BPF_NOEXIST) v (\<lambda>r v'. r < 0 \<and> v' = v)"
    and update_noexist_doc:
      "\<not> is_array m \<Longrightarrow> length bs = unat (bm_value_size m) \<Longrightarrow>
       vruns view (k_update K m key bs BPF_NOEXIST) v
         (\<lambda>r v'. (r = 0 \<and> v_map v m key = None \<and> v' = put_elem m key bs v) \<or> (r < 0 \<and> v' = v))"
    and delete_array_doc:
      "is_array m \<Longrightarrow> vruns view (k_delete K m key) v (\<lambda>r v'. r < 0 \<and> v' = v)"
begin

lemma vruns_legal: "(maps_ok_view v \<Longrightarrow> vruns view m v Q) \<Longrightarrow> vruns view m v Q"
  unfolding vruns_def by (metis maps_legal)

lemma vruns_lookup [kwp]:
  assumes "v_map v m (take (unat (bm_key_size m)) key) = None \<Longrightarrow> Q None v"
    and "v_map v m (take (unat (bm_key_size m)) key) \<noteq> None \<Longrightarrow>
         Q (Some (m, take (unat (bm_key_size m)) key)) v"
  shows "vruns view (lookup_elem K m key) v Q"
  unfolding lookup_elem_def
  by (intro vruns_let vruns_bind vruns_mono [OF lookup_doc] vruns_return) (use assms in auto)

lemma vruns_load64 [kwp]:
  assumes "v_map v m key \<noteq> None" and "Q (bytes_word (take 8 (the (v_map v m key)))) v"
  shows "vruns view (load64 K (m, key)) v Q"
  unfolding load64_def using assms
  by (auto intro!: vruns_bind vruns_mono [OF load_doc] vruns_return)

lemma vruns_load32 [kwp]:
  assumes "v_map v m key \<noteq> None" and "Q (bytes_word (take 4 (the (v_map v m key)))) v"
  shows "vruns view (load32 K (m, key)) v Q"
  unfolding load32_def using assms
  by (auto intro!: vruns_bind vruns_mono [OF load_doc] vruns_return)

lemma vruns_load8 [kwp]:
  assumes "v_map v m key \<noteq> None" and "Q (hd (the (v_map v m key))) v"
  shows "vruns view (load8 K (m, key)) v Q"
  unfolding load8_def using assms
  by (auto intro!: vruns_bind vruns_mono [OF load_doc] vruns_return)

lemma vruns_store64 [kwp]:
  assumes "v_map v m key \<noteq> None" and "bm_value_size m = 8"
    and "Q () (put_elem m key (word_bytes w) v)"
  shows "vruns view (store64 K (m, key) w) v Q"
proof (rule vruns_legal)
  assume legal: "maps_ok_view v"
  obtain bs where bs: "v_map v m key = Some bs"
    using assms(1) by auto
  have "length bs = 8"
    using legal bs assms(2) by (auto simp: maps_ok_view_def)
  then show ?thesis
    unfolding store64_def using assms
    by (auto intro!: vruns_bind vruns_mono [OF load_doc [OF bs]] vruns_mono [OF store_doc])
qed

lemma vruns_store32 [kwp]:
  assumes "v_map v m key \<noteq> None" and "bm_value_size m = 4"
    and "Q () (put_elem m key (word_bytes w) v)"
  shows "vruns view (store32 K (m, key) w) v Q"
proof (rule vruns_legal)
  assume legal: "maps_ok_view v"
  obtain bs where bs: "v_map v m key = Some bs"
    using assms(1) by auto
  have "length bs = 4"
    using legal bs assms(2) by (auto simp: maps_ok_view_def)
  then show ?thesis
    unfolding store32_def using assms
    by (auto intro!: vruns_bind vruns_mono [OF load_doc [OF bs]] vruns_mono [OF store_doc])
qed

lemma vruns_fetch_and_add64 [kwp]:
  assumes "v_map v m key \<noteq> None" and "bm_value_size m = 8"
    and "Q () (put_elem m key (word_bytes (bytes_word (take 8 (the (v_map v m key))) + d :: u64)) v)"
  shows "vruns view (fetch_and_add64 K (m, key) d) v Q"
  unfolding fetch_and_add64_def using assms by (intro kwp) auto

lemma vruns_update_array [kwp]:
  assumes "is_array m" and "v_map v m (take (unat (bm_key_size m)) key) \<noteq> None"
    and "unat (bm_value_size m) \<le> length bs"
    and "Q 0 (put_elem m (take (unat (bm_key_size m)) key) (take (unat (bm_value_size m)) bs) v)"
  shows "vruns view (update_elem K m key bs BPF_ANY) v Q"
  unfolding update_elem_def
  by (rule vruns_mono [OF update_array_doc [OF assms(1,2)]]) (auto simp: assms)

lemma vruns_update_array_noexist [kwp]:
  assumes "is_array m" and "\<And>r. r < 0 \<Longrightarrow> Q r v"
  shows "vruns view (update_elem K m key bs BPF_NOEXIST) v Q"
  unfolding update_elem_def
  by (rule vruns_mono [OF update_array_noexist_doc [OF assms(1)]]) (auto simp: assms)

lemma vruns_delete_array [kwp]:
  assumes "is_array m" and "\<And>r. r < 0 \<Longrightarrow> Q r v"
  shows "vruns view (delete_elem K m key) v Q"
  unfolding delete_elem_def
  by (rule vruns_mono [OF delete_array_doc [OF assms(1)]]) (auto simp: assms)

end

text \<open>
  A hash table whose elements are allocated in advance has room as long as it is not full.
\<close>

locale hash_helpers = map_helpers +
  assumes room_doc:
      "\<not> is_array m \<Longrightarrow> v_map v m key = None \<Longrightarrow> length bs = unat (bm_value_size m) \<Longrightarrow>
       finite (dom (v_map v m)) \<Longrightarrow> card (dom (v_map v m)) < unat (bm_max_entries m) \<Longrightarrow>
       vruns view (k_update K m key bs BPF_NOEXIST) v (\<lambda>r v'. r = 0 \<and> v' = put_elem m key bs v)"

text \<open>Memory.\<close>

locale memory_helpers =
  fixes K :: "'s kapi" and view :: "'s \<Rightarrow> kview"
  assumes probe_read_doc:
      "vruns view (k_probe_read K dst (Addr a)) v
         (\<lambda>(r, d) v'. v' = v \<and> length d = length dst \<and>
            (case mem_bytes v a (length dst) of Some bs \<Rightarrow> r = 0 \<and> d = bs | None \<Rightarrow> r < 0))"
    and probe_read_str_doc:
      "dst \<noteq> [] \<Longrightarrow> vruns view (k_probe_read_str K dst (Addr a)) v
         (\<lambda>(r, d) v'. v' = v \<and> length d = length dst \<and>
            (case mem_bytes v a (length dst) of
               Some bs \<Rightarrow> 0 < r \<and> d = copy_str bs dst | None \<Rightarrow> True))"
    and probe_read_str_local_doc:
      "dst \<noteq> [] \<Longrightarrow> length dst \<le> length bs \<Longrightarrow>
       vruns view (k_probe_read_str K dst (Local bs)) v
         (\<lambda>(r, d) v'. v' = v \<and> 0 < r \<and> d = copy_str (take (length dst) bs) dst)"
    and probe_write_user_doc:
      "vruns view (k_probe_write_user K a bs) v
         (\<lambda>r v'. if writable v a (length bs)
                 then r = 0 \<and> v' = v\<lparr>v_mem := mem_put (v_mem v) a bs\<rparr>
                 else r < 0 \<and> (\<exists>mem. v' = v\<lparr>v_mem := mem\<rparr>))"
    and strtol_doc:
      "vruns view (k_strtol K buf 10 old) v
         (\<lambda>(r, w) v'. v' = v \<and>
            (case parse_ul buf of
               None \<Rightarrow> hd (dropWhile byte_isspace buf @ [0]) \<noteq> 45 \<longrightarrow> r < 0
             | Some (n, x) \<Rightarrow> if x < 2 ^ 63 then r = int n \<and> w = word_of_nat x else r < 0))"
    and strtoul_doc:
      "vruns view (k_strtoul K buf 10 old) v
         (\<lambda>(r, w) v'. v' = v \<and>
            (case parse_ul buf of
               None \<Rightarrow> r < 0
             | Some (n, x) \<Rightarrow> if x < 2 ^ 64 then r = int n \<and> w = word_of_nat x else r < 0))"
begin

lemma vruns_write_user [kwp]:
  assumes "writable v a (length bs) \<Longrightarrow> Q 0 (v\<lparr>v_mem := mem_put (v_mem v) a bs\<rparr>)"
    and "\<And>r mem. \<not> writable v a (length bs) \<Longrightarrow> r < 0 \<Longrightarrow> Q r (v\<lparr>v_mem := mem\<rparr>)"
  shows "vruns view (k_probe_write_user K a bs) v Q"
  by (rule vruns_mono [OF probe_write_user_doc]) (use assms in \<open>auto split: if_splits\<close>)

lemma vruns_probe_read [kwp]:
  assumes "\<And>bs. mem_bytes v a (length dst) = Some bs \<Longrightarrow> Q (0, bs) v"
    and "\<And>r d. mem_bytes v a (length dst) = None \<Longrightarrow> r < 0 \<Longrightarrow> length d = length dst \<Longrightarrow> Q (r, d) v"
  shows "vruns view (k_probe_read K dst (Addr a)) v Q"
  by (rule vruns_mono [OF probe_read_doc]) (use assms in \<open>auto split: option.splits\<close>)

lemma vruns_probe_read_str [kwp]:
  assumes "dst \<noteq> []"
    and "\<And>r bs. mem_bytes v a (length dst) = Some bs \<Longrightarrow> 0 < r \<Longrightarrow> Q (r, copy_str bs dst) v"
    and "\<And>r d. mem_bytes v a (length dst) = None \<Longrightarrow> length d = length dst \<Longrightarrow> Q (r, d) v"
  shows "vruns view (k_probe_read_str K dst (Addr a)) v Q"
  by (rule vruns_mono [OF probe_read_str_doc [OF assms(1)]]) (use assms(2,3) in \<open>auto split: option.splits\<close>)

lemma vruns_probe_read_str_local [kwp]:
  assumes "dst \<noteq> []" and "length dst \<le> length bs"
    and "\<And>r. 0 < r \<Longrightarrow> Q (r, copy_str (take (length dst) bs) dst) v"
  shows "vruns view (k_probe_read_str K dst (Local bs)) v Q"
  by (rule vruns_mono [OF probe_read_str_local_doc [OF assms(1,2)]]) (use assms(3) in auto)

lemma vruns_strtoul [kwp]:
  assumes "\<And>r w. parse_ul buf = None \<Longrightarrow> r < 0 \<Longrightarrow> Q (r, w) v"
    and "\<And>n x. parse_ul buf = Some (n, x) \<Longrightarrow> x < 2 ^ 64 \<Longrightarrow> Q (int n, word_of_nat x) v"
    and "\<And>n x r w. parse_ul buf = Some (n, x) \<Longrightarrow> \<not> x < 2 ^ 64 \<Longrightarrow> r < 0 \<Longrightarrow> Q (r, w) v"
  shows "vruns view (k_strtoul K buf 10 old) v Q"
  by (rule vruns_mono [OF strtoul_doc]) (use assms in \<open>auto split: option.splits if_splits\<close>)

lemma vruns_strtol [kwp]:
  assumes "\<And>r w. parse_ul buf = None \<Longrightarrow> hd (dropWhile byte_isspace buf @ [0]) = 45 \<or> r < 0 \<Longrightarrow>
             Q (r, w) v"
    and "\<And>n x. parse_ul buf = Some (n, x) \<Longrightarrow> x < 2 ^ 63 \<Longrightarrow> Q (int n, word_of_nat x) v"
    and "\<And>n x r w. parse_ul buf = Some (n, x) \<Longrightarrow> \<not> x < 2 ^ 63 \<Longrightarrow> r < 0 \<Longrightarrow> Q (r, w) v"
  shows "vruns view (k_strtol K buf 10 old) v Q"
  by (rule vruns_mono [OF strtol_doc]) (use assms in \<open>auto split: option.splits if_splits\<close>)

end

text \<open>Tracing, time and control.\<close>

locale control_helpers =
  fixes K :: "'s kapi" and view :: "'s \<Rightarrow> kview"
  assumes override_return_doc:
      "vruns view (k_override_return K rc) v (\<lambda>r v'. r = 0 \<and> v' = v\<lparr>v_ret := Some rc\<rparr>)"
    and ktime_doc:
      "vruns view (k_ktime_get_ns K) v (\<lambda>t v'. v_time v \<le> t \<and> v' = v\<lparr>v_time := t\<rparr>)"
    and pid_tgid_doc:
      "vruns view (k_get_current_pid_tgid K) v (\<lambda>x v'. x = v_pid v \<and> v' = v)"
    and printk_doc: "vruns view (k_trace_printk K fmt args) v (\<lambda>r v'. v' = log_line fmt args v)"
    and my_printk_doc: "vruns view (k_my_printk K) v (\<lambda>r v'. v' = v)"
    and tail_call_doc:
      "vruns view (k_tail_call K m i) v (\<lambda>p v'. (p = v_prog v m i \<or> p = None) \<and> v' = v)"
    and perf_event_output_doc:
      "vruns view (k_perf_event_output K m flags bs) v
         (\<lambda>r v'. (r = 0 \<and> v' = v\<lparr>v_out := v_out v @ [(m, flags, bs)]\<rparr>) \<or> (r < 0 \<and> v' = v))"
begin

lemma vruns_override [kwp]:
  "Q 0 (v\<lparr>v_ret := Some rc\<rparr>) \<Longrightarrow> vruns view (k_override_return K rc) v Q"
  by (rule vruns_mono [OF override_return_doc]) auto

lemma vruns_ktime [kwp]:
  "(\<And>t. v_time v \<le> t \<Longrightarrow> Q t (v\<lparr>v_time := t\<rparr>)) \<Longrightarrow> vruns view (k_ktime_get_ns K) v Q"
  by (rule vruns_mono [OF ktime_doc]) auto

lemma vruns_pid_tgid [kwp]:
  "Q (v_pid v) v \<Longrightarrow> vruns view (k_get_current_pid_tgid K) v Q"
  by (rule vruns_mono [OF pid_tgid_doc]) auto

lemma vruns_printk [kwp]:
  "(\<And>r. Q r (log_line fmt args v)) \<Longrightarrow> vruns view (k_trace_printk K fmt args) v Q"
  by (rule vruns_mono [OF printk_doc]) auto

lemma vruns_my_printk [kwp]: "(\<And>r. Q r v) \<Longrightarrow> vruns view (k_my_printk K) v Q"
  by (rule vruns_mono [OF my_printk_doc]) auto

lemma vruns_tail_call [kwp]:
  "Q (v_prog v m i) v \<Longrightarrow> Q None v \<Longrightarrow> vruns view (k_tail_call K m i) v Q"
  by (rule vruns_mono [OF tail_call_doc]) auto

lemma vruns_perf_event_output [kwp]:
  "(\<And>r. Q r (v\<lparr>v_out := v_out v @ [(m, flags, bs)]\<rparr>)) \<Longrightarrow> (\<And>r. r < 0 \<Longrightarrow> Q r v) \<Longrightarrow>
   vruns view (k_perf_event_output K m flags bs) v Q"
  by (rule vruns_mono [OF perf_event_output_doc]) auto

end

locale kernel_doc = map_helpers K view + memory_helpers K view + control_helpers K view
  for K :: "'s kapi" and view :: "'s \<Rightarrow> kview"

end
