(* ===== verification/Reduce.thy ===== *)
theory Reduce
  imports Kernel_Api
begin

text \<open>
  The programs that replace the copy of file contents to user space by a reduction: they parse
  numbers out of the kernel's buffer, store their average in a map and write a short text to
  the reader's buffer instead of the data (\<open>readiter_kern.c\<close>, \<open>tailcall_kern.c\<close>,
  \<open>bpfbench_kern.c\<close>).  Local arrays that the source leaves uninitialised are arguments.
\<close>

section \<open>Maps\<close>

definition my_read_map :: bpf_map_def where
  "my_read_map = \<lparr>bm_name = ''my_read_map'', bm_type = BPF_MAP_TYPE_ARRAY, bm_key_size = 4,
     bm_value_size = 8, bm_max_entries = 1\<rparr>"

definition result_map :: bpf_map_def where
  "result_map = \<lparr>bm_name = ''result_map'', bm_type = BPF_MAP_TYPE_ARRAY, bm_key_size = 4,
     bm_value_size = 8, bm_max_entries = 1\<rparr>"

definition jmp_table :: bpf_map_def where
  "jmp_table = \<lparr>bm_name = ''jmp_table'', bm_type = BPF_MAP_TYPE_PROG_ARRAY, bm_key_size = 4,
     bm_value_size = 4, bm_max_entries = 8\<rparr>"

abbreviation AVG_FUNC :: u32 where "AVG_FUNC \<equiv> 1"

section \<open>Text and arguments\<close>

abbreviation nl :: "string \<Rightarrow> string" where
  "nl s \<equiv> s @ [CHR 0x0A]"

abbreviation no_buffer :: string where
  "no_buffer \<equiv> nl ''error reading buffer value from map, read entry''"

text \<open>The key variable, a 32-bit zero, and a register converted to \<open>int\<close> and passed on.\<close>

definition key0 :: "u8 list" where
  "key0 = word_bytes (0 :: u32)"

definition int_arg :: "u64 \<Rightarrow> u64" where
  "int_arg w = word_of_int (to_int32 (uint w))"

text \<open>The text written to the reader, with and without a newline, and its NUL byte.\<close>

definition answer_nl :: "u8 list" where
  "answer_nl = bytes_of_string (nl ''42'') @ [0]"

definition answer :: "u8 list" where
  "answer = bytes_of_string ''42'' @ [0]"

section \<open>Tracing programs\<close>

definition trace_only :: "'s kapi \<Rightarrow> string \<Rightarrow> ('s, int) state" where
  "trace_only K msg = do { k_trace_printk K (nl msg) []; State_Monad.return 0 }"

definition readiter_bpf_prog1 :: "'s kapi \<Rightarrow> ('s, int) state" where
  "readiter_bpf_prog1 K = trace_only K ''copy_page_to_iter''"

definition readiter_bpf_prog2 :: "'s kapi \<Rightarrow> ('s, int) state" where
  "readiter_bpf_prog2 K = trace_only K ''ext4 file read''"

definition readiter_bpf_prog9 :: "'s kapi \<Rightarrow> ('s, int) state" where
  "readiter_bpf_prog9 K = trace_only K ''generic file read''"

definition readiter_bpf_prog3 :: "'s kapi \<Rightarrow> ('s, int) state" where
  "readiter_bpf_prog3 K = trace_only K ''copy_page_to_iter_pipe''"

definition readiter_bpf_prog4 :: "'s kapi \<Rightarrow> ('s, int) state" where
  "readiter_bpf_prog4 K = trace_only K ''_copy_to_iter_bpf''"

definition readiter_bpf_prog5 :: "'s kapi \<Rightarrow> ('s, int) state" where
  "readiter_bpf_prog5 K = trace_only K ''copy_to_iter_bpf''"

definition readiter_bpf_copy_to_iovec :: "'s kapi \<Rightarrow> pt_regs \<Rightarrow> ('s, int) state" where
  "readiter_bpf_copy_to_iovec K ctx = do {
     let copylen = int_arg (PT_REGS_PARM3 ctx);
     k_trace_printk K (nl ''copy_page_to_iter_iovec, bytes %d'') [Num copylen];
     State_Monad.return 0
   }"

definition readiter_bpf_copy_to_pipe :: "'s kapi \<Rightarrow> ('s, int) state" where
  "readiter_bpf_copy_to_pipe K = trace_only K ''copy_page_to_iter_pipe''"

text \<open>
  The three programs on the read path: a read of nine bytes into the registered buffer is
  reported.
\<close>

definition read_report :: "'s kapi \<Rightarrow> string \<Rightarrow> pt_regs \<Rightarrow> ('s, int) state" where
  "read_report K msg ctx = do {
     let to = PT_REGS_PARM2 ctx;
     let len = int_arg (PT_REGS_PARM3 ctx);
     val \<leftarrow> lookup_elem K my_read_map key0;
     case val of
       None \<Rightarrow> do { k_trace_printk K no_buffer []; State_Monad.return 0 }
     | Some val \<Rightarrow> do {
         buf \<leftarrow> load64 K val;
         if len = 9 \<and> to = buf
         then do { k_trace_printk K (nl msg) [Num len]; State_Monad.return 0 }
         else State_Monad.return 0
       }
   }"

definition readiter_bpf_prog11 :: "'s kapi \<Rightarrow> pt_regs \<Rightarrow> ('s, int) state" where
  "readiter_bpf_prog11 K ctx = read_report K ''__vfs_read %d'' ctx"

definition readiter_bpf_vfs_read :: "'s kapi \<Rightarrow> pt_regs \<Rightarrow> ('s, int) state" where
  "readiter_bpf_vfs_read K ctx = read_report K ''vfs_read %d'' ctx"

definition readiter_bpf_ksys_read :: "'s kapi \<Rightarrow> pt_regs \<Rightarrow> ('s, int) state" where
  "readiter_bpf_ksys_read K ctx = read_report K ''ksys_read %d'' ctx"

section \<open>The reduction over a page\<close>

text \<open>
  The loop over the numbers of the page.  None is the early return of the program when a number
  cannot be parsed.
\<close>

function sum_loop ::
  "'s kapi \<Rightarrow> u64 \<Rightarrow> nat \<Rightarrow> nat \<Rightarrow> u8 list \<Rightarrow> u64 \<Rightarrow> u64 \<Rightarrow> u64 \<Rightarrow> ('s, (u64 \<times> u64) option) state" where
  "sum_loop K from lim i cur num tot elems =
     (if i < lim then do {
        (ret, cur) \<leftarrow> k_probe_read_str K cur (Addr (from + word_of_nat i));
        (res, num) \<leftarrow> k_strtoul K cur 10 num;
        if res < 0 then State_Monad.return None
        else sum_loop K from lim (i + 3) cur num (tot + num) (elems + 1)
      }
      else State_Monad.return (Some (tot, elems)))"
  by pat_completeness auto
termination
  by (relation "measure (\<lambda>(K, from, lim, i, _). lim - i)") auto

declare sum_loop.simps [simp del]

definition UBUFFSIZE :: nat where "UBUFFSIZE = 4096"

definition readiter_bpf_copyout :: "'s kapi \<Rightarrow> u8 list \<Rightarrow> pt_regs \<Rightarrow> ('s, int) state" where
  "readiter_bpf_copyout K cur ctx = do {
     k_my_printk K;
     k_trace_printk K (nl ''entering modified copyout'') [];
     let to = PT_REGS_PARM1 ctx;
     let from = PT_REGS_PARM2 ctx;
     let blen = int_arg (PT_REGS_PARM3 ctx);
     val \<leftarrow> lookup_elem K my_read_map key0;
     case val of
       None \<Rightarrow> do { k_trace_printk K no_buffer []; State_Monad.return 0 }
     | Some val \<Rightarrow> do {
         buf \<leftarrow> load64 K val;
         k_trace_printk K (nl ''buffer on params %lu, buffer on map %lu'') [Num to, Num buf];
         buf \<leftarrow> load64 K val;
         if to = buf then do {
           k_override_return K 0;
           k_trace_printk K (nl ''copyout to 0x%p, ul %lu len %d'') [Num to, Num to, Num blen];
           acc \<leftarrow> sum_loop K from (UBUFFSIZE - 3) 0 cur 0 0 0;
           case acc of
             None \<Rightarrow> State_Monad.return 1
           | Some (tot, elems) \<Rightarrow> do {
               let avg = tot div elems;
               k_trace_printk K (nl ''sum of numbers is %lu, avg is %lu, read %lu elements'')
                 [Num tot, Num avg, Num elems];
               update_elem K result_map key0 (word_bytes avg) BPF_ANY;
               k_probe_write_user K to answer_nl;
               k_trace_printk K (nl ''now the to buffer is %s'') [Num to];
               State_Monad.return 0
             }
         }
         else State_Monad.return 0
       }
   }"

section \<open>The reduction behind a tail call\<close>

text \<open>
  A successful tail call runs the program of the table slot and does not come back; \<open>prog\<close> gives
  the programs by their descriptors.
\<close>

definition tailcall_bpf_prog7 ::
  "'s kapi \<Rightarrow> (int \<Rightarrow> pt_regs \<Rightarrow> ('s, int) state) \<Rightarrow> pt_regs \<Rightarrow> ('s, int) state" where
  "tailcall_bpf_prog7 K prog ctx = do {
     k_trace_printk K (nl ''entering modified copyout'') [];
     target \<leftarrow> k_tail_call K jmp_table AVG_FUNC;
     case target of
       Some fd \<Rightarrow> prog fd ctx
     | None \<Rightarrow> State_Monad.return 0
   }"

function tail_loop ::
  "'s kapi \<Rightarrow> u8 list \<Rightarrow> nat \<Rightarrow> u8 list \<Rightarrow> u64 \<Rightarrow> u64 \<Rightarrow> ('s, u64 option) state" where
  "tail_loop K userbuff i cur num tot =
     (if i < 9 then do {
        (ret, cur) \<leftarrow> k_probe_read_str K cur (Local (drop i userbuff));
        (res, num) \<leftarrow> k_strtoul K cur 10 num;
        if res < 0 then State_Monad.return None
        else do {
          k_trace_printk K (nl ''copyout char %s converted to %d'') [Bytes cur, Num num];
          tail_loop K userbuff (i + 3) cur num (tot + num)
        }
      }
      else State_Monad.return (Some tot))"
  by pat_completeness auto
termination
  by (relation "measure (\<lambda>(K, userbuff, i, _). 9 - i)") auto

declare tail_loop.simps [simp del]

definition bpf_func_AVG_FUNC :: "'s kapi \<Rightarrow> u8 list \<Rightarrow> u8 list \<Rightarrow> pt_regs \<Rightarrow> ('s, int) state" where
  "bpf_func_AVG_FUNC K userbuff cur ctx = do {
     k_my_printk K;
     k_trace_printk K (nl ''entering tail call'') [];
     let to = PT_REGS_PARM1 ctx;
     let from = PT_REGS_PARM2 ctx;
     let blen = int_arg (PT_REGS_PARM3 ctx);
     val \<leftarrow> lookup_elem K my_read_map key0;
     case val of
       None \<Rightarrow> do { k_trace_printk K no_buffer []; State_Monad.return 0 }
     | Some val \<Rightarrow> do {
         buf \<leftarrow> load64 K val;
         k_trace_printk K (nl ''buffer on params %lu, buffer on map %lu'') [Num to, Num buf];
         buf \<leftarrow> load64 K val;
         if to = buf then do {
           k_trace_printk K (nl ''copyout to 0x%p, ul %lu len %d'') [Num to, Num to, Num blen];
           (ret, userbuff) \<leftarrow> k_probe_read_str K userbuff (Addr from);
           k_trace_printk K (nl ''full buffer %s'') [Bytes userbuff];
           acc \<leftarrow> tail_loop K userbuff 0 cur 0 0;
           case acc of
             None \<Rightarrow> State_Monad.return 1
           | Some tot \<Rightarrow> do {
               let avg = tot div 3;
               k_trace_printk K (nl ''sum of numbers is %lu, avg is %lu'') [Num tot, Num avg];
               update_elem K result_map key0 (word_bytes avg) BPF_ANY;
               k_probe_write_user K to answer;
               k_trace_printk K (nl ''now to is %s'') [Num to];
               k_my_printk K;
               State_Monad.return 0
             }
         }
         else State_Monad.return 0
       }
   }"

definition bpf_func_MIN_FUNC :: "'s kapi \<Rightarrow> pt_regs \<Rightarrow> ('s, int) state" where
  "bpf_func_MIN_FUNC K ctx = State_Monad.return 0"

definition bpf_func_MAX_FUNC :: "'s kapi \<Rightarrow> pt_regs \<Rightarrow> ('s, int) state" where
  "bpf_func_MAX_FUNC K ctx = State_Monad.return 0"

section \<open>The reduction in chunks\<close>

primrec chunk_loop ::
  "'s kapi \<Rightarrow> u8 list \<Rightarrow> nat list \<Rightarrow> u64 \<times> u64 \<times> u64 \<Rightarrow> ('s, (u64 \<times> u64 \<times> u64) option) state" where
  "chunk_loop K userbuff [] acc = State_Monad.return (Some acc)"
| "chunk_loop K userbuff (j # js) acc = (case acc of (num, tot, elems) \<Rightarrow> do {
     (res, num) \<leftarrow> k_strtoul K (take 3 (drop (j * 3) userbuff)) 10 num;
     if res < 0 then State_Monad.return None
     else chunk_loop K userbuff js (num, tot + num, elems + 1)
   })"

primrec chunks_loop ::
  "'s kapi \<Rightarrow> u64 \<Rightarrow> u8 list \<Rightarrow> nat list \<Rightarrow> u64 \<times> u64 \<times> u64 \<Rightarrow>
   ('s, (u64 \<times> u64 \<times> u64) option) state" where
  "chunks_loop K from userbuff [] acc = State_Monad.return (Some acc)"
| "chunks_loop K from userbuff (i # is) acc = do {
     (ret, userbuff) \<leftarrow> k_probe_read_str K userbuff (Addr (from + word_of_nat (i * 256)));
     r \<leftarrow> chunk_loop K userbuff [0..<85] acc;
     case r of
       None \<Rightarrow> State_Monad.return None
     | Some acc \<Rightarrow> chunks_loop K from userbuff is acc
   }"

definition bpfbench_bpf_copyout :: "'s kapi \<Rightarrow> u8 list \<Rightarrow> pt_regs \<Rightarrow> ('s, int) state" where
  "bpfbench_bpf_copyout K userbuff ctx = do {
     let to = PT_REGS_PARM1 ctx;
     let from = PT_REGS_PARM2 ctx;
     val \<leftarrow> lookup_elem K my_read_map key0;
     case val of
       None \<Rightarrow> do { k_trace_printk K no_buffer []; State_Monad.return 0 }
     | Some val \<Rightarrow> do {
         buf \<leftarrow> load64 K val;
         if to = buf then do {
           k_override_return K 0;
           (ret, userbuff) \<leftarrow> k_probe_read_str K userbuff (Addr from);
           acc \<leftarrow> chunks_loop K from userbuff [0..<16] (0, 0, 0);
           case acc of
             None \<Rightarrow> State_Monad.return 1
           | Some (num, tot, elems) \<Rightarrow> do {
               update_elem K result_map key0 (word_bytes (tot div elems)) BPF_ANY;
               State_Monad.return 0
             }
         }
         else State_Monad.return 0
       }
   }"

end
