(* ===== verification/User_Lib.thy ===== *)
theory User_Lib
  imports Load_File Reduce
begin

text \<open>
  What the programs on the user side have in common.  A program is a function on the state of the
  loader, whose list of calls also records what the program itself asks of the system, and ends
  with an exit status.  The operations take the rest of the program as an argument, so an early
  \<open>return\<close> or \<open>exit\<close> is a program that does not use it.  Standard output is recorded as \<open>Puts\<close>;
  messages on standard error are left out.
\<close>

type_synonym uprog = "loader \<Rightarrow> (int \<times> loader) res"

definition ureturn :: "int \<Rightarrow> uprog" where
  "ureturn status L = Inr (status, L)"

definition ufail :: "fault \<Rightarrow> uprog" where
  "ufail e L = Inl e"

definition ucall :: "env \<Rightarrow> call \<Rightarrow> (reply \<Rightarrow> uprog) \<Rightarrow> uprog" where
  "ucall env c k L = (let (r, L) = do_call env c L in k r L)"

definition uputs :: "env \<Rightarrow> string \<Rightarrow> uprog \<Rightarrow> uprog" where
  "uputs env s k = ucall env (Puts s) (\<lambda>_. k)"

definition uload :: "nat \<Rightarrow> libelf \<Rightarrow> env \<Rightarrow> string \<Rightarrow> (int \<Rightarrow> uprog) \<Rightarrow> uprog" where
  "uload fuel lib env path k L = bind_res (load_bpf_file fuel lib env path L) (\<lambda>(ret, L). k ret L)"

text \<open>Access to an element of the map with a given number in \<open>map_fd\<close>.\<close>

definition uupdate :: "env \<Rightarrow> nat \<Rightarrow> u8 list \<Rightarrow> u8 list \<Rightarrow> (int \<Rightarrow> uprog) \<Rightarrow> uprog" where
  "uupdate env i key val k L =
     bind_res (nth_res (map_fd L) i) (\<lambda>fd.
     let (ret, h) = bpf_map_update_elem env fd key val BPF_ANY (calls L) in k ret (L\<lparr>calls := h\<rparr>))"

definition ulookup :: "env \<Rightarrow> nat \<Rightarrow> u8 list \<Rightarrow> (int \<Rightarrow> u8 list \<Rightarrow> uprog) \<Rightarrow> uprog" where
  "ulookup env i key k L =
     bind_res (nth_res (map_fd L) i) (\<lambda>fd.
     let (ret, val, h) = bpf_map_lookup_elem env fd key (calls L) in k ret val (L\<lparr>calls := h\<rparr>))"

text \<open>
  A variable that a failed lookup leaves uninitialised, and a buffer printed as a string: the
  bytes that a read has stored in fresh memory have to contain the end of the string.
\<close>

definition lookup_u64 :: "int \<Rightarrow> u8 list \<Rightarrow> u64 res" where
  "lookup_u64 ret val = (if ret \<noteq> 0 then Inl Uninit_read else Inr (bytes_word (take 8 val)))"

definition buffer_string :: "u8 list \<Rightarrow> string res" where
  "buffer_string bs = (if 0 \<in> set bs then Inr (string_of_bytes bs) else Inl Uninit_read)"

definition urun :: "'a res \<Rightarrow> ('a \<Rightarrow> uprog) \<Rightarrow> uprog" where
  "urun m k L = bind_res m (\<lambda>x. k x L)"

text \<open>
  The start that the programs share: the object file is named after the program, and a file that
  does not load ends the program with the verifier's log.
\<close>

definition object_name :: "string \<Rightarrow> string" where
  "object_name argv0 = snprintf_buf 256 (argv0 @ ''_kern.o'')"

definition load_or_log :: "nat \<Rightarrow> libelf \<Rightarrow> env \<Rightarrow> string \<Rightarrow> uprog \<Rightarrow> uprog" where
  "load_or_log fuel lib env argv0 k =
     uload fuel lib env (object_name argv0) (\<lambda>ret.
     if ret \<noteq> 0 then (\<lambda>L. uputs env (string_of_bytes (bpf_log_buf L)) (ureturn 1) L) else k)"

text \<open>
  \<open>strtoul\<close> on an array: it reads on while it finds white space, a sign and digits, past the end
  of the array when nothing else ends the number.
\<close>

definition strtoul_arr :: "u8 list \<Rightarrow> u64 res" where
  "strtoul_arr bs =
     (let s = map (\<lambda>b. char_of (unat b)) bs in
      if dropWhile isdigit (snd (split_sign s)) = [] then Inl Out_of_bounds else Inr (strtoul10 s))"

text \<open>\<open>%f\<close> of a difference of two clock readings, which are far below \<open>2 ^ 53\<close>.\<close>

definition fmt_f :: "int \<Rightarrow> string" where
  "fmt_f i = dec i @ ''.000000''"

section \<open>Rules\<close>

lemma post_ureturn [wp]: "post Q (ureturn status L) = Q (status, L)"
  by (simp add: ureturn_def)

lemma safe_ureturn [wp]: "safe Q (ureturn status L) = Q (status, L)"
  by (simp add: ureturn_def)

lemma ucall_eq [wp]:
  "ucall env c k L = k (env (calls L) c) (L\<lparr>calls := calls L @ [c]\<rparr>)"
  by (simp add: ucall_def do_call_def sys_def)

lemma uputs_eq [wp]: "uputs env s k L = k (L\<lparr>calls := calls L @ [Puts s]\<rparr>)"
  by (simp add: uputs_def ucall_eq)

abbreviation map_call :: "bpf_cmd \<Rightarrow> int \<Rightarrow> u8 list \<Rightarrow> u8 list \<Rightarrow> call" where
  "map_call cmd fd key val \<equiv>
     Bpf cmd (Map_elem \<lparr>a_elem_fd = word_of_int fd, a_key = key, a_value = val, a_flags = BPF_ANY\<rparr>)"

lemma uupdate_eq:
  "i < length (map_fd L) \<Longrightarrow>
   uupdate env i key val k L =
     k (r_ret (env (calls L) (map_call BPF_MAP_UPDATE_ELEM (map_fd L ! i) key val)))
       (L\<lparr>calls := calls L @ [map_call BPF_MAP_UPDATE_ELEM (map_fd L ! i) key val]\<rparr>)"
  by (simp add: uupdate_def nth_res_def bpf_map_update_elem_def sys_bpf_def sys_def elem_attr_def)

lemma ulookup_eq:
  "i < length (map_fd L) \<Longrightarrow>
   ulookup env i key k L =
     (let r = env (calls L) (map_call BPF_MAP_LOOKUP_ELEM (map_fd L ! i) key []) in
      k (r_ret r) (r_data r)
        (L\<lparr>calls := calls L @ [map_call BPF_MAP_LOOKUP_ELEM (map_fd L ! i) key []]\<rparr>))"
  by (simp add: ulookup_def nth_res_def bpf_map_lookup_elem_def sys_bpf_def sys_def elem_attr_def
      Let_def)

end
