(* ===== verification/Reduce_Facts.thy ===== *)
theory Reduce_Facts
  imports Reduce
begin

text \<open>
  What the loops of the reduction programs compute.  A page holds fields of three bytes, two
  digits and a separator; \<open>field\<close> is the value of one, \<open>sum_fields\<close> the reduction of a list of
  them, with None for a field that is not a number.
\<close>

section \<open>Fields\<close>

definition field :: "u8 list \<Rightarrow> nat option" where
  "field bs = map_option snd (parse_ul [bs ! 0, bs ! 1, 0])"

primrec sum_fields :: "nat option list \<Rightarrow> u64 \<times> u64 \<Rightarrow> (u64 \<times> u64) option" where
  "sum_fields [] acc = Some acc"
| "sum_fields (x # xs) acc =
     (case x of None \<Rightarrow> None
      | Some v \<Rightarrow> sum_fields xs (fst acc + word_of_nat v, snd acc + 1))"

definition page_fields :: "u8 list \<Rightarrow> nat \<Rightarrow> nat \<Rightarrow> nat option list" where
  "page_fields bs i n = map (\<lambda>k. field (drop (i + 3 * k) bs)) [0..<n]"

text \<open>
  The numbers that the program with chunks of 256 bytes parses: 85 groups of three bytes from the
  start of each chunk.
\<close>

definition group3 :: "u8 list \<Rightarrow> nat option" where
  "group3 bs = map_option snd (parse_ul (take 3 bs))"

definition chunk_groups :: "u8 list \<Rightarrow> nat \<Rightarrow> nat option list" where
  "chunk_groups bs i = map (\<lambda>j. group3 (drop (256 * i + j * 3) bs)) [0..<85]"

text \<open>
  The destination that the user program registered, and a run that leaves nothing behind but
  lines of the trace.
\<close>

definition registered :: "kview \<Rightarrow> u64 \<Rightarrow> bool" where
  "registered v to = (v_map v my_read_map key0 = Some (word_bytes to))"

definition only_logs :: "kview \<Rightarrow> kview \<Rightarrow> bool" where
  "only_logs v v' = (\<exists>l. v' = v\<lparr>v_log := v_log v @ l\<rparr>)"

lemma page_fields_0 [simp]: "page_fields bs i 0 = []"
  by (simp add: page_fields_def)

lemma page_fields_Suc [simp]: "page_fields bs i (Suc n) = field (drop i bs) # page_fields bs (i + 3) n"
  by (simp add: page_fields_def upt_conv_Cons map_Suc_upt [symmetric] algebra_simps del: upt_Suc)

lemma digit_small: "byte_isdigit d \<Longrightarrow> unat d - 48 \<le> 9"
  unfolding byte_isdigit_def by unat_arith

lemma byte_class_0 [simp]: "\<not> byte_isspace 0" "\<not> byte_isdigit 0"
  by (simp_all add: byte_isspace_def byte_isdigit_def)

lemma parse_copy3:
  assumes "length cur = 3"
  shows "parse_ul (copy_str [a, b, c] cur) = parse_ul [a, b, 0]"
proof -
  obtain x y z where "cur = [x, y, z]"
    using assms by (auto simp: numeral_3_eq_3 length_Suc_conv)
  then show ?thesis
    by (cases "a = 0"; cases "b = 0"; cases "c = 0"; simp add: copy_str_def parse_ul_def Let_def)
qed

lemma digits_value_bound:
  assumes "\<forall>d \<in> set ds. byte_isdigit d"
  shows "foldl (\<lambda>acc d. 10 * acc + (unat d - 48)) n ds < (n + 1) * 10 ^ length ds"
  using assms
proof (induction ds arbitrary: n)
  case (Cons d ds)
  then have "foldl (\<lambda>acc d. 10 * acc + (unat d - 48)) (10 * n + (unat d - 48)) ds <
      (10 * n + (unat d - 48) + 1) * 10 ^ length ds"
    by simp
  also have "\<dots> \<le> (10 * n + 10) * 10 ^ length ds"
    using Cons.prems digit_small [of d] by (intro mult_right_mono) auto
  finally show ?case
    by (simp add: algebra_simps)
qed simp

lemma parse_small:
  assumes "parse_ul buf = Some (n, x)"
  shows "x < 10 ^ length buf"
proof -
  let ?ds = "takeWhile byte_isdigit (dropWhile byte_isspace buf)"
  have "x < 10 ^ length ?ds"
    using assms digits_value_bound [of ?ds 0]
    by (auto simp: parse_ul_def Let_def digits_value_def dest: set_takeWhileD split: if_splits)
  also have "\<dots> \<le> 10 ^ length buf"
    using length_takeWhile_le [of byte_isdigit "dropWhile byte_isspace buf"]
      length_dropWhile_le [of byte_isspace buf] by (intro power_increasing) auto
  finally show ?thesis .
qed

lemma take3:
  assumes "i + 3 \<le> length bs"
  shows "take 3 (drop i bs) = [drop i bs ! 0, drop i bs ! 1, drop i bs ! 2]"
  using assms by (auto intro!: nth_equalityI simp: less_Suc_eq numeral_3_eq_3)

lemma sum_fields_Some:
  "sum_fields (map Some vs) (tot, elems) =
     Some (tot + word_of_nat (sum_list vs), elems + word_of_nat (length vs))"
  by (induction vs arbitrary: tot elems) (auto simp: algebra_simps)

lemma sum_fields_None: "None \<in> set xs \<Longrightarrow> sum_fields xs acc = None"
  by (induction xs arbitrary: acc) (auto split: option.split)

lemma sum_fields_append: "sum_fields (xs @ ys) acc = Option.bind (sum_fields xs acc) (sum_fields ys)"
  by (induction xs arbitrary: acc) (auto split: option.split)

lemma group3_chunk:
  assumes "length (take 256 (drop k bs)) = 256" and "j < 85"
  shows "group3 (drop (j * 3) (butlast (take 256 (drop k bs)) @ [0])) = group3 (drop (k + j * 3) bs)"
proof -
  have "take 3 (drop (j * 3) (butlast (take 256 (drop k bs)) @ [0])) = take 3 (drop (k + j * 3) bs)"
    using assms by (intro nth_equalityI) (auto simp: nth_append nth_butlast algebra_simps)
  then show ?thesis
    by (simp add: group3_def)
qed

text \<open>The average that the programs compute is the average of the numbers.\<close>

lemma word_div_nat:
  assumes "a < 2 ^ 64" and "b < 2 ^ 64"
  shows "(word_of_nat a :: u64) div word_of_nat b = word_of_nat (a div b)"
  using assms by (simp add: word_arith_nat_div unat_of_nat)

lemma sum_list_bound: "\<forall>v \<in> set vs. v < (c :: nat) \<Longrightarrow> sum_list vs \<le> length vs * c"
  by (induction vs) auto

text \<open>The maps of the programs.\<close>

lemma my_read_map_simps [simp]:
  "bm_key_size my_read_map = 4" "bm_value_size my_read_map = 8" "is_array my_read_map"
  "bm_max_entries my_read_map = 1"
  by (simp_all add: my_read_map_def is_array_def)

lemma result_map_simps [simp]:
  "bm_key_size result_map = 4" "bm_value_size result_map = 8" "is_array result_map"
  "bm_max_entries result_map = 1" "my_read_map \<noteq> result_map" "result_map \<noteq> my_read_map"
  by (simp_all add: result_map_def my_read_map_def is_array_def)

lemma key0_simps [simp]: "length key0 = 4" "take 4 key0 = key0" "le_nat key0 = 0"
  by (simp_all add: key0_def word_bytes_def le_nat_le_bytes)

lemma length_answer [simp]: "length answer_nl = 4" "length answer = 3"
  by (simp_all add: answer_nl_def answer_def)

lemma result_elem: "maps_ok_view v \<Longrightarrow> \<exists>bs. v_map v result_map key0 = Some bs"
  using key0_simps by (auto simp: maps_ok_view_def)

lemma unregistered_word:
  assumes "maps_ok_view v" and "\<not> registered v to" and "v_map v my_read_map key0 = Some bs"
  shows "to \<noteq> bytes_word (take 8 bs)"
proof -
  have "length bs = 8"
    using assms(1,3) by (auto simp: maps_ok_view_def)
  then show ?thesis
    using assms word_bytes_bytes_word64 [of bs] by (auto simp: registered_def)
qed

lemma registered_log_line [simp]: "registered (log_line fmt args v) to = registered v to"
  by (simp add: registered_def)

lemma only_logs_refl [simp]: "only_logs v v"
  unfolding only_logs_def by (rule exI [of _ "[]"]) simp

lemma only_logs_step [simp]: "only_logs v v' \<Longrightarrow> only_logs v (log_line fmt args v')"
  by (auto simp: only_logs_def log_line_def)

lemma copy_str_full:
  assumes "length src = length dst" and "\<forall>b \<in> set (butlast src). b \<noteq> 0" and "dst \<noteq> []"
  shows "copy_str src dst = butlast src @ [0]"
proof -
  have "src \<noteq> []"
    using assms(1,3) by auto
  then have src: "src = butlast src @ [last src]"
    by simp
  have all: "takeWhile (\<lambda>b. b \<noteq> 0) (butlast src @ [last src]) =
      butlast src @ takeWhile (\<lambda>b. b \<noteq> 0) [last src]"
    using assms(2) by (intro takeWhile_append2) auto
  have len: "length (butlast src) = length dst - 1"
    using assms(1) by simp
  show ?thesis
  proof (cases "last src = 0")
    case True
    then have "takeWhile (\<lambda>b. b \<noteq> 0) src = butlast src"
      using all src by simp
    then show ?thesis
      using len assms(3) by (simp add: copy_str_def)
  next
    case False
    then have "takeWhile (\<lambda>b. b \<noteq> 0) src = src"
      using all src by simp
    then show ?thesis
      unfolding copy_str_def Let_def using assms(1) by (simp only: butlast_conv_take) simp
  qed
qed

section \<open>The loop over a page\<close>

context kernel_doc
begin

lemma sum_loop_runs:
  assumes "mem_bytes v from n = Some bs" and "lim + 2 \<le> n" and "length cur = 3"
  shows "vruns view (sum_loop K from lim i cur num tot elems) v
           (\<lambda>r v'. v' = v \<and> r = sum_fields (page_fields bs i ((lim - i + 2) div 3)) (tot, elems))"
  using assms(3)
proof (induction "lim - i" arbitrary: i cur num tot elems rule: less_induct)
  case less
  show ?case
  proof (cases "i < lim")
    case False
    then show ?thesis
      by (subst sum_loop.simps) (auto intro: kwp)
  next
    case True
    let ?f = "drop i bs"
    have bytes: "mem_bytes v (from + word_of_nat i) 3 = Some [?f ! 0, ?f ! 1, ?f ! 2]"
      using mem_bytes_sub [OF assms(1), of i 3] take3 [of i bs] length_mem_bytes [OF assms(1)]
        True assms(2) less.prems by simp
    define c where "c = copy_str [?f ! 0, ?f ! 1, ?f ! 2] cur"
    have c: "length c = 3" and parse: "field ?f = map_option snd (parse_ul c)"
      using less.prems parse_copy3 [OF less.prems] unfolding c_def field_def
      by (subst length_copy_str, auto)
    have small: "x < 1000" if "parse_ul c = Some (k, x)" for k x
      using parse_small [OF that] c by simp
    have n: "(lim - i + 2) div 3 = Suc ((lim - (i + 3) + 2) div 3)"
      using True by presburger
    have "lim - (i + 3) < lim - i"
      using True by simp
    note IH = less.hyps [OF this c, simplified]
    show ?thesis
      unfolding sum_loop.simps [of K "from" lim i] if_P [OF True] n page_fields_Suc
      using less.prems True
      by (intro kwp)
        (auto simp: bytes parse c_def [symmetric] simp del: One_nat_def dest!: small intro: IH)
  qed
qed

text \<open>The copy of a page to a buffer that is registered, and to one that is not.\<close>

lemma readiter_copyout_registered:
  assumes "registered v (PT_REGS_PARM1 ctx)"
    and "mem_bytes v (PT_REGS_PARM2 ctx) UBUFFSIZE = Some bs"
    and "writable v (PT_REGS_PARM1 ctx) 4" and "length cur = 3"
  shows "vruns view (readiter_bpf_copyout K cur ctx) v
     (\<lambda>r v'. v_ret v' = Some 0 \<and>
        (case sum_fields (page_fields bs 0 1365) (0, 0) of
           None \<Rightarrow> r = 1 \<and> v_map v' = v_map v \<and> v_mem v' = v_mem v
         | Some (tot, elems) \<Rightarrow> r = 0 \<and>
             v_map v' = v_map (put_elem result_map key0 (word_bytes (tot div elems)) v) \<and>
             v_mem v' = mem_put (v_mem v) (PT_REGS_PARM1 ctx) answer_nl))"
proof (rule vruns_legal)
  assume "maps_ok_view v"
  then have result: "\<exists>bs. v_map v result_map key0 = Some bs"
    by (rule result_elem)
  have loop: "vruns view (sum_loop K (PT_REGS_PARM2 ctx) (UBUFFSIZE - 3) 0 cur 0 0 0) w
      (\<lambda>r v'. v' = w \<and> r = sum_fields (page_fields bs 0 1365) (0, 0))"
    if "mem_bytes w (PT_REGS_PARM2 ctx) UBUFFSIZE = Some bs" for w
    using sum_loop_runs [OF that, of "UBUFFSIZE - 3" cur 0 0 0 0] assms(4)
    by (simp add: UBUFFSIZE_def)
  show ?thesis
    using assms result unfolding readiter_bpf_copyout_def
    by (intro kwp vruns_mono [OF loop]; simp add: registered_def split: option.split; intro conjI impI allI kwp; simp)
qed

lemma readiter_copyout_unregistered:
  assumes "\<not> registered v (PT_REGS_PARM1 ctx)"
  shows "vruns view (readiter_bpf_copyout K cur ctx) v (\<lambda>r v'. r = 0 \<and> only_logs v v')"
proof (rule vruns_legal)
  assume "maps_ok_view v"
  with assms show ?thesis
    unfolding readiter_bpf_copyout_def
    by (intro kwp) (auto dest: unregistered_word)
qed

section \<open>The reduction behind a tail call\<close>

text \<open>
  Nine bytes are read as a string, so the last number has no separator.
\<close>

lemma tail_loop_runs:
  assumes "length bs = 9" and "length cur = 3" and "3 dvd i"
  shows "vruns view (tail_loop K bs i cur num tot) v
           (\<lambda>r v'. v_map v' = v_map v \<and> v_mem v' = v_mem v \<and> v_ret v' = v_ret v \<and> v_user v' = v_user v \<and>
              r = map_option fst (sum_fields (page_fields bs i ((9 - i + 2) div 3)) (tot, elems)))"
  using assms(2,3)
proof (induction "9 - i" arbitrary: i cur num tot elems v rule: less_induct)
  case less
  show ?case
  proof (cases "i < 9")
    case False
    then show ?thesis
      by (subst tail_loop.simps) (auto intro: kwp)
  next
    case True
    let ?f = "drop i bs"
    have le: "i + 3 \<le> 9"
      using True less.prems(2) by presburger
    have bytes: "take 3 ?f = [?f ! 0, ?f ! 1, ?f ! 2]"
      using take3 [of i bs] le assms(1) by simp
    define c where "c = copy_str (take 3 ?f) cur"
    have c: "length c = 3" and parse: "field ?f = map_option snd (parse_ul c)"
      using less.prems parse_copy3 [OF less.prems(1)] unfolding c_def field_def bytes
      by (subst length_copy_str, auto)
    have small: "x < 1000" if "parse_ul c = Some (k, x)" for k x
      using parse_small [OF that] c by simp
    have n: "(9 - i + 2) div 3 = Suc ((9 - (i + 3) + 2) div 3)"
      using True by presburger
    have "9 - (i + 3) < 9 - i" and "3 dvd i + 3"
      using True less.prems(2) by simp_all
    note IH = less.hyps [OF this(1) c this(2), simplified]
    show ?thesis
      unfolding tail_loop.simps [of K bs i] if_P [OF True] n page_fields_Suc
      using less.prems le assms(1)
      by (intro kwp)
        (auto simp: parse c_def [symmetric] dest!: small intro: vruns_mono [OF IH])
  qed
qed

lemma AVG_FUNC_registered:
  assumes "registered v (PT_REGS_PARM1 ctx)"
    and "mem_bytes v (PT_REGS_PARM2 ctx) 9 = Some bs" and "\<forall>b \<in> set (butlast bs). b \<noteq> 0"
    and "writable v (PT_REGS_PARM1 ctx) 3" and "length userbuff = 9" and "length cur = 3"
  shows "vruns view (bpf_func_AVG_FUNC K userbuff cur ctx) v
     (\<lambda>r v'. v_ret v' = v_ret v \<and>
        (case sum_fields (page_fields bs 0 3) (0, 0) of
           None \<Rightarrow> r = 1 \<and> v_map v' = v_map v \<and> v_mem v' = v_mem v
         | Some (tot, elems) \<Rightarrow> r = 0 \<and>
             v_map v' = v_map (put_elem result_map key0 (word_bytes (tot div 3)) v) \<and>
             v_mem v' = mem_put (v_mem v) (PT_REGS_PARM1 ctx) answer))"
proof (rule vruns_legal)
  assume "maps_ok_view v"
  then have result: "\<exists>bs. v_map v result_map key0 = Some bs"
    by (rule result_elem)
  have len: "length bs = 9"
    using assms(2) by (rule length_mem_bytes)
  have copy: "copy_str bs userbuff = butlast bs @ [0]"
    using len assms by (intro copy_str_full) auto
  have same: "page_fields (butlast bs @ [0]) 0 3 = page_fields bs 0 3"
    using len by (auto simp: page_fields_def field_def nth_append nth_butlast upt_rec)
  have loop: "vruns view (tail_loop K ub 0 cur 0 0) w
      (\<lambda>r v'. v_map v' = v_map w \<and> v_mem v' = v_mem w \<and> v_ret v' = v_ret w \<and> v_user v' = v_user w \<and>
         r = map_option fst (sum_fields (page_fields bs 0 3) (0, 0)))"
    if "ub = butlast bs @ [0]" for w ub
    using tail_loop_runs [of "butlast bs @ [0]" cur 0 0 0 w 0] len assms(6) same that by simp
  show ?thesis
    using assms result unfolding bpf_func_AVG_FUNC_def
    by (intro kwp vruns_mono [OF loop]; clarsimp simp: registered_def copy split: option.split;
        (intro conjI impI allI kwp; clarsimp simp: writable_def)?)
qed

section \<open>The reduction in chunks\<close>

lemma chunk_loop_runs:
  "vruns view (chunk_loop K buf js acc) v
     (\<lambda>r v'. v' = v \<and>
        map_option snd r = sum_fields (map (\<lambda>j. group3 (drop (j * 3) buf)) js) (snd acc))"
proof (induction js arbitrary: acc)
  case Nil
  show ?case
    by (cases acc) (simp add: vruns_def)
next
  case (Cons j js)
  obtain num tot elems where acc: "acc = (num, tot, elems)"
    by (cases acc)
  have small: "x < 1000" if "parse_ul (take 3 (drop (j * 3) buf)) = Some (k, x)" for k x
    using parse_small [OF that] power_increasing [of "length (take 3 (drop (j * 3) buf))" 3 "10 :: nat"]
    by simp
  show ?case
    unfolding acc chunk_loop.simps
    by (intro kwp) (auto simp: group3_def dest!: small intro: vruns_mono [OF Cons.IH])
qed

lemma chunks_loop_runs:
  assumes "mem_bytes v from n = Some bs" and "\<forall>i \<in> set is. 256 * i + 256 \<le> n"
    and "\<forall>b \<in> set bs. b \<noteq> 0" and "length buf = 256"
  shows "vruns view (chunks_loop K from buf is acc) v
     (\<lambda>r v'. v' = v \<and> map_option snd r = sum_fields (concat (map (chunk_groups bs) is)) (snd acc))"
  using assms(2,4)
proof (induction "is" arbitrary: buf acc)
  case Nil
  show ?case
    by (cases acc) (simp add: vruns_def)
next
  case (Cons i "is")
  let ?src = "take 256 (drop (256 * i) bs)"
  have len: "length ?src = 256" and bytes: "mem_bytes v (from + word_of_nat (i * 256)) 256 = Some ?src"
    using Cons.prems(1) length_mem_bytes [OF assms(1)] mem_bytes_sub [OF assms(1), of "256 * i" 256]
    by (auto simp: mult.commute)
  define c where "c = copy_str ?src buf"
  have c: "c = butlast ?src @ [0]"
    unfolding c_def using assms(3) len Cons.prems(2)
    by (intro copy_str_full) (auto dest!: in_set_butlastD in_set_takeD in_set_dropD)
  then have len_c: "length c = 256"
    using len by simp
  have groups: "map (\<lambda>j. group3 (drop (j * 3) c)) [0..<85] = chunk_groups bs i"
    unfolding chunk_groups_def c using group3_chunk [OF len] by (intro map_cong) auto
  have IH: "vruns view (chunks_loop K from c is acc') v
     (\<lambda>r v'. v' = v \<and> map_option snd r = sum_fields (concat (map (chunk_groups bs) is)) (snd acc'))" for acc'
    using Cons.prems(1) len_c by (intro Cons.IH) auto
  have rest: "vruns view (case r of None \<Rightarrow> State_Monad.return None
        | Some acc \<Rightarrow> chunks_loop K from c is acc) v
     (\<lambda>r' v'. v' = v \<and> map_option snd r' =
        Option.bind (map_option snd r) (sum_fields (concat (map (chunk_groups bs) is))))" for r
    by (cases r) (auto intro!: vruns_return vruns_mono [OF IH])
  have chunk: "vruns view (chunk_loop K c [0..<85] acc) v
     (\<lambda>r v'. v' = v \<and> map_option snd r = sum_fields (chunk_groups bs i) (snd acc))"
    using chunk_loop_runs [of c "[0..<85]" acc v] unfolding groups .
  show ?case
    unfolding chunks_loop.simps list.map concat.simps sum_fields_append
    using Cons.prems(2) bytes
    by (intro kwp; clarsimp)
      (auto intro!: vruns_mono [OF chunk [unfolded c_def]] vruns_mono [OF rest [unfolded c_def]])
qed

lemma bpfbench_copyout_registered:
  assumes "registered v (PT_REGS_PARM1 ctx)"
    and "mem_bytes v (PT_REGS_PARM2 ctx) 4096 = Some bs" and "\<forall>b \<in> set bs. b \<noteq> 0"
    and "length buf = 256"
  shows "vruns view (bpfbench_bpf_copyout K buf ctx) v
     (\<lambda>r v'. v_ret v' = Some 0 \<and> v_mem v' = v_mem v \<and>
        (case sum_fields (concat (map (chunk_groups bs) [0..<16])) (0, 0) of
           None \<Rightarrow> r = 1 \<and> v_map v' = v_map v
         | Some (tot, elems) \<Rightarrow> r = 0 \<and>
             v_map v' = v_map (put_elem result_map key0 (word_bytes (tot div elems)) v)))"
proof (rule vruns_legal)
  assume "maps_ok_view v"
  then have result: "\<exists>bs. v_map v result_map key0 = Some bs"
    by (rule result_elem)
  let ?sum = "sum_fields (concat (map (chunk_groups bs) [0..<16])) (0, 0)"
  have loop: "vruns view (chunks_loop K (PT_REGS_PARM2 ctx) ub [0..<16] (0, 0, 0)) w
      (\<lambda>r v'. v' = w \<and> (case ?sum of None \<Rightarrow> r = None
          | Some (tot, elems) \<Rightarrow> \<exists>num. r = Some (num, tot, elems)))"
    if "length ub = 256" and "mem_bytes w (PT_REGS_PARM2 ctx) 4096 = Some bs" for w ub
    by (rule vruns_mono [OF chunks_loop_runs [OF that(2) _ assms(3) that(1)]])
      (auto split: option.split)
  have len: "length (copy_str x buf) = 256" if "mem_bytes w a (length buf) = Some x" for x w a
    using length_mem_bytes [OF that] assms(4) by (subst length_copy_str) auto
  show ?thesis
    using assms result unfolding bpfbench_bpf_copyout_def
    by (intro kwp vruns_mono [OF loop]; clarsimp simp: registered_def len split: option.splits;
        intro kwp; clarsimp)
qed

end

end
