(* ===== verification/Reduce_User.thy ===== *)
theory Reduce_User
  imports User_Lib Reduce_Facts
begin

text \<open>
  The user side of the reductions: the programs that register a buffer, read the file through
  the probed kernel and print the average (\<open>readiter_user.c\<close>, \<open>tailcall_user.c\<close>,
  \<open>bpfbench_user.c\<close>), and the program that computes the same average in user space
  (\<open>userbench.c\<close>).
\<close>

section \<open>Reading through the kernel\<close>

definition loaded_text :: string where
  "loaded_text = nl ''loaded module OK.'' @
     nl ''Check the trace pipe to see the output : sudo cat /sys/kernel/debug/tracing/trace_pipe ''"

text \<open>The two programs differ in the size of the buffer and in the number of bytes they read.\<close>

definition read_through :: "nat \<Rightarrow> libelf \<Rightarrow> env \<Rightarrow> string \<Rightarrow> nat \<Rightarrow> nat \<Rightarrow> uprog" where
  "read_through fuel lib env argv0 alloc count =
     uputs env (nl (''eBPF file to be loaded is : '' @ object_name argv0 @ '' '')) (
     load_or_log fuel lib env argv0 (
     ucall env (Open ''f'' [O_RDONLY]) (\<lambda>r. let fd = r_ret r in
     if fd = - 1 then uputs env (nl ''error open file'') (ureturn 1)
     else
       ucall env (Malloc alloc) (\<lambda>r. let buf = r_ret r in
       uputs env (nl (''buffer on user side = '' @ dec buf)) (
       uupdate env 0 key0 (word_bytes (word_of_int buf :: u64)) (\<lambda>ret.
       if ret \<noteq> 0 then ureturn 1
       else
         ucall env (Read_buf fd buf count) (\<lambda>rd.
         uputs env (nl (''retval = '' @ dec (to_int32 (r_ret rd)))) (
         ulookup env 1 key0 (\<lambda>ret val.
         urun (lookup_u64 ret val) (\<lambda>avg.
         urun (buffer_string (r_data rd)) (\<lambda>text.
         uputs env (nl (''avg = '' @ dec_nat (unat avg) @ '', on buffer '' @ text)) (
         uputs env loaded_text (
         ucall env (Close fd) (\<lambda>_. ureturn 0))))))))))))))"

definition readiter_main :: "nat \<Rightarrow> libelf \<Rightarrow> env \<Rightarrow> string \<Rightarrow> uprog" where
  "readiter_main fuel lib env argv0 = read_through fuel lib env argv0 4096 4066"

definition tailcall_main :: "nat \<Rightarrow> libelf \<Rightarrow> env \<Rightarrow> string \<Rightarrow> uprog" where
  "tailcall_main fuel lib env argv0 = read_through fuel lib env argv0 50 9"

definition bpfbench_main :: "nat \<Rightarrow> libelf \<Rightarrow> env \<Rightarrow> string \<Rightarrow> uprog" where
  "bpfbench_main fuel lib env argv0 =
     load_or_log fuel lib env argv0 (
     ucall env (Open ''f'' [O_RDONLY]) (\<lambda>r. let fd = r_ret r in
     if fd = - 1 then uputs env (nl ''error open file'') (ureturn 1)
     else
       ucall env (Malloc 4096) (\<lambda>r. let buf = r_ret r in
       uupdate env 0 key0 (word_bytes (word_of_int buf :: u64)) (\<lambda>ret.
       if ret \<noteq> 0 then ureturn 1
       else
         ucall env (Libc ''clock'' []) (\<lambda>start.
         ucall env (Read_buf fd buf 4096) (\<lambda>rd.
         ucall env (Libc ''clock'' []) (\<lambda>stop.
         uputs env (nl (''retval = '' @ dec (to_int32 (r_ret rd)))) (
         ulookup env 1 key0 (\<lambda>ret val.
         urun (lookup_u64 ret val) (\<lambda>avg.
         uputs env (nl (''avg = '' @ dec_nat (unat avg) @ '', time taken '' @
                        fmt_f (r_ret stop - r_ret start))) (
         ucall env (Close fd) (\<lambda>_. ureturn 0))))))))))))"

section \<open>The average in user space\<close>

text \<open>The loop over the bytes that were read; the bound is \<open>readbytes - 3\<close>.\<close>

function bench_loop :: "u8 list \<Rightarrow> int \<Rightarrow> nat \<Rightarrow> u64 \<Rightarrow> u64 \<Rightarrow> (u64 \<times> u64) res" where
  "bench_loop buf lim i tot elems =
     (if int i < lim then
        bind_res (slice_res buf i 3) (\<lambda>cur.
        bind_res (strtoul_arr cur) (\<lambda>num.
        bench_loop buf lim (i + 3) (tot + num) (elems + 1)))
      else Inr (tot, elems))"
  by pat_completeness auto
termination
  by (relation "measure (\<lambda>(buf, lim, i, _). nat (lim - int i))") auto

declare bench_loop.simps [simp del]

definition div_res :: "u64 \<Rightarrow> u64 \<Rightarrow> u64 res" where
  "div_res a b = (if b = 0 then Inl Div_by_zero else Inr (a div b))"

definition userbench_main :: "env \<Rightarrow> uprog" where
  "userbench_main env =
     ucall env (Open ''f'' [O_RDONLY]) (\<lambda>r. let fd = r_ret r in
     if fd = - 1 then uputs env (nl ''error open file'') (ureturn 1)
     else
       ucall env (Malloc 4096) (\<lambda>r. let buf = r_ret r in
       ucall env (Libc ''clock'' []) (\<lambda>start.
       ucall env (Read_buf fd buf 4096) (\<lambda>rd. let readbytes = r_ret rd in
       urun (bench_loop (r_data rd) (readbytes - 3) 0 0 0) (\<lambda>(tot, elems).
       urun (div_res tot elems) (\<lambda>avg.
       ucall env (Libc ''clock'' []) (\<lambda>stop.
       uputs env (nl (''avg = '' @ dec_nat (unat avg) @ '', clock cycles '' @
                      fmt_f (r_ret stop - r_ret start))) (
       ucall env (Close fd) (\<lambda>_. ureturn 0)))))))))"

section \<open>What the loop computes\<close>

text \<open>A record is two digits and a byte that is not a digit.\<close>

definition record_at :: "u8 list \<Rightarrow> nat \<Rightarrow> bool" where
  "record_at bs i = (byte_isdigit (bs ! i) \<and> byte_isdigit (bs ! (i + 1)) \<and> \<not> byte_isdigit (bs ! (i + 2)))"

definition record_value :: "u8 list \<Rightarrow> nat \<Rightarrow> nat" where
  "record_value bs i = 10 * (unat (bs ! i) - 48) + (unat (bs ! (i + 1)) - 48)"

definition record_values :: "u8 list \<Rightarrow> nat \<Rightarrow> nat list" where
  "record_values bs n = map (\<lambda>k. record_value bs (3 * k)) [0..<n]"

lemma isdigit_byte: "isdigit (char_of (unat b)) = byte_isdigit b"
  by (simp add: isdigit_def byte_isdigit_def Let_def of_char_of word_le_nat_alt)

lemma digit_val_byte: "digit_val (char_of (unat (b :: u8))) = unat b - 48"
  using unat_u8_lt [of b] by (simp add: digit_val_def of_char_of)

lemma strtoul_record:
  assumes "byte_isdigit a" and "byte_isdigit b" and "\<not> byte_isdigit c"
  shows "strtoul_arr [a, b, c] = Inr (word_of_nat (10 * (unat a - 48) + (unat b - 48)))"
proof -
  let ?s = "map (\<lambda>b. char_of (unat b)) [a, b, c]"
  have sign: "split_sign ?s = (False, ?s)"
    using assms(1) by (simp add: split_sign_digit isdigit_byte)
  have v: "read_digits ?s 0 = 10 * (unat a - 48) + (unat b - 48)"
    using assms by (simp add: isdigit_byte digit_val_byte)
  have "10 * (unat a - 48) + (unat b - 48) < 3000"
    using unat_u8_lt [of a] unat_u8_lt [of b] by linarith
  then show ?thesis
    using sign v assms by (simp add: strtoul_arr_def strtoul10_def isdigit_byte Let_def del: read_digits.simps)
qed

lemma bench_loop_eq:
  assumes "\<And>k. k < n \<Longrightarrow> record_at bs (i + 3 * k)" and "int i + 3 * int n - 3 < lim \<or> n = 0"
    and "lim \<le> int i + 3 * int n" and "lim + 2 \<le> int (length bs)"
  shows "bench_loop bs lim i tot elems =
     Inr (tot + word_of_nat (sum_list (map (\<lambda>k. record_value bs (i + 3 * k)) [0..<n])),
          elems + word_of_nat n)"
  using assms
proof (induction n arbitrary: i tot elems)
  case 0
  then show ?case
    by (subst bench_loop.simps) simp
next
  case (Suc n)
  have i: "int i < lim"
    using Suc.prems(2) by auto
  then have le: "i + 3 \<le> length bs"
    using Suc.prems(4) by linarith
  have "slice_res bs i 3 = Inr [bs ! i, bs ! (i + 1), bs ! (i + 2)]"
    using le take3 [OF le] by (simp add: slice_res_def)
  moreover have "strtoul_arr [bs ! i, bs ! (i + 1), bs ! (i + 2)] = Inr (word_of_nat (record_value bs i))"
    using Suc.prems(1) [of 0] strtoul_record by (simp add: record_at_def record_value_def)
  moreover have "bench_loop bs lim (i + 3) (tot + word_of_nat (record_value bs i)) (elems + 1) =
      Inr (tot + word_of_nat (record_value bs i) +
             word_of_nat (sum_list (map (\<lambda>k. record_value bs (i + 3 + 3 * k)) [0..<n])),
           elems + 1 + word_of_nat n)"
    using Suc.prems Suc.prems(1) [of "Suc _"] by (intro Suc.IH) (auto simp: algebra_simps)
  ultimately show ?case
    using i by (subst bench_loop.simps)
      (simp add: upt_conv_Cons map_Suc_upt [symmetric] o_def algebra_simps del: upt_Suc)
qed

end
