(* ===== verification/Ref_Kernel.thy ===== *)
theory Ref_Kernel
  imports Kernel_Api
begin

text \<open>
  A kernel that behaves as documented: helpers that compute on a state with maps, memory and
  logs.  It interprets the locale \<open>kernel_doc\<close>, so the documentation is satisfiable, and the
  programs can be run on concrete states.
\<close>

definition elem_ok :: "bpf_map_def \<Rightarrow> u8 list \<Rightarrow> bool" where
  "elem_ok m key = (length key = unat (bm_key_size m) \<and> le_nat key < unat (bm_max_entries m))"

text \<open>
  The elements of a map in a state: those of an array exist for every index and are zero at first.
\<close>

definition elem_of :: "bpf_map_def \<Rightarrow> u8 list \<Rightarrow> u8 list option \<Rightarrow> u8 list option" where
  "elem_of m key raw =
     (case raw of
        Some bs \<Rightarrow>
          if length bs = unat (bm_value_size m) \<and> (is_array m \<longrightarrow> elem_ok m key) then Some bs
          else if is_array m \<and> elem_ok m key then Some (replicate (unat (bm_value_size m)) 0)
          else None
      | None \<Rightarrow>
          if is_array m \<and> elem_ok m key then Some (replicate (unat (bm_value_size m)) 0) else None)"

definition ref_view :: "kview \<Rightarrow> kview" where
  "ref_view v = v\<lparr>v_map := \<lambda>m key. elem_of m key (v_map v m key)\<rparr>"

definition ref_lookup :: "bpf_map_def \<Rightarrow> u8 list \<Rightarrow> (kview, bool) state" where
  "ref_lookup m key = State (\<lambda>v. (v_map (ref_view v) m key \<noteq> None, v))"

definition ref_load :: "kref \<Rightarrow> (kview, u8 list) state" where
  "ref_load p = State (\<lambda>v. (case v_map (ref_view v) (fst p) (snd p) of Some bs \<Rightarrow> bs | None \<Rightarrow> [], v))"

definition ref_store :: "kref \<Rightarrow> u8 list \<Rightarrow> (kview, unit) state" where
  "ref_store p bs = State (\<lambda>v. ((), put_elem (fst p) (snd p) bs v))"

definition ref_update :: "bpf_map_def \<Rightarrow> u8 list \<Rightarrow> u8 list \<Rightarrow> u64 \<Rightarrow> (kview, int) state" where
  "ref_update m key bs flags = State (\<lambda>v.
     if (is_array m \<and> (flags = BPF_NOEXIST \<or> v_map (ref_view v) m key = None)) \<or>
        length bs \<noteq> unat (bm_value_size m) \<or>
        (\<not> is_array m \<and> flags = BPF_NOEXIST \<and> v_map (ref_view v) m key \<noteq> None)
     then (- 22, v) else (0, put_elem m key bs v))"

definition ref_delete :: "bpf_map_def \<Rightarrow> u8 list \<Rightarrow> (kview, int) state" where
  "ref_delete m key = State (\<lambda>v.
     if is_array m then (- 22, v)
     else if v_map v m key = None then (- 2, v)
     else (0, v\<lparr>v_map := (v_map v)(m := (v_map v m)(key := None))\<rparr>))"

definition ref_probe_read :: "u8 list \<Rightarrow> kptr \<Rightarrow> (kview, int \<times> u8 list) state" where
  "ref_probe_read dst p = State (\<lambda>v.
     (case p of
        Local bs \<Rightarrow> (0, take (length dst) bs)
      | Addr a \<Rightarrow> (case mem_bytes v a (length dst) of
            Some bs \<Rightarrow> (0, bs) | None \<Rightarrow> (- 14, replicate (length dst) 0)), v))"

definition ref_probe_read_str :: "u8 list \<Rightarrow> kptr \<Rightarrow> (kview, int \<times> u8 list) state" where
  "ref_probe_read_str dst p = State (\<lambda>v.
     (case (case p of Local bs \<Rightarrow> Some (take (length dst) bs) | Addr a \<Rightarrow> mem_bytes v a (length dst)) of
        Some bs \<Rightarrow> (int (min (length dst) (Suc (length (takeWhile (\<lambda>b. b \<noteq> 0) bs)))), copy_str bs dst)
      | None \<Rightarrow> (- 14, dst), v))"

definition ref_probe_write_user :: "u64 \<Rightarrow> u8 list \<Rightarrow> (kview, int) state" where
  "ref_probe_write_user a bs = State (\<lambda>v.
     if writable v a (length bs) then (0, v\<lparr>v_mem := mem_put (v_mem v) a bs\<rparr>) else (- 1, v))"

definition ref_strtol :: "u8 list \<Rightarrow> u64 \<Rightarrow> u64 \<Rightarrow> (kview, int \<times> u64) state" where
  "ref_strtol buf flags old = State (\<lambda>v.
     (case parse_ul buf of
        None \<Rightarrow> (- 22, old)
      | Some (n, x) \<Rightarrow> if x < 2 ^ 63 then (int n, word_of_nat x) else (- 34, old), v))"

definition ref_strtoul :: "u8 list \<Rightarrow> u64 \<Rightarrow> u64 \<Rightarrow> (kview, int \<times> u64) state" where
  "ref_strtoul buf flags old = State (\<lambda>v.
     (case parse_ul buf of
        None \<Rightarrow> (- 22, old)
      | Some (n, x) \<Rightarrow> if x < 2 ^ 64 then (int n, word_of_nat x) else (- 34, old), v))"

definition ref_kernel :: "kview kapi" where
  "ref_kernel = \<lparr>
     k_lookup = ref_lookup,
     k_load = ref_load,
     k_store = ref_store,
     k_update = ref_update,
     k_delete = ref_delete,
     k_probe_read = ref_probe_read,
     k_probe_read_str = ref_probe_read_str,
     k_probe_write_user = ref_probe_write_user,
     k_override_return = (\<lambda>rc. State (\<lambda>v. (0, v\<lparr>v_ret := Some rc\<rparr>))),
     k_strtol = ref_strtol,
     k_strtoul = ref_strtoul,
     k_ktime_get_ns = State (\<lambda>v. (v_time v, v)),
     k_get_current_pid_tgid = State (\<lambda>v. (v_pid v, v)),
     k_trace_printk = (\<lambda>fmt args. State (\<lambda>v. (0, v\<lparr>v_log := v_log v @ [(fmt, args)]\<rparr>))),
     k_my_printk = State (\<lambda>v. (0, v)),
     k_tail_call = (\<lambda>m i. State (\<lambda>v. (v_prog v m i, v))),
     k_perf_event_output = (\<lambda>m flags bs. State (\<lambda>v. (0, v\<lparr>v_out := v_out v @ [(m, flags, bs)]\<rparr>)))\<rparr>"

definition start_view :: kview where
  "start_view = \<lparr>v_map = \<lambda>_ _. None, v_mem = \<lambda>_. None, v_user = \<lambda>_. False, v_ret = None, v_log = [],
     v_time = 1, v_pid = 0, v_prog = \<lambda>_ _. None, v_out = []\<rparr>"

section \<open>The reference kernel meets the documentation\<close>

lemma ref_view_simps [simp]:
  "v_mem (ref_view v) = v_mem v" "v_user (ref_view v) = v_user v" "v_ret (ref_view v) = v_ret v"
  "v_log (ref_view v) = v_log v" "v_time (ref_view v) = v_time v" "v_pid (ref_view v) = v_pid v"
  "v_prog (ref_view v) = v_prog v" "v_out (ref_view v) = v_out v"
  by (simp_all add: ref_view_def)

lemma ref_view_upd [simp]:
  "ref_view (v\<lparr>v_mem := mem\<rparr>) = (ref_view v)\<lparr>v_mem := mem\<rparr>"
  "ref_view (v\<lparr>v_ret := ret\<rparr>) = (ref_view v)\<lparr>v_ret := ret\<rparr>"
  "ref_view (v\<lparr>v_log := log'\<rparr>) = (ref_view v)\<lparr>v_log := log'\<rparr>"
  "ref_view (v\<lparr>v_time := t\<rparr>) = (ref_view v)\<lparr>v_time := t\<rparr>"
  "ref_view (v\<lparr>v_out := out\<rparr>) = (ref_view v)\<lparr>v_out := out\<rparr>"
  by (simp_all add: ref_view_def)

lemma v_map_ref_view: "v_map (ref_view v) m key = elem_of m key (v_map v m key)"
  by (simp add: ref_view_def)

lemma mem_bytes_ref_view [simp]: "mem_bytes (ref_view v) a n = mem_bytes v a n"
  by (simp add: mem_bytes_def)

lemma writable_ref_view [simp]: "writable (ref_view v) a n = writable v a n"
  by (simp add: writable_def)

lemma ref_view_put_elem:
  assumes "length bs = unat (bm_value_size m)" and "is_array m \<longrightarrow> elem_ok m key"
  shows "ref_view (put_elem m key bs v) = put_elem m key bs (ref_view v)"
  using assms by (auto simp: ref_view_def put_elem_def elem_of_def fun_eq_iff)

lemma elem_of_array: "is_array m \<Longrightarrow> (elem_of m key raw \<noteq> None) = elem_ok m key"
  by (auto simp: elem_of_def split: option.split)

lemma length_elem_of: "elem_of m key raw = Some bs \<Longrightarrow> length bs = unat (bm_value_size m)"
  by (auto simp: elem_of_def split: option.splits if_splits)

lemma ref_view_log_line [simp]: "ref_view (log_line fmt args v) = log_line fmt args (ref_view v)"
  by (simp add: log_line_def)

lemma maps_ok_ref_view: "maps_ok_view (ref_view v)"
  unfolding maps_ok_view_def v_map_ref_view
  using elem_of_array length_elem_of by (auto simp: elem_ok_def)

lemma ref_view_put_present:
  assumes "v_map (ref_view v) m key \<noteq> None" and "length bs = unat (bm_value_size m)"
  shows "ref_view (put_elem m key bs v) = put_elem m key bs (ref_view v)"
  using assms elem_of_array [of m key "v_map v m key"]
  by (intro ref_view_put_elem) (auto simp: v_map_ref_view)

interpretation ref: hash_helpers ref_kernel ref_view
proof (unfold_locales, goal_cases)
  case (1 s)
  show ?case
    by (rule maps_ok_ref_view)
next
  case (4 v m key bs)
  then show ?case
    by (auto simp: vruns_def ref_kernel_def ref_store_def ref_view_put_present)
next
  case (5 m v key bs)
  then show ?case
    by (auto simp: vruns_def ref_kernel_def ref_update_def ref_view_put_present)
qed (auto simp: vruns_def ref_kernel_def ref_lookup_def ref_load_def ref_update_def ref_delete_def
       ref_view_put_elem)

lemma ref_mem_unchanged: "\<exists>mem. ref_view s = (ref_view s)\<lparr>v_mem := mem\<rparr>"
  by (rule exI [of _ "v_mem (ref_view s)"]) (cases "ref_view s", simp)

interpretation ref: kernel_doc ref_kernel ref_view
  by unfold_locales
    (auto simp: vruns_def ref_kernel_def ref_probe_read_def ref_probe_read_str_def
       ref_probe_write_user_def ref_strtol_def ref_strtoul_def length_mem_bytes length_copy_str
       ref_mem_unchanged split: option.split)

end
