(* ===== verification/Reduce_Props.thy ===== *)
theory Reduce_Props
  imports Reduce_User Ref_Kernel Sample_Object
begin

text \<open>
  The properties of the reductions: what reaches the user for a registered buffer, that other
  readers are left alone, what happens on bad input, and that the kernel computes what the
  program in user space computes.
\<close>

section \<open>A sample page\<close>

text \<open>A page of the text \<open>42\<close> with newlines at address 4096, and a buffer for it at 65536.\<close>

definition sample_byte :: "nat \<Rightarrow> u8" where
  "sample_byte i = (if i mod 3 = 0 then 52 else if i mod 3 = 1 then 50 else 10)"

definition sample_page :: "u8 list" where
  "sample_page = map sample_byte [0..<4096]"

definition sample_regs :: pt_regs where
  "sample_regs = \<lparr>PT_REGS_PARM1 = 65536, PT_REGS_PARM2 = 4096, PT_REGS_PARM3 = 4096, PT_REGS_IP = 0\<rparr>"

definition sample_view :: kview where
  "sample_view = start_view\<lparr>
     v_map := (\<lambda>_ _. None)(my_read_map := [key0 \<mapsto> word_bytes (65536 :: u64)]),
     v_mem := (\<lambda>a. if 4096 \<le> unat a \<and> unat a < 8192 then Some (sample_byte (unat a - 4096))
                   else if 65536 \<le> unat a \<and> unat a < 65552 then Some 0 else None),
     v_user := (\<lambda>a. 65536 \<le> unat a),
     v_prog := (\<lambda>m i. if m = jmp_table \<and> i = AVG_FUNC then Some 7 else None)\<rparr>"

abbreviation sample :: kview where
  "sample \<equiv> ref_view sample_view"

lemma sample_regs_simps [simp]:
  "PT_REGS_PARM1 sample_regs = 65536" "PT_REGS_PARM2 sample_regs = 4096"
  by (simp_all add: sample_regs_def)

lemma sample_registered: "registered sample 65536"
  by (simp add: registered_def v_map_ref_view sample_view_def elem_of_def elem_ok_def)

lemma unat_addr: "i < 4096 \<Longrightarrow> n < 2 ^ 20 \<Longrightarrow> unat ((word_of_nat n :: u64) + word_of_nat i) = n + i"
  by (simp add: unat_of_nat unat_word_ariths)

lemma sample_mem: "mem_bytes sample_view 4096 4096 = Some sample_page"
proof -
  have "v_mem sample_view (4096 + word_of_nat i) = Some (sample_byte i)" if "i < 4096" for i
    using unat_addr [OF that, of 4096] that by (simp add: sample_view_def)
  then show ?thesis
    by (simp add: mem_bytes_def sample_page_def)
qed

lemma sample_writable: "n \<le> 16 \<Longrightarrow> writable sample_view 65536 n"
  using unat_addr [of _ 65536] by (auto simp: writable_def sample_view_def)

lemma length_sample_page [simp]: "length sample_page = 4096"
  by (simp add: sample_page_def)

lemma nth_sample_page: "i < 4096 \<Longrightarrow> sample_page ! i = sample_byte i"
  by (simp add: sample_page_def)

lemma sample_byte_simps [simp]:
  "sample_byte (3 * k) = 52" "sample_byte (Suc (3 * k)) = 50" "sample_byte (Suc (Suc (3 * k))) = 10"
proof -
  have "Suc (3 * k) mod 3 = 1" "Suc (Suc (3 * k)) mod 3 = 2"
    by presburger+
  then show "sample_byte (3 * k) = 52" "sample_byte (Suc (3 * k)) = 50"
    "sample_byte (Suc (Suc (3 * k))) = 10"
    by (simp_all add: sample_byte_def)
qed

lemma sample_record: "k < 1365 \<Longrightarrow> record_at sample_page (3 * k)"
  by (simp add: record_at_def nth_sample_page byte_isdigit_def)

lemma sample_value: "k < 1365 \<Longrightarrow> record_value sample_page (3 * k) = 42"
  by (simp add: record_value_def nth_sample_page)

lemma field_record:
  assumes "record_at bs i" and "i + 2 < length bs"
  shows "field (drop i bs) = Some (record_value bs i)"
proof -
  have "\<not> byte_isspace (bs ! i)" if "byte_isdigit (bs ! i)"
    using that unfolding byte_isdigit_def byte_isspace_def by unat_arith
  then show ?thesis
    using assms by (simp add: field_def record_at_def record_value_def parse_ul_def digits_value_def)
qed

lemma page_fields_records:
  assumes "\<forall>k < n. record_at bs (3 * k)" and "3 * n \<le> length bs"
  shows "page_fields bs 0 n = map Some (record_values bs n)"
  using assms by (auto simp: page_fields_def record_values_def field_record)

lemma sample_values: "record_values sample_page 1365 = replicate 1365 42"
  by (auto simp: record_values_def sample_value intro!: nth_equalityI)

lemma sample_fields: "page_fields sample_page 0 1365 = map Some (replicate 1365 42)"
  using page_fields_records [of 1365 sample_page] sample_record sample_values by simp

lemma page_average:
  assumes "page_fields bs 0 n = map Some vs" and "\<forall>v \<in> set vs. v < 2 ^ 32" and "n < 2 ^ 32"
  shows "\<exists>tot elems. sum_fields (page_fields bs 0 n) (0, 0) = Some (tot, elems) \<and>
     tot div elems = word_of_nat (sum_list vs div n)"
proof -
  have len: "length vs = n"
    using arg_cong [OF assms(1), of length] by (simp add: page_fields_def)
  have "sum_list vs \<le> n * 2 ^ 32"
    using sum_list_bound [OF assms(2)] len by simp
  also have "\<dots> < 2 ^ 64"
    using assms(3) by simp
  finally show ?thesis
    using assms(1,3) len word_div_nat [of "sum_list vs" n] by (simp add: sum_fields_Some)
qed

lemma field_bound: "field bs = Some v \<Longrightarrow> v < 2 ^ 32"
  using parse_small [of "[bs ! 0, bs ! 1, 0]"] by (auto simp: field_def)

lemma page_fields_bound:
  assumes "page_fields bs i n = map Some vs"
  shows "\<forall>v \<in> set vs. v < 2 ^ 32"
proof
  fix v assume "v \<in> set vs"
  then have "Some v \<in> set (page_fields bs i n)"
    using assms by simp
  then obtain k where "field (drop (i + 3 * k) bs) = Some v"
    by (auto simp: page_fields_def)
  then show "v < 2 ^ 32"
    by (rule field_bound)
qed

lemma registered_unique: "registered v a \<Longrightarrow> registered v b \<Longrightarrow> a = b"
  unfolding registered_def by (metis bytes_word_cancel(3) option.inject)

section \<open>The reduction of a page\<close>

lemma readiter_stores:
  assumes "kernel_doc K view" and "registered v (PT_REGS_PARM1 ctx)"
    and "mem_bytes v (PT_REGS_PARM2 ctx) UBUFFSIZE = Some bs"
    and "page_fields bs 0 1365 = map Some vs"
    and "writable v (PT_REGS_PARM1 ctx) 4" and "length cur = 3"
  shows "vruns view (readiter_bpf_copyout K cur ctx) v
    (\<lambda>r v'. r = 0 \<and> v_ret v' = Some 0 \<and>
       v_map v' result_map key0 = Some (word_bytes (word_of_nat (sum_list vs div 1365) :: u64)) \<and>
       mem_bytes v' (PT_REGS_PARM1 ctx) 4 = Some answer_nl \<and>
       (\<forall>m key. m \<noteq> result_map \<longrightarrow> v_map v' m key = v_map v m key))"
proof -
  obtain tot elems where sum: "sum_fields (page_fields bs 0 1365) (0, 0) = Some (tot, elems)"
    and avg: "tot div elems = word_of_nat (sum_list vs div 1365)"
    using page_average [OF assms(4) page_fields_bound [OF assms(4)]] by auto
  show ?thesis
    using kernel_doc.readiter_copyout_registered [OF assms(1,2,3,5,6)]
    by (rule vruns_mono)
      (use sum avg mem_bytes_put [of _ _ "PT_REGS_PARM1 ctx" answer_nl] in auto)
qed

text \<open>
  C14.  When the kernel copies a page to the registered buffer and the page consists of numbers,
  the program stores their average in the result map, makes the copy return 0 without being
  run, and puts the answer text into the reader's buffer; no other map changes.
\<close>

theorem readiter_average:
  assumes "kernel_doc K view" and "registered v (PT_REGS_PARM1 ctx)"
    and "mem_bytes v (PT_REGS_PARM2 ctx) UBUFFSIZE = Some bs"
    and "page_fields bs 0 1365 = map Some vs"
    and "writable v (PT_REGS_PARM1 ctx) 4" and "length cur = 3"
  shows "vruns view (readiter_bpf_copyout K cur ctx) v
    (\<lambda>r v'. r = 0 \<and> v_ret v' = Some 0 \<and>
       v_map v' result_map key0 = Some (word_bytes (word_of_nat (sum_list vs div 1365) :: u64)) \<and>
       mem_bytes v' (PT_REGS_PARM1 ctx) 4 = Some answer_nl \<and>
       (\<forall>m key. m \<noteq> result_map \<longrightarrow> v_map v' m key = v_map v m key))"
  using assms by (rule readiter_stores)

theorem readiter_average_witness:
  "vruns ref_view (readiter_bpf_copyout ref_kernel [0, 0, 0] sample_regs) sample
    (\<lambda>r v'. r = 0 \<and> v_ret v' = Some 0 \<and>
       v_map v' result_map key0 = Some (word_bytes (42 :: u64)) \<and>
       mem_bytes v' 65536 4 = Some answer_nl)"
  by (rule vruns_mono [OF readiter_average [OF ref.kernel_doc_axioms, of sample sample_regs sample_page
        "replicate 1365 42" "[0, 0, 0]"]])
    (simp_all add: sample_registered sample_mem UBUFFSIZE_def sample_fields sample_writable
       sum_list_replicate)

text \<open>
  C16.  A copy to any other buffer is left alone: the program returns 0 and changes nothing but
  the trace, so the probed function runs and delivers the data.
\<close>

theorem readiter_other_readers:
  assumes "kernel_doc K view" and "\<not> registered v (PT_REGS_PARM1 ctx)"
  shows "vruns view (readiter_bpf_copyout K cur ctx) v (\<lambda>r v'. r = 0 \<and> only_logs v v')"
  using assms by (rule kernel_doc.readiter_copyout_unregistered)

theorem readiter_other_readers_witness:
  "vruns ref_view (readiter_bpf_copyout ref_kernel [0, 0, 0] (sample_regs\<lparr>PT_REGS_PARM1 := 5\<rparr>)) sample
     (\<lambda>r v'. r = 0 \<and> only_logs sample v')"
proof -
  have "(65536 :: u64) \<noteq> 5"
    by simp
  then have "\<not> registered sample 5"
    using registered_unique [OF sample_registered] by blast
  then show ?thesis
    by (intro readiter_other_readers [OF ref.kernel_doc_axioms]) simp
qed

text \<open>
  C19.  When a field of the page is not a number, the program gives up: no result is stored and
  nothing is written to the reader, but the return value of the copy has been replaced by 0
  before, so the reader is told that everything was copied.
\<close>

theorem readiter_bad_number:
  assumes "kernel_doc K view" and "registered v (PT_REGS_PARM1 ctx)"
    and "mem_bytes v (PT_REGS_PARM2 ctx) UBUFFSIZE = Some bs"
    and "None \<in> set (page_fields bs 0 1365)"
    and "writable v (PT_REGS_PARM1 ctx) 4" and "length cur = 3"
  shows "vruns view (readiter_bpf_copyout K cur ctx) v
    (\<lambda>r v'. r = 1 \<and> v_ret v' = Some 0 \<and> v_map v' = v_map v \<and> v_mem v' = v_mem v)"
  using kernel_doc.readiter_copyout_registered [OF assms(1,2,3,5,6)]
  by (rule vruns_mono) (simp add: sum_fields_None [OF assms(4)])

text \<open>A page whose second field is not a number.\<close>

definition bad_view :: kview where
  "bad_view = sample_view\<lparr>v_mem := (v_mem sample_view)(4099 \<mapsto> 65)\<rparr>"

lemma bad_mem: "mem_bytes bad_view 4096 4096 = Some (sample_page[3 := 65])"
proof -
  have "v_mem bad_view (4096 + word_of_nat i) = Some (sample_page[3 := 65] ! i)" if "i < 4096" for i
  proof -
    have u: "unat ((4096 :: u64) + word_of_nat i) = 4096 + i"
      using unat_addr [OF that, of 4096] by simp
    have "((4096 :: u64) + word_of_nat i = 4099) = (i = 3)"
      using u by (auto simp: word_unat_eq_iff)
    then show ?thesis
      using u that by (auto simp: bad_view_def sample_view_def nth_sample_page nth_list_update)
  qed
  then show ?thesis
    by (auto simp: mem_bytes_def intro!: nth_equalityI)
qed

lemma bad_field: "None \<in> set (page_fields (sample_page[3 := 65]) 0 1365)"
proof -
  have "field (drop (0 + 3 * 1) (sample_page[3 := 65])) = None"
    by (simp add: field_def parse_ul_def byte_isspace_def byte_isdigit_def)
  then show ?thesis
    unfolding page_fields_def set_map by (intro image_eqI [where x = 1]) simp_all
qed

theorem readiter_bad_number_witness:
  "vruns ref_view (readiter_bpf_copyout ref_kernel [0, 0, 0] sample_regs) (ref_view bad_view)
    (\<lambda>r v'. r = 1 \<and> v_ret v' = Some 0 \<and> v_map v' = v_map (ref_view bad_view) \<and> v_mem v' = v_mem bad_view)"
proof -
  have "registered (ref_view bad_view) 65536"
    using sample_registered by (simp add: registered_def bad_view_def)
  moreover have "writable bad_view 65536 4"
    using sample_writable [of 4] by (auto simp: writable_def bad_view_def)
  ultimately show ?thesis
    using readiter_bad_number [OF ref.kernel_doc_axioms, of "ref_view bad_view" sample_regs
        "sample_page[3 := 65]" "[0, 0, 0]"] bad_mem bad_field
    by (simp add: UBUFFSIZE_def)
qed

section \<open>The reduction behind a tail call\<close>

lemma tailcall_jump:
  assumes "kernel_doc K view" and "v_prog v jmp_table AVG_FUNC = Some fd"
    and "\<And>w. vruns view (k_tail_call K jmp_table AVG_FUNC) w (\<lambda>p w'. p = v_prog w jmp_table AVG_FUNC \<and> w' = w)"
    and "vruns view (prog fd ctx) (log_line (nl ''entering modified copyout'') [] v) Q"
  shows "vruns view (tailcall_bpf_prog7 K prog ctx) v Q"
  unfolding tailcall_bpf_prog7_def
proof (intro vruns_bind control_helpers.vruns_printk)
  show "control_helpers K view"
    using assms(1) by (simp add: kernel_doc_def)
  show "vruns view (k_tail_call K jmp_table AVG_FUNC) (log_line (nl ''entering modified copyout'') [] v)
      (\<lambda>target w. vruns view (case target of None \<Rightarrow> State_Monad.return 0 | Some fd \<Rightarrow> prog fd ctx) w Q)"
    by (rule vruns_mono [OF assms(3)]) (use assms(2,4) in simp)
qed

text \<open>
  C17.  The probe of \<open>tailcall_kern.c\<close> jumps to the program in slot \<open>AVG_FUNC\<close> of the table.  When
  that is the averaging program, the jump is not refused for its nesting depth (a tail call finds
  the program of its slot unless the slot is empty or the limit is reached), and nine bytes with
  three numbers are copied to the registered buffer, the average of the three numbers is stored
  and the answer is written to the buffer.
\<close>

theorem tailcall_average:
  assumes "kernel_doc K view" and "registered v (PT_REGS_PARM1 ctx)"
    and "mem_bytes v (PT_REGS_PARM2 ctx) 9 = Some bs" and "\<forall>b \<in> set (butlast bs). b \<noteq> 0"
    and "page_fields bs 0 3 = map Some [x, y, z]"
    and "writable v (PT_REGS_PARM1 ctx) 3" and "length userbuff = 9" and "length cur = 3"
    and "v_prog v jmp_table AVG_FUNC = Some fd"
    and "\<And>w. vruns view (k_tail_call K jmp_table AVG_FUNC) w (\<lambda>p w'. p = v_prog w jmp_table AVG_FUNC \<and> w' = w)"
    and "prog fd = bpf_func_AVG_FUNC K userbuff cur"
  shows "vruns view (tailcall_bpf_prog7 K prog ctx) v
    (\<lambda>r v'. r = 0 \<and> v_map v' result_map key0 = Some (word_bytes (word_of_nat ((x + y + z) div 3) :: u64)) \<and>
       mem_bytes v' (PT_REGS_PARM1 ctx) 3 = Some answer \<and> v_ret v' = v_ret v)"
proof (rule tailcall_jump [where fd = fd, OF assms(1,9,10)])
  let ?w = "log_line (nl ''entering modified copyout'') [] v"
  obtain tot elems where sum: "sum_fields (page_fields bs 0 3) (0, 0) = Some (tot, elems)"
    and avg: "tot div elems = word_of_nat ((x + y + z) div 3)"
    using page_average [OF assms(5) page_fields_bound [OF assms(5)]] by (auto simp: add.assoc)
  have "elems = 3"
    using sum assms(5) by simp
  show "vruns view (prog fd ctx) ?w (\<lambda>r v'. r = 0 \<and>
         v_map v' result_map key0 = Some (word_bytes (word_of_nat ((x + y + z) div 3) :: u64)) \<and>
         mem_bytes v' (PT_REGS_PARM1 ctx) 3 = Some answer \<and> v_ret v' = v_ret v)"
    unfolding assms(11)
    by (rule vruns_mono [OF kernel_doc.AVG_FUNC_registered [OF assms(1), of ?w ctx bs userbuff cur]])
      (use assms sum avg \<open>elems = 3\<close> mem_bytes_put [of _ _ "PT_REGS_PARM1 ctx" answer] in auto)
qed

text \<open>The nine bytes \<open>42\<close>, \<open>42\<close>, \<open>42\<close> of the sample page.\<close>

theorem tailcall_average_witness:
  "vruns ref_view (tailcall_bpf_prog7 ref_kernel
      (\<lambda>fd. bpf_func_AVG_FUNC ref_kernel (replicate 9 0) [0, 0, 0]) sample_regs) sample
    (\<lambda>r v'. r = 0 \<and> v_map v' result_map key0 = Some (word_bytes (42 :: u64)) \<and>
       mem_bytes v' 65536 3 = Some answer \<and> v_ret v' = None)"
proof -
  have mem: "mem_bytes sample_view 4096 9 = Some (take 9 sample_page)"
    using mem_bytes_sub [OF sample_mem, of 0 9] by simp
  have "\<forall>b \<in> set sample_page. b \<noteq> 0"
    by (auto simp: sample_page_def sample_byte_def)
  then have nz: "\<forall>b \<in> set (butlast (take 9 sample_page)). b \<noteq> 0"
    by (auto dest!: in_set_butlastD in_set_takeD)
  have "page_fields (take 9 sample_page) 0 3 = map Some (record_values (take 9 sample_page) 3)"
    using sample_record by (intro page_fields_records) (auto simp: record_at_def)
  also have "record_values (take 9 sample_page) 3 = [42, 42, 42]"
    using sample_value [of 0] sample_value [of 1] sample_value [of 2]
    by (simp add: record_values_def record_value_def upt_rec)
  finally have "page_fields (take 9 sample_page) 0 3 = map Some [42, 42, 42]" .
  moreover have "vruns ref_view (k_tail_call ref_kernel jmp_table AVG_FUNC) w
      (\<lambda>p w'. p = v_prog w jmp_table AVG_FUNC \<and> w' = w)" for w
    by (auto simp: vruns_def ref_kernel_def)
  ultimately show ?thesis
    using tailcall_average [OF ref.kernel_doc_axioms, of sample sample_regs "take 9 sample_page" 42 42 42
        "replicate 9 0" "[0, 0, 0]" 7 "\<lambda>fd. bpf_func_AVG_FUNC ref_kernel (replicate 9 0) [0, 0, 0]"]
      mem nz sample_registered sample_writable [of 3]
    by (simp add: sample_view_def start_view_def)
qed

section \<open>The reduction in chunks\<close>

lemma sample_byte_mod: "sample_byte (i + 3 * q) = sample_byte i"
  by (simp add: sample_byte_def)

lemma parse_sample:
  "parse_ul [52, 50, 10] = Some (2, 42)" "parse_ul [50, 10, 52] = Some (1, 2)"
  "parse_ul [10, 52, 50] = Some (3, 42)"
  by (simp_all add: parse_ul_def digits_value_def byte_isspace_def byte_isdigit_def)

lemma sample_group:
  assumes "i < 16" and "j < 85"
  shows "group3 (drop (256 * i + j * 3) sample_page) = Some (if i mod 3 = 1 then 2 else 42)"
proof -
  let ?k = "256 * i + j * 3" and ?r = "i mod 3"
  have k: "?k + 3 \<le> 4096"
    using assms by simp
  have i: "i = ?r + 3 * (i div 3)"
    by simp
  have eq: "sample_byte (?k + d) = sample_byte (?r + d)" for d
  proof -
    have "?k + d = (?r + d) + 3 * (i div 3 + 85 * i + j)"
      using i by simp
    then show ?thesis
      by (simp only: sample_byte_mod)
  qed
  have t: "take 3 (drop ?k sample_page) = map (\<lambda>d. sample_byte (?r + d)) [0, 1, 2]"
    using take3 [of ?k sample_page] k eq [of 0] eq [of 1] eq [of 2] by (simp add: nth_sample_page)
  consider "?r = 0" | "?r = 1" | "?r = 2"
    by linarith
  then show ?thesis
    by cases (simp_all add: group3_def t sample_byte_def parse_sample)
qed

lemma sample_chunk_groups:
  "i < 16 \<Longrightarrow> chunk_groups sample_page i = map Some (replicate 85 (if i mod 3 = 1 then 2 else 42))"
  by (auto simp: chunk_groups_def sample_group intro!: nth_equalityI)

lemma sample_chunks_sum:
  "sum_fields (concat (map (chunk_groups sample_page) [0..<16])) (0, 0) = Some (40120, 1360)"
proof -
  let ?v = "\<lambda>i :: nat. if i mod 3 = 1 then 2 else 42 :: nat"
  have "concat (map (chunk_groups sample_page) [0..<16]) =
      map Some (concat (map (\<lambda>i. replicate 85 (?v i)) [0..<16]))"
    unfolding map_concat map_map by (intro arg_cong [of _ _ concat] map_cong) (auto simp: sample_chunk_groups)
  moreover have "sum_list (concat (map (\<lambda>i. replicate 85 (?v i)) [0..<16])) = 40120"
    by (simp add: upt_rec sum_list_replicate)
  moreover have "length (concat (map (\<lambda>i. replicate 85 (?v i)) [0..<16])) = 1360"
    by (simp add: upt_rec)
  ultimately show ?thesis
    by (simp add: sum_fields_Some del: map_concat)
qed

text \<open>
  C20.  The benchmark version reads the page in chunks of 256 bytes and parses 85 groups of three
  bytes from the start of each chunk.  As 256 is not a multiple of three, the groups of the later
  chunks do not start at the numbers: for a page that holds nothing but the number 42 it stores
  29 as the average.
\<close>

theorem bpfbench_misaligned:
  assumes "kernel_doc K view" and "registered v (PT_REGS_PARM1 ctx)"
    and "mem_bytes v (PT_REGS_PARM2 ctx) 4096 = Some sample_page" and "length buf = 256"
  shows "vruns view (bpfbench_bpf_copyout K buf ctx) v
    (\<lambda>r v'. r = 0 \<and> v_map v' result_map key0 = Some (word_bytes (29 :: u64)))"
proof -
  have nz: "\<forall>b \<in> set sample_page. b \<noteq> 0"
    by (auto simp: sample_page_def sample_byte_def)
  show ?thesis
    by (rule vruns_mono [OF kernel_doc.bpfbench_copyout_registered [OF assms(1-3) nz assms(4)]])
      (simp add: sample_chunks_sum)
qed

theorem bpfbench_misaligned_witness:
  "vruns ref_view (bpfbench_bpf_copyout ref_kernel (replicate 256 0) sample_regs) sample
    (\<lambda>r v'. r = 0 \<and> v_map v' result_map key0 = Some (word_bytes (29 :: u64)))"
  by (rule bpfbench_misaligned [OF ref.kernel_doc_axioms])
    (simp_all add: sample_registered sample_mem)

section \<open>The kernel and user space\<close>

lemma average_word:
  assumes "page_fields bs 0 1365 = map Some vs"
  shows "\<exists>tot elems. sum_fields (page_fields bs 0 1365) (0, 0) = Some (tot, elems) \<and>
     tot div elems = word_of_nat (sum_list vs div 1365)"
  using page_average [OF assms page_fields_bound [OF assms]] by simp

lemma userbench_run:
  assumes "r_ret (env (calls L) (Open ''f'' [O_RDONLY])) \<noteq> - 1"
    and "\<And>h fd buf. r_ret (env h (Read_buf fd buf 4096)) = 4096 \<and> r_data (env h (Read_buf fd buf 4096)) = bs"
    and "length bs = 4096" and "\<forall>k < 1365. record_at bs (3 * k)"
  shows "\<exists>L' t. userbench_main env L = Inr (0, L') \<and>
     Puts (nl (''avg = '' @ dec_nat (sum_list (record_values bs 1365) div 1365) @
               '', clock cycles '' @ t)) \<in> set (calls L')"
proof -
  let ?n = "sum_list (record_values bs 1365)"
  have loop: "bench_loop bs (4096 - 3) 0 0 0 = Inr (word_of_nat ?n, word_of_nat 1365)"
    using bench_loop_eq [of 1365 bs 0 "4096 - 3" 0 0] assms(3,4) by (simp add: record_values_def)
  have fields: "page_fields bs 0 1365 = map Some (record_values bs 1365)"
    using assms(3,4) by (intro page_fields_records) auto
  have "?n \<le> 1365 * 2 ^ 32"
    using sum_list_bound [OF page_fields_bound [OF fields]] by (simp add: record_values_def)
  then have "(word_of_nat ?n :: u64) div word_of_nat 1365 = word_of_nat (?n div 1365)"
    and "unat (word_of_nat (?n div 1365) :: u64) = ?n div 1365"
    using word_div_nat [of ?n 1365] by (simp_all add: unat_of_nat)
  then have div: "div_res (word_of_nat ?n) 1365 = Inr (word_of_nat (?n div 1365))"
    by (simp add: div_res_def)
  show ?thesis
    using assms(1,2) loop div \<open>unat _ = _\<close>
    by (auto simp: userbench_main_def ucall_eq uputs_eq urun_def ureturn_def Let_def)
qed

text \<open>
  C15.  The kernel computes what the program in user space computes: for a page of 1365 records of
  two digits and a separator, the average that \<open>userbench\<close> prints after reading the file is the
  one that the probe stores when the kernel copies the page to the registered buffer.
\<close>

theorem kernel_agrees_with_userbench:
  assumes "kernel_doc K view" and "registered v (PT_REGS_PARM1 ctx)"
    and "mem_bytes v (PT_REGS_PARM2 ctx) UBUFFSIZE = Some bs"
    and "\<forall>k < 1365. record_at bs (3 * k)"
    and "writable v (PT_REGS_PARM1 ctx) 4" and "length cur = 3"
    and "r_ret (env (calls L) (Open ''f'' [O_RDONLY])) \<noteq> - 1"
    and "\<And>h fd buf. r_ret (env h (Read_buf fd buf 4096)) = 4096 \<and> r_data (env h (Read_buf fd buf 4096)) = bs"
  shows "\<exists>avg L' t.
     vruns view (readiter_bpf_copyout K cur ctx) v
       (\<lambda>r v'. r = 0 \<and> v_map v' result_map key0 = Some (word_bytes (avg :: u64))) \<and>
     userbench_main env L = Inr (0, L') \<and>
     Puts (nl (''avg = '' @ dec_nat (unat avg) @ '', clock cycles '' @ t)) \<in> set (calls L')"
proof -
  let ?vs = "record_values bs 1365"
  have len: "length bs = 4096"
    using length_mem_bytes [OF assms(3)] by (simp add: UBUFFSIZE_def)
  have fields: "page_fields bs 0 1365 = map Some ?vs"
    using assms(4) len by (intro page_fields_records) auto
  obtain tot elems where sum: "sum_fields (page_fields bs 0 1365) (0, 0) = Some (tot, elems)"
    and avg: "tot div elems = word_of_nat (sum_list ?vs div 1365)"
    using average_word [OF fields] by blast
  have "sum_list ?vs \<le> 1365 * 2 ^ 32"
    using sum_list_bound [OF page_fields_bound [OF fields]] by (simp add: record_values_def)
  then have "unat (word_of_nat (sum_list ?vs div 1365) :: u64) = sum_list ?vs div 1365"
    by (simp add: unat_of_nat)
  moreover have "vruns view (readiter_bpf_copyout K cur ctx) v
       (\<lambda>r v'. r = 0 \<and> v_map v' result_map key0 =
          Some (word_bytes (word_of_nat (sum_list ?vs div 1365) :: u64)))"
    by (rule vruns_mono [OF kernel_doc.readiter_copyout_registered [OF assms(1,2,3,5,6)]])
      (use sum avg in auto)
  ultimately show ?thesis
    using userbench_run [where env = env and L = L, OF assms(7,8) len assms(4)] by metis
qed

text \<open>A system on which the file \<open>f\<close> holds the sample page.\<close>

definition bench_env :: env where
  "bench_env h c = (case c of
      Read_buf _ _ _ \<Rightarrow> \<lparr>r_ret = 4096, r_errno = 0, r_data = sample_page, r_attr = None\<rparr>
    | _ \<Rightarrow> sample_env h c)"

theorem kernel_agrees_with_userbench_witness:
  "\<exists>avg L' t.
     vruns ref_view (readiter_bpf_copyout ref_kernel [0, 0, 0] sample_regs) sample
       (\<lambda>r v'. r = 0 \<and> v_map v' result_map key0 = Some (word_bytes (avg :: u64))) \<and>
     userbench_main bench_env loader_init = Inr (0, L') \<and>
     Puts (nl (''avg = '' @ dec_nat (unat avg) @ '', clock cycles '' @ t)) \<in> set (calls L')"
  by (rule kernel_agrees_with_userbench [OF ref.kernel_doc_axioms, where bs = sample_page])
    (simp_all add: sample_registered sample_mem UBUFFSIZE_def sample_record sample_writable
      bench_env_def sample_env_def)

text \<open>
  C21.  \<open>userbench\<close> divides by the number of records it has seen: when the read returns at most
  three bytes, or fails, that is a division by zero.
\<close>

theorem userbench_short_file:
  assumes "r_ret (env (calls L) (Open ''f'' [O_RDONLY])) \<noteq> - 1"
    and "\<And>h fd buf. r_ret (env h (Read_buf fd buf 4096)) \<le> 3"
  shows "userbench_main env L = Inl Div_by_zero"
proof -
  have "bench_loop bs (r_ret (env h (Read_buf fd buf 4096)) - 3) 0 0 0 = Inr (0, 0)" for bs h fd buf
    using assms(2) [of h fd buf] by (subst bench_loop.simps) simp
  then show ?thesis
    using assms(1) by (simp add: userbench_main_def ucall_eq urun_def div_res_def Let_def)
qed

theorem userbench_short_file_witness:
  "userbench_main (\<lambda>h c. \<lparr>r_ret = 3, r_errno = 0, r_data = [52, 50, 10], r_attr = None\<rparr>) loader_init =
     Inl Div_by_zero"
  by (rule userbench_short_file) simp_all

section \<open>The program that reads through the kernel\<close>

text \<open>
  After the object file is loaded, \<open>readiter_main\<close> registers, in the first map of the file and under
  key 0, the address of the buffer it then reads into, reads once, and prints the number found
  under key 0 of the second map; it ends with status 0.  These are all its calls, in this order.
\<close>

lemma readiter_main_run:
  assumes "load_bpf_file fuel lib env (object_name argv0)
             (L\<lparr>calls := calls L @ [Puts (nl (''eBPF file to be loaded is : '' @ object_name argv0 @ '' ''))]\<rparr>)
           = Inr (0, M)"
    and "loader_wf M"
    and "\<And>h. r_ret (env h (Open ''f'' [O_RDONLY])) = fd" and "fd \<noteq> - 1"
    and "\<And>h. r_ret (env h (Malloc 4096)) = buf"
    and "\<And>h a. r_ret (env h (Bpf BPF_MAP_UPDATE_ELEM a)) = 0"
    and "\<And>h. r_ret (env h (map_call BPF_MAP_LOOKUP_ELEM (map_fd M ! 1) key0 [])) = 0"
    and "\<And>h. r_data (env h (map_call BPF_MAP_LOOKUP_ELEM (map_fd M ! 1) key0 [])) = word_bytes (avg :: u64)"
    and "\<And>h. r_ret (env h (Read_buf fd buf 4066)) = n"
    and "\<And>h. r_data (env h (Read_buf fd buf 4066)) = bs" and "0 \<in> set bs"
  shows "readiter_main fuel lib env argv0 L = Inr (0, M\<lparr>calls := calls M @
    [Open ''f'' [O_RDONLY], Malloc 4096, Puts (nl (''buffer on user side = '' @ dec buf)),
     map_call BPF_MAP_UPDATE_ELEM (map_fd M ! 0) key0 (word_bytes (word_of_int buf :: u64)),
     Read_buf fd buf 4066, Puts (nl (''retval = '' @ dec (to_int32 n))),
     map_call BPF_MAP_LOOKUP_ELEM (map_fd M ! 1) key0 [],
     Puts (nl (''avg = '' @ dec_nat (unat avg) @ '', on buffer '' @ string_of_bytes bs)),
     Puts loaded_text, Close fd]\<rparr>)"
proof -
  have "0 < length (map_fd M)" "1 < length (map_fd M)"
    using assms(2) by (auto simp: loader_wf_def)
  then show ?thesis
    using assms(1,3-)
    by (simp add: readiter_main_def read_through_def load_or_log_def uload_def ucall_eq uputs_eq
        uupdate_eq ulookup_eq urun_def lookup_u64_def buffer_string_def ureturn_def Let_def)
qed

text \<open>A system on which everything succeeds with a buffer at 65536 and the result 42 in the map.\<close>

definition user_env :: env where
  "user_env h c = (case c of
      Malloc _ \<Rightarrow> \<lparr>r_ret = 65536, r_errno = 0, r_data = [], r_attr = None\<rparr>
    | Read_buf _ _ _ \<Rightarrow> \<lparr>r_ret = 4, r_errno = 0, r_data = answer_nl, r_attr = None\<rparr>
    | Bpf BPF_MAP_UPDATE_ELEM _ \<Rightarrow> \<lparr>r_ret = 0, r_errno = 0, r_data = [], r_attr = None\<rparr>
    | Bpf BPF_MAP_LOOKUP_ELEM _ \<Rightarrow>
        \<lparr>r_ret = 0, r_errno = 0, r_data = word_bytes (42 :: u64), r_attr = None\<rparr>
    | _ \<Rightarrow> sample_env h c)"

lemma user_env_succeeds: "succeeds user_env"
  by (simp add: succeeds_def user_env_def sample_env_ret split: call.splits bpf_cmd.splits)

end
