(* ===== verification/Counters.thy ===== *)
theory Counters
  imports Kernel_Api
begin

text \<open>
  Arrays of 64-bit numbers, the maps in which programs keep counters and times.  Such a map is
  seen as a function from indices to numbers: \<open>slot\<close> reads it, \<open>set_slot\<close> writes it, and the rules
  for the map helpers are restated in these terms.
\<close>

definition is_counters :: "bpf_map_def \<Rightarrow> bool" where
  "is_counters m = (is_array m \<and> bm_key_size m = 4 \<and> bm_value_size m = 8)"

definition slot :: "kview \<Rightarrow> bpf_map_def \<Rightarrow> u32 \<Rightarrow> u64" where
  "slot v m k = bytes_word (take 8 (the (v_map v m (word_bytes k))))"

definition set_slot :: "bpf_map_def \<Rightarrow> u32 \<Rightarrow> u64 \<Rightarrow> kview \<Rightarrow> kview" where
  "set_slot m k w v = put_elem m (word_bytes k) (word_bytes w) v"

lemma word_bytes_inject32 [simp]: "word_bytes (a :: u32) = word_bytes b \<longleftrightarrow> a = b"
  by (metis bytes_word_cancel(2))

lemma word_bytes_inject64 [simp]: "word_bytes (a :: u64) = word_bytes b \<longleftrightarrow> a = b"
  by (metis bytes_word_cancel(3))

lemma le_nat_word_bytes32 [simp]: "le_nat (word_bytes (k :: u32)) = unat k"
proof -
  have "unat k < 2 ^ 32"
    using unsigned_less [of k] by simp
  then show ?thesis
    by (simp add: word_bytes_def le_nat_le_bytes)
qed

lemma slot_set_slot [simp]:
  "slot (set_slot m k w v) m' k' = (if m' = m \<and> k' = k then w else slot v m' k')"
  by (simp add: slot_def set_slot_def)

lemma slot_other [simp]:
  "slot (v\<lparr>v_time := t\<rparr>) m k = slot v m k"
  "slot (v\<lparr>v_ret := rc\<rparr>) m k = slot v m k"
  "slot (v\<lparr>v_mem := mem\<rparr>) m k = slot v m k"
  "slot (log_line fmt args v) m k = slot v m k"
  by (simp_all add: slot_def)

lemma set_slot_fields [simp]:
  "v_mem (set_slot m k w v) = v_mem v" "v_user (set_slot m k w v) = v_user v"
  "v_ret (set_slot m k w v) = v_ret v" "v_log (set_slot m k w v) = v_log v"
  "v_time (set_slot m k w v) = v_time v" "v_pid (set_slot m k w v) = v_pid v"
  by (simp_all add: set_slot_def)

lemma present_slot:
  assumes "maps_ok_view v" and "is_counters m"
  shows "v_map v m (word_bytes (k :: u32)) \<noteq> None \<longleftrightarrow> k < bm_max_entries m"
  using assms by (simp add: maps_ok_view_def is_counters_def word_less_nat_alt)

context map_helpers
begin

lemma vruns_lookup_slot:
  assumes "is_counters m"
    and "k < bm_max_entries m \<Longrightarrow> Q (Some (m, word_bytes k)) v"
    and "\<not> k < bm_max_entries m \<Longrightarrow> Q None v"
  shows "vruns view (lookup_elem K m (word_bytes (k :: u32))) v Q"
proof (rule vruns_legal)
  assume "maps_ok_view v"
  from present_slot [OF this assms(1), of k] show ?thesis
    using assms by (intro vruns_lookup) (auto simp: is_counters_def)
qed

lemma vruns_lookup_present:
  assumes "is_counters m" and "k < bm_max_entries m" and "Q (Some (m, word_bytes k)) v"
  shows "vruns view (lookup_elem K m (word_bytes (k :: u32))) v Q"
  by (rule vruns_lookup_slot) (use assms in auto)

lemma vruns_load_slot:
  assumes "is_counters m" and "k < bm_max_entries m" and "Q (slot v m k) v"
  shows "vruns view (load64 K (m, word_bytes k)) v Q"
proof (rule vruns_legal)
  assume "maps_ok_view v"
  from present_slot [OF this assms(1), of k] show ?thesis
    using assms by (intro vruns_load64) (auto simp: slot_def)
qed

lemma vruns_store_slot:
  assumes "is_counters m" and "k < bm_max_entries m" and "Q () (set_slot m k w v)"
  shows "vruns view (store64 K (m, word_bytes k) w) v Q"
proof (rule vruns_legal)
  assume "maps_ok_view v"
  from present_slot [OF this assms(1), of k] show ?thesis
    using assms by (intro vruns_store64) (auto simp: set_slot_def is_counters_def)
qed

lemma vruns_add_slot:
  assumes "is_counters m" and "k < bm_max_entries m" and "Q () (set_slot m k (slot v m k + d) v)"
  shows "vruns view (fetch_and_add64 K (m, word_bytes k) d) v Q"
  unfolding fetch_and_add64_def
  by (intro vruns_bind vruns_load_slot vruns_store_slot) (use assms in auto)

lemmas slot_rules = vruns_lookup_slot vruns_load_slot vruns_store_slot vruns_add_slot

end

end
