(* ===== verification/Cpustat.thy ===== *)
theory Cpustat
  imports Counters
begin

text \<open>
  The CPU statistics of \<open>cpustat_kern.c\<close>: for each CPU, the time spent in each idle state and at
  each operating point, from the trace events for idle states and for frequencies.
\<close>

section \<open>Maps\<close>

abbreviation MAX_CPU :: u32 where "MAX_CPU \<equiv> 8"
abbreviation MAX_PSTATE_ENTRIES :: u32 where "MAX_PSTATE_ENTRIES \<equiv> 5"
abbreviation MAX_CSTATE_ENTRIES :: u32 where "MAX_CSTATE_ENTRIES \<equiv> 3"

abbreviation MAP_OFF_CSTATE_TIME :: u32 where "MAP_OFF_CSTATE_TIME \<equiv> 0"
abbreviation MAP_OFF_CSTATE_IDX :: u32 where "MAP_OFF_CSTATE_IDX \<equiv> 1"
abbreviation MAP_OFF_PSTATE_TIME :: u32 where "MAP_OFF_PSTATE_TIME \<equiv> 2"
abbreviation MAP_OFF_PSTATE_IDX :: u32 where "MAP_OFF_PSTATE_IDX \<equiv> 3"
abbreviation MAP_OFF_NUM :: u32 where "MAP_OFF_NUM \<equiv> 4"

definition cpu_opps :: "u32 list" where
  "cpu_opps = [208000, 432000, 729000, 960000, 1200000]"

definition cpustat_my_map :: bpf_map_def where
  "cpustat_my_map = \<lparr>bm_name = ''my_map'', bm_type = BPF_MAP_TYPE_ARRAY, bm_key_size = 4,
     bm_value_size = 8, bm_max_entries = MAX_CPU * MAP_OFF_NUM\<rparr>"

definition cstate_duration :: bpf_map_def where
  "cstate_duration = \<lparr>bm_name = ''cstate_duration'', bm_type = BPF_MAP_TYPE_ARRAY, bm_key_size = 4,
     bm_value_size = 8, bm_max_entries = MAX_CPU * MAX_CSTATE_ENTRIES\<rparr>"

definition pstate_duration :: bpf_map_def where
  "pstate_duration = \<lparr>bm_name = ''pstate_duration'', bm_type = BPF_MAP_TYPE_ARRAY, bm_key_size = 4,
     bm_value_size = 8, bm_max_entries = MAX_CPU * MAX_PSTATE_ENTRIES\<rparr>"

record cpu_args =
  ca_pad :: u64
  ca_state :: u32
  ca_cpu_id :: u32

section \<open>Programs\<close>

text \<open>The loop of \<open>find_cpu_pstate_idx\<close>, from the index \<open>i\<close> on.\<close>

fun find_from :: "u32 list \<Rightarrow> u32 \<Rightarrow> u32 \<Rightarrow> u32" where
  "find_from [] i frequency = i"
| "find_from (opp # opps) i frequency =
     (if frequency = opp then i else find_from opps (i + 1) frequency)"

definition find_cpu_pstate_idx :: "u32 \<Rightarrow> u32" where
  "find_cpu_pstate_idx frequency = find_from cpu_opps 0 frequency"

text \<open>Adding an interval to a counter that may be missing.\<close>

definition charge :: "'s kapi \<Rightarrow> kref option \<Rightarrow> u64 \<Rightarrow> ('s, unit) state" where
  "charge K val delta =
     (case val of Some val \<Rightarrow> fetch_and_add64 K val delta | None \<Rightarrow> State_Monad.return ())"

text \<open>
  In the idle program the branches that return early give False, those that go on to the update
  of the timestamp True.
\<close>

definition cpustat_bpf_prog1 :: "'s kapi \<Rightarrow> cpu_args \<Rightarrow> ('s, int) state" where
  "cpustat_bpf_prog1 K ctx =
     (if ca_cpu_id ctx > MAX_CPU then State_Monad.return 0
      else do {
        let cpu = ca_cpu_id ctx;
        cts \<leftarrow> lookup_elem K cpustat_my_map (word_bytes (cpu * MAP_OFF_NUM + MAP_OFF_CSTATE_TIME));
        case cts of None \<Rightarrow> State_Monad.return 0
        | Some cts \<Rightarrow> do {
        cstate \<leftarrow> lookup_elem K cpustat_my_map (word_bytes (cpu * MAP_OFF_NUM + MAP_OFF_CSTATE_IDX));
        case cstate of None \<Rightarrow> State_Monad.return 0
        | Some cstate \<Rightarrow> do {
        pts \<leftarrow> lookup_elem K cpustat_my_map (word_bytes (cpu * MAP_OFF_NUM + MAP_OFF_PSTATE_TIME));
        case pts of None \<Rightarrow> State_Monad.return 0
        | Some pts \<Rightarrow> do {
        pstate \<leftarrow> lookup_elem K cpustat_my_map (word_bytes (cpu * MAP_OFF_NUM + MAP_OFF_PSTATE_IDX));
        case pstate of None \<Rightarrow> State_Monad.return 0
        | Some pstate \<Rightarrow> do {
          prev_state \<leftarrow> load64 K cstate;
          store64 K cstate (ucast (ca_state ctx));
          c \<leftarrow> load64 K cts;
          if c = 0 then do { t \<leftarrow> k_ktime_get_ns K; store64 K cts t; State_Monad.return 0 }
          else do {
            cur_ts \<leftarrow> k_ktime_get_ns K;
            c \<leftarrow> load64 K cts;
            let delta = cur_ts - c;
            store64 K cts cur_ts;
            go_on \<leftarrow>
              (if ca_state ctx \<noteq> - 1 then do {
                 p \<leftarrow> load64 K pts;
                 if p = 0 then State_Monad.return False
                 else do {
                   p \<leftarrow> load64 K pts;
                   let delta = cur_ts - p;
                   f \<leftarrow> load64 K pstate;
                   let pstate_idx = find_cpu_pstate_idx (ucast f);
                   if pstate_idx \<ge> MAX_PSTATE_ENTRIES then State_Monad.return False
                   else do {
                     val \<leftarrow> lookup_elem K pstate_duration
                       (word_bytes (cpu * MAX_PSTATE_ENTRIES + pstate_idx));
                     charge K val delta;
                     State_Monad.return True
                   }
                 }
               }
               else do {
                 val \<leftarrow> lookup_elem K cstate_duration
                   (word_bytes (ucast (ucast (cpu * MAX_CSTATE_ENTRIES) + prev_state) :: u32));
                 charge K val delta;
                 State_Monad.return True
               });
            if go_on then do {
              p \<leftarrow> load64 K pts;
              if p \<noteq> 0 then do { store64 K pts cur_ts; State_Monad.return 0 }
              else State_Monad.return 0
            }
            else State_Monad.return 0
          }
        }}}}
      })"

definition cpustat_bpf_prog2 :: "'s kapi \<Rightarrow> cpu_args \<Rightarrow> ('s, int) state" where
  "cpustat_bpf_prog2 K ctx = do {
     let cpu = ca_cpu_id ctx;
     pts \<leftarrow> lookup_elem K cpustat_my_map (word_bytes (cpu * MAP_OFF_NUM + MAP_OFF_PSTATE_TIME));
     case pts of None \<Rightarrow> State_Monad.return 0
     | Some pts \<Rightarrow> do {
     pstate \<leftarrow> lookup_elem K cpustat_my_map (word_bytes (cpu * MAP_OFF_NUM + MAP_OFF_PSTATE_IDX));
     case pstate of None \<Rightarrow> State_Monad.return 0
     | Some pstate \<Rightarrow> do {
     cstate \<leftarrow> lookup_elem K cpustat_my_map (word_bytes (cpu * MAP_OFF_NUM + MAP_OFF_CSTATE_IDX));
     case cstate of None \<Rightarrow> State_Monad.return 0
     | Some cstate \<Rightarrow> do {
       prev_state \<leftarrow> load64 K pstate;
       store64 K pstate (ucast (ca_state ctx));
       p \<leftarrow> load64 K pts;
       if p = 0 then do { t \<leftarrow> k_ktime_get_ns K; store64 K pts t; State_Monad.return 0 }
       else do {
         cur_ts \<leftarrow> k_ktime_get_ns K;
         p \<leftarrow> load64 K pts;
         let delta = cur_ts - p;
         store64 K pts cur_ts;
         c \<leftarrow> load64 K cstate;
         if c \<noteq> ucast (- 1 :: u32) then State_Monad.return 0
         else do {
           f \<leftarrow> load64 K pstate;
           let pstate_idx = find_cpu_pstate_idx (ucast f);
           if pstate_idx \<ge> MAX_PSTATE_ENTRIES then State_Monad.return 0
           else do {
             val \<leftarrow> lookup_elem K pstate_duration
               (word_bytes (cpu * MAX_PSTATE_ENTRIES + pstate_idx));
             charge K val delta;
             State_Monad.return 0
           }
         }
       }
     }}}
   }"

end
