(* ===== verification/Cpustat_Facts.thy ===== *)
theory Cpustat_Facts
  imports Cpustat
begin

text \<open>
  The statistics of one CPU as a record, and what an event does to it.  The programs keep the
  records of all CPUs in three flat arrays; they implement the operations on records, and leave
  the records of the other CPUs alone, as long as the idle states are those the arrays provide
  for.  On records, every interval between two events is charged exactly once.
\<close>

section \<open>The statistics of one CPU\<close>

record cpu_stat =
  cs_ctime :: u64
  cs_cstate :: u64
  cs_ptime :: u64
  cs_pstate :: u64
  cs_cdur :: "u64 list"
  cs_pdur :: "u64 list"

definition abs_cpu :: "kview \<Rightarrow> u32 \<Rightarrow> cpu_stat" where
  "abs_cpu v c =
     \<lparr>cs_ctime = slot v cpustat_my_map (c * 4), cs_cstate = slot v cpustat_my_map (c * 4 + 1),
      cs_ptime = slot v cpustat_my_map (c * 4 + 2), cs_pstate = slot v cpustat_my_map (c * 4 + 3),
      cs_cdur = map (\<lambda>i. slot v cstate_duration (c * 3 + word_of_nat i)) [0..<3],
      cs_pdur = map (\<lambda>i. slot v pstate_duration (c * 5 + word_of_nat i)) [0..<5]\<rparr>"

definition opp_index :: "u64 \<Rightarrow> nat option" where
  "opp_index f =
     (case filter (\<lambda>i. cpu_opps ! i = ucast f) [0..<5] of [] \<Rightarrow> None | i # _ \<Rightarrow> Some i)"

definition add_at :: "nat \<Rightarrow> u64 \<Rightarrow> u64 list \<Rightarrow> u64 list" where
  "add_at i d xs = xs[i := xs ! i + d]"

abbreviation no_idle :: u64 where "no_idle \<equiv> 0xFFFFFFFF"

definition idle_spec :: "u64 \<Rightarrow> u64 \<Rightarrow> cpu_stat \<Rightarrow> cpu_stat" where
  "idle_spec st t s =
     (if cs_ctime s = 0 then s\<lparr>cs_cstate := st, cs_ctime := t\<rparr>
      else if st = no_idle then
        s\<lparr>cs_cstate := st, cs_ctime := t,
          cs_cdur := add_at (unat (cs_cstate s)) (t - cs_ctime s) (cs_cdur s),
          cs_ptime := if cs_ptime s = 0 then 0 else t\<rparr>
      else case (if cs_ptime s = 0 then None else opp_index (cs_pstate s)) of
        None \<Rightarrow> s\<lparr>cs_cstate := st, cs_ctime := t\<rparr>
      | Some i \<Rightarrow> s\<lparr>cs_cstate := st, cs_ctime := t,
          cs_pdur := add_at i (t - cs_ptime s) (cs_pdur s), cs_ptime := t\<rparr>)"

definition freq_spec :: "u64 \<Rightarrow> u64 \<Rightarrow> cpu_stat \<Rightarrow> cpu_stat" where
  "freq_spec f t s =
     (if cs_ptime s = 0 \<or> cs_cstate s \<noteq> no_idle then s\<lparr>cs_pstate := f, cs_ptime := t\<rparr>
      else case opp_index f of
        None \<Rightarrow> s\<lparr>cs_pstate := f, cs_ptime := t\<rparr>
      | Some i \<Rightarrow> s\<lparr>cs_pstate := f, cs_ptime := t,
          cs_pdur := add_at i (t - cs_ptime s) (cs_pdur s)\<rparr>)"

section \<open>The maps\<close>

lemma cpustat_counters [simp]:
  "is_counters cpustat_my_map" "is_counters cstate_duration" "is_counters pstate_duration"
  "bm_max_entries cpustat_my_map = 32" "bm_max_entries cstate_duration = 24"
  "bm_max_entries pstate_duration = 40"
  by (simp_all add: is_counters_def is_array_def cpustat_my_map_def cstate_duration_def
      pstate_duration_def)

lemma cpustat_maps_distinct [simp]:
  "cpustat_my_map \<noteq> cstate_duration" "cpustat_my_map \<noteq> pstate_duration"
  "cstate_duration \<noteq> pstate_duration" "cstate_duration \<noteq> cpustat_my_map"
  "pstate_duration \<noteq> cpustat_my_map" "pstate_duration \<noteq> cstate_duration"
  by (simp_all add: cpustat_my_map_def cstate_duration_def pstate_duration_def)

lemma unat_of_nat32: "n < 2 ^ 32 \<Longrightarrow> unat (word_of_nat n :: u32) = n"
  by (simp add: unat_of_nat)

lemma small32: "(5 :: nat) < 2 ^ 32"
  by simp

lemma of_nat32_inject: "i < 5 \<Longrightarrow> j < 5 \<Longrightarrow> (word_of_nat i :: u32) = word_of_nat j \<longleftrightarrow> i = j"
  by (metis unat_of_nat32 order_less_trans small32)

text \<open>An index into an array with \<open>n\<close> entries for each CPU.\<close>

lemma unat_index:
  assumes "(c :: u32) < 8" and "n \<le> 5" and "i < n"
  shows "unat (c * word_of_nat n + word_of_nat i) = unat c * n + i"
proof -
  have "unat c \<le> 7"
    using assms(1) by (simp add: word_less_nat_alt)
  then have "unat c * n + i \<le> 7 * 5 + 5"
    using assms by (intro add_mono mult_mono) auto
  then have "unat (word_of_nat (unat c * n + i) :: u32) = unat c * n + i"
    by (intro unat_of_nat32) simp
  then show ?thesis
    by simp
qed

lemma index_inject:
  assumes "(c :: u32) < 8" and "c' < 8" and "n \<le> 5" and "i < n" and "j < n"
  shows "c * word_of_nat n + word_of_nat i = c' * word_of_nat n + word_of_nat j \<longleftrightarrow> c = c' \<and> i = j"
proof
  assume "c * word_of_nat n + word_of_nat i = c' * word_of_nat n + word_of_nat j"
  then have eq: "unat c * n + i = unat c' * n + j"
    using unat_index [OF assms(1,3,4)] unat_index [OF assms(2,3,5)] by simp
  have "unat c = (unat c * n + i) div n" "unat c' = (unat c' * n + j) div n"
    using assms(4,5) by simp_all
  then have "unat c = unat c'"
    unfolding eq by simp
  then show "c = c' \<and> i = j"
    using eq by (simp add: word_unat_eq_iff)
qed simp

lemma index_less:
  assumes "(c :: u32) < 8" and "n \<le> 5" and "i < n"
  shows "c * word_of_nat n + word_of_nat i < word_of_nat (8 * n)"
proof -
  have "unat c \<le> 7"
    using assms(1) by (simp add: word_less_nat_alt)
  then have "unat c * n \<le> 7 * n"
    by simp
  then have "unat c * n + i < 8 * n"
    using assms(3) by linarith
  moreover have "unat (word_of_nat (8 * n) :: u32) = 8 * n"
    using assms(2) by (intro unat_of_nat32) simp
  ultimately show ?thesis
    by (simp only: word_less_nat_alt unat_index [OF assms])
qed

lemmas my_index = index_inject [where n = 4, simplified]
lemmas cdur_index = index_inject [where n = 3, simplified]
lemmas pdur_index = index_inject [where n = 5, simplified]

lemma my_index_less [simp]:
  "(c :: u32) < 8 \<Longrightarrow> c * 4 < 32" "c < 8 \<Longrightarrow> c * 4 + 1 < 32" "c < 8 \<Longrightarrow> c * 4 + 2 < 32"
  "c < 8 \<Longrightarrow> c * 4 + 3 < 32"
  using index_less [of c 4 0] index_less [of c 4 1] index_less [of c 4 2] index_less [of c 4 3]
  by simp_all

section \<open>Writing to the maps\<close>

lemma abs_cpu_fields [simp]:
  "cs_ctime (abs_cpu v c) = slot v cpustat_my_map (c * 4)"
  "cs_cstate (abs_cpu v c) = slot v cpustat_my_map (c * 4 + 1)"
  "cs_ptime (abs_cpu v c) = slot v cpustat_my_map (c * 4 + 2)"
  "cs_pstate (abs_cpu v c) = slot v cpustat_my_map (c * 4 + 3)"
  by (simp_all add: abs_cpu_def)

lemma abs_cpu_time [simp]: "abs_cpu (v\<lparr>v_time := t\<rparr>) c = abs_cpu v c"
  by (simp add: abs_cpu_def)

lemma abs_cpu_other:
  assumes "c < 8" and "c' < 8" and "c' \<noteq> c"
  shows "k < 4 \<Longrightarrow> abs_cpu (set_slot cpustat_my_map (c * 4 + word_of_nat k) w v) c' = abs_cpu v c'"
    and "k < 3 \<Longrightarrow> abs_cpu (set_slot cstate_duration (c * 3 + word_of_nat k) w v) c' = abs_cpu v c'"
    and "k < 5 \<Longrightarrow> abs_cpu (set_slot pstate_duration (c * 5 + word_of_nat k) w v) c' = abs_cpu v c'"
  using assms my_index [of c' c 0 k] my_index [of c' c 1 k] my_index [of c' c 2 k] my_index [of c' c 3 k]
  by (auto simp: abs_cpu_def cdur_index pdur_index)

lemma abs_cpu_my [simp]:
  assumes "c < 8" and "c' < 8"
  shows "abs_cpu (set_slot cpustat_my_map (c * 4) w v) c' =
      (if c' = c then (abs_cpu v c)\<lparr>cs_ctime := w\<rparr> else abs_cpu v c')"
    and "abs_cpu (set_slot cpustat_my_map (c * 4 + 1) w v) c' =
      (if c' = c then (abs_cpu v c)\<lparr>cs_cstate := w\<rparr> else abs_cpu v c')"
    and "abs_cpu (set_slot cpustat_my_map (c * 4 + 2) w v) c' =
      (if c' = c then (abs_cpu v c)\<lparr>cs_ptime := w\<rparr> else abs_cpu v c')"
    and "abs_cpu (set_slot cpustat_my_map (c * 4 + 3) w v) c' =
      (if c' = c then (abs_cpu v c)\<lparr>cs_pstate := w\<rparr> else abs_cpu v c')"
  using abs_cpu_other(1) [OF assms, of 0] abs_cpu_other(1) [OF assms, of 1]
    abs_cpu_other(1) [OF assms, of 2] abs_cpu_other(1) [OF assms, of 3]
  by (auto simp: abs_cpu_def)

lemma abs_cpu_cdur:
  assumes "c < 8" and "c' < 8" and "i < 3" and "slot v cstate_duration (c * 3 + word_of_nat i) = x"
  shows "abs_cpu (set_slot cstate_duration (c * 3 + word_of_nat i) (x + d) v) c' =
      (if c' = c then (abs_cpu v c)\<lparr>cs_cdur := add_at i d (cs_cdur (abs_cpu v c))\<rparr> else abs_cpu v c')"
  using assms abs_cpu_other(2) [OF assms(1,2) _ assms(3)]
  by (auto simp: abs_cpu_def add_at_def cdur_index of_nat32_inject intro!: nth_equalityI simp: nth_list_update)

lemma abs_cpu_pdur:
  assumes "c < 8" and "c' < 8" and "i < 5" and "slot v pstate_duration (c * 5 + word_of_nat i) = x"
  shows "abs_cpu (set_slot pstate_duration (c * 5 + word_of_nat i) (x + d) v) c' =
      (if c' = c then (abs_cpu v c)\<lparr>cs_pdur := add_at i d (cs_pdur (abs_cpu v c))\<rparr> else abs_cpu v c')"
  using assms abs_cpu_other(3) [OF assms(1,2) _ assms(3)]
  by (auto simp: abs_cpu_def add_at_def pdur_index of_nat32_inject intro!: nth_equalityI simp: nth_list_update)

section \<open>Indices of the programs\<close>

lemma find_cpu_pstate_idx_opp:
  "find_cpu_pstate_idx (ucast f) = (case opp_index f of None \<Rightarrow> 5 | Some i \<Rightarrow> word_of_nat i)"
  by (simp add: find_cpu_pstate_idx_def opp_index_def cpu_opps_def upt_rec)

lemma opp_index_less: "opp_index f = Some i \<Longrightarrow> i < 5"
proof -
  assume "opp_index f = Some i"
  then have "i \<in> set (filter (\<lambda>i. cpu_opps ! i = ucast f) [0..<5])"
    by (auto simp: opp_index_def simp del: set_filter split: list.splits)
  then show ?thesis
    by simp
qed

lemma ucast64_inject: "(ucast (a :: u32) :: u64) = ucast b \<longleftrightarrow> a = b"
  by transfer simp

lemma no_idle_state: "(ucast (st :: u32) :: u64) = no_idle \<longleftrightarrow> st = - 1"
proof -
  have "(- 1 :: u32) = 0xFFFFFFFF"
    by simp
  then have "no_idle = ucast (- 1 :: u32)"
    by (simp only:) simp
  then show ?thesis
    by (simp only: ucast64_inject)
qed

lemma cdur_key: "(ucast (ucast (k :: u32) + prev :: u64) :: u32) = k + ucast prev"
proof -
  have "take_bit 32 (take_bit 32 k + prev) = take_bit 32 (k + take_bit 64 prev)" for k prev :: int
  proof -
    have "take_bit 32 (take_bit 32 k + prev) = take_bit 32 (take_bit 32 (take_bit 32 k) + take_bit 32 prev)"
      by (rule take_bit_add [symmetric])
    also have "\<dots> = take_bit 32 (take_bit 32 k + take_bit 32 (take_bit 64 prev))"
      by simp
    also have "\<dots> = take_bit 32 (k + take_bit 64 prev)"
      by (rule take_bit_add)
    finally show ?thesis .
  qed
  then show ?thesis
    by transfer simp
qed

section \<open>The programs implement the operations on records\<close>

lemma small_index: "opp_index f = Some i \<Longrightarrow> (word_of_nat i :: u32) < 5"
  using opp_index_less [of f i] unat_of_nat32 [of i] by (simp add: word_less_nat_alt)

context kernel_doc
begin

lemma vruns_charge:
  "Q () v \<Longrightarrow> vruns view (charge K None d) v Q"
  "is_counters m \<Longrightarrow> k < bm_max_entries m \<Longrightarrow> Q () (set_slot m k (slot v m k + d) v) \<Longrightarrow>
   vruns view (charge K (Some (m, word_bytes k)) d) v Q"
  by (simp_all add: charge_def vruns_return vruns_add_slot)

lemmas cpu_rules = vruns_let vruns_bind vruns_lookup_present [where m = cpustat_my_map]
  vruns_lookup_slot [where m = cstate_duration] vruns_lookup_slot [where m = pstate_duration]
  vruns_load_slot vruns_store_slot vruns_return vruns_if vruns_case_Some
  vruns_case_None vruns_ktime vruns_charge

lemma freq_refines:
  assumes "ca_cpu_id ctx = c" and "c < 8"
  shows "vruns view (cpustat_bpf_prog2 K ctx) v
     (\<lambda>r v'. r = 0 \<and> v_time v \<le> v_time v' \<and>
        (\<forall>c' < 8. abs_cpu v' c' =
           (if c' = c then freq_spec (ucast (ca_state ctx)) (v_time v') (abs_cpu v c) else abs_cpu v c')))"
proof -
  have idx: "c * 5 + word_of_nat i < 40" if "i < 5" for i
    using index_less [OF assms(2) _ that] by simp
  have run: "ucast (- 1 :: u32) = no_idle"
    by (simp add: no_idle_state)
  show ?thesis
    unfolding cpustat_bpf_prog2_def assms(1) find_cpu_pstate_idx_opp run
    using assms(2)
    by (intro cpu_rules; cases "opp_index (ucast (ca_state ctx))")
      (auto simp: freq_spec_def abs_cpu_pdur idx dest: opp_index_less small_index)
qed

lemma idle_refines:
  assumes "ca_cpu_id ctx = c" and "c < 8"
    and "ca_state ctx = - 1 \<Longrightarrow> cs_ctime (abs_cpu v c) \<noteq> 0 \<Longrightarrow> cs_cstate (abs_cpu v c) < 3"
  shows "vruns view (cpustat_bpf_prog1 K ctx) v
     (\<lambda>r v'. r = 0 \<and> v_time v \<le> v_time v' \<and>
        (\<forall>c' < 8. abs_cpu v' c' =
           (if c' = c then idle_spec (ucast (ca_state ctx)) (v_time v') (abs_cpu v c) else abs_cpu v c')))"
proof -
  have idx: "c * 5 + word_of_nat i < 40" if "i < 5" for i
    using index_less [OF assms(2) _ that] by simp
  define p where "p = slot v cpustat_my_map (c * 4 + 1)"
  have p: "unat p < 3" if "ca_state ctx = - 1" "slot v cpustat_my_map (c * 4) \<noteq> 0"
    using assms(3) that by (simp add: word_less_nat_alt p_def)
  have cidx: "c * 3 + ucast p < 24" if "unat p < 3"
    using index_less [OF assms(2) _ that] by simp
  have cdur: "abs_cpu (set_slot cstate_duration (c * 3 + ucast p) (x + d) v) c' =
      (if c' = c then (abs_cpu v c)\<lparr>cs_cdur := add_at (unat p) d (cs_cdur (abs_cpu v c))\<rparr> else abs_cpu v c')"
    if "unat p < 3" "c' < 8" "slot v cstate_duration (c * 3 + ucast p) = x" for x d v c'
    using abs_cpu_cdur [OF assms(2) that(2) that(1), of v x d] that(3) by simp
  have run: "ucast (- 1 :: u32) = no_idle"
    by (simp add: no_idle_state)
  have "c \<le> 8"
    using assms(2) by simp
  show ?thesis
  proof (cases "opp_index (slot v cpustat_my_map (c * 4 + 3))")
    case None
    show ?thesis
      unfolding cpustat_bpf_prog1_def assms(1) find_cpu_pstate_idx_opp cdur_key
      using assms(2) \<open>c \<le> 8\<close> None
      by (intro cpu_rules)
        (simp_all add: p_def [symmetric] cidx cdur p run no_idle_state idle_spec_def)
  next
    case (Some i)
    note small = opp_index_less [OF Some] small_index [OF Some]
    show ?thesis
      unfolding cpustat_bpf_prog1_def assms(1) find_cpu_pstate_idx_opp cdur_key
      using assms(2) \<open>c \<le> 8\<close> Some small
      by (intro cpu_rules)
        (simp_all add: p_def [symmetric] cidx cdur p run no_idle_state idle_spec_def idx abs_cpu_pdur)
  qed
qed

text \<open>
  A CPU beyond the arrays.  Only the idle program has a guard, and one that lets a number through
  that the arrays do not provide for; the lookups fail for it.
\<close>

lemma idle_out_of_range:
  assumes "8 \<le> ca_cpu_id ctx"
  shows "vruns view (cpustat_bpf_prog1 K ctx) v (\<lambda>r v'. r = 0 \<and> v' = v)"
proof (cases "ca_cpu_id ctx = 8")
  case True
  then show ?thesis
    unfolding cpustat_bpf_prog1_def
    by (simp, intro vruns_bind vruns_lookup_slot) (simp_all add: vruns_return)
next
  case False
  then have "8 < ca_cpu_id ctx"
    using assms by simp
  then show ?thesis
    unfolding cpustat_bpf_prog1_def by (simp add: vruns_return)
qed

lemma freq_out_of_range:
  assumes "8 \<le> ca_cpu_id ctx" and "ca_cpu_id ctx < 2 ^ 30"
  shows "vruns view (cpustat_bpf_prog2 K ctx) v (\<lambda>r v'. r = 0 \<and> v' = v)"
proof -
  have "unat (ca_cpu_id ctx * 4 + 2) = unat (ca_cpu_id ctx) * 4 + 2"
    using assms(2) by (simp add: unat_word_ariths word_less_nat_alt)
  then have "\<not> ca_cpu_id ctx * 4 + 2 < 32"
    using assms(1) by (simp add: word_less_nat_alt word_le_nat_alt)
  then show ?thesis
    unfolding cpustat_bpf_prog2_def Let_def
    by (intro vruns_bind vruns_lookup_slot) (simp_all add: vruns_return)
qed

text \<open>A second exit in a row goes to the last idle state of the CPU before.\<close>

lemma idle_double_exit:
  assumes "ca_cpu_id ctx = c" and "c < 8" and "0 < c" and "ca_state ctx = - 1"
    and "cs_ctime (abs_cpu v c) \<noteq> 0" and "cs_cstate (abs_cpu v c) = no_idle"
  shows "vruns view (cpustat_bpf_prog1 K ctx) v
     (\<lambda>r v'. abs_cpu v' (c - 1) = (abs_cpu v (c - 1))
        \<lparr>cs_cdur := add_at 2 (v_time v' - cs_ctime (abs_cpu v c)) (cs_cdur (abs_cpu v (c - 1)))\<rparr>)"
proof -
  have "unat c \<noteq> 0"
    using assms(3) by (simp add: word_less_nat_alt)
  then have c: "c - 1 < 8" "c - 1 \<noteq> c"
    using assms(2,3) by unat_arith+
  have run: "ucast (- 1 :: u32) = no_idle" "ucast no_idle = (- 1 :: u32)"
    by (simp_all add: no_idle_state)
  have key: "c * 3 + 4294967295 = (c - 1) * 3 + word_of_nat 2"
  proof -
    have "(4294967295 :: u32) = - 1"
      by simp
    then show ?thesis
      by (simp only:) (simp add: algebra_simps)
  qed
  have "c * 3 + 4294967295 < 24"
    unfolding key using index_less [OF c(1), of 3 2] by simp
  moreover have "abs_cpu (set_slot cstate_duration (c * 3 + 4294967295) (x + d) v) (c - 1) =
      (abs_cpu v (c - 1))\<lparr>cs_cdur := add_at 2 d (cs_cdur (abs_cpu v (c - 1)))\<rparr>"
    if "slot v cstate_duration (c * 3 + 4294967295) = x" for x d v
    using abs_cpu_cdur [OF c(1) c(1), of 2 v x d] that unfolding key by simp
  moreover have "c \<le> 8"
    using assms(2) by simp
  ultimately show ?thesis
    unfolding cpustat_bpf_prog1_def assms(1) cdur_key
    using assms(2,4-6) c by (intro cpu_rules) (simp_all add: run)
qed

end

section \<open>Conservation of time\<close>

definition charged :: "cpu_stat \<Rightarrow> u64" where
  "charged s = sum_list (cs_cdur s) + sum_list (cs_pdur s)"

definition boundary :: "cpu_stat \<Rightarrow> u64" where
  "boundary s = (if cs_cstate s = no_idle then cs_ptime s else cs_ctime s)"

definition tracked :: "cpu_stat \<Rightarrow> bool" where
  "tracked s = (cs_ctime s \<noteq> 0 \<and> cs_ptime s \<noteq> 0 \<and> opp_index (cs_pstate s) \<noteq> None \<and>
     (cs_cstate s = no_idle \<or> cs_cstate s < 3) \<and> length (cs_cdur s) = 3 \<and> length (cs_pdur s) = 5)"

datatype cpu_event = Idle u32 | Frequency u32

primrec alternating :: "bool \<Rightarrow> cpu_event list \<Rightarrow> bool" where
  "alternating running [] = True"
| "alternating running (e # es) =
     (case e of
        Idle st \<Rightarrow> if running then st < 3 \<and> alternating False es else st = - 1 \<and> alternating True es
      | Frequency f \<Rightarrow> f \<in> set cpu_opps \<and> alternating running es)"

definition event_spec :: "cpu_event \<Rightarrow> u64 \<Rightarrow> cpu_stat \<Rightarrow> cpu_stat" where
  "event_spec e t s = (case e of Idle st \<Rightarrow> idle_spec (ucast st) t s | Frequency f \<Rightarrow> freq_spec (ucast f) t s)"

lemma sum_list_add_at: "i < length xs \<Longrightarrow> sum_list (add_at i d xs) = sum_list xs + d"
  unfolding add_at_def
  by (induction xs arbitrary: i) (auto simp: algebra_simps split: nat.split)

lemma length_add_at [simp]: "length (add_at i d xs) = length xs"
  by (simp add: add_at_def)

lemma opp_index_opps: "f \<in> set cpu_opps \<Longrightarrow> opp_index (ucast f) \<noteq> None"
  by (auto simp: cpu_opps_def opp_index_def upt_rec)

lemma unat_ucast64: "unat (ucast (st :: u32) :: u64) = unat st"
proof -
  have "unat st < 2 ^ 32"
    using unsigned_less [of st] by simp
  then have "unat st < 2 ^ 64"
    by simp
  then show ?thesis
    by (simp add: unsigned_ucast_eq take_bit_nat_eq_self)
qed

lemma idle_state_small:
  assumes "(st :: u32) < 3"
  shows "(ucast st :: u64) < 3" and "(ucast st :: u64) \<noteq> no_idle"
proof -
  show "(ucast st :: u64) < 3"
    using assms by (simp add: word_less_nat_alt unat_ucast64)
  then show "(ucast st :: u64) \<noteq> no_idle"
    by auto
qed

text \<open>One event, on the record.\<close>

lemma event_spec_conserves:
  assumes "tracked s" and "t \<noteq> 0" and "alternating (cs_cstate s = no_idle) [e]"
  shows "tracked (event_spec e t s)"
    and "charged (event_spec e t s) = charged s + (boundary (event_spec e t s) - boundary s)"
proof -
  have prev: "unat (cs_cstate s) < 3" if "cs_cstate s \<noteq> no_idle"
    using assms(1) that by (simp add: tracked_def word_less_nat_alt)
  obtain i where i: "opp_index (cs_pstate s) = Some i" "i < 5"
    using assms(1) opp_index_less by (auto simp: tracked_def)
  have f: "\<exists>j < 5. opp_index (ucast f) = Some j" if "f \<in> set cpu_opps" for f
    using opp_index_opps [OF that] opp_index_less by auto
  show "tracked (event_spec e t s)"
    using assms i prev
    by (cases e)
      (auto simp: tracked_def event_spec_def idle_spec_def freq_spec_def idle_state_small no_idle_state
        dest!: f split: if_splits)
  show "charged (event_spec e t s) = charged s + (boundary (event_spec e t s) - boundary s)"
    using assms i prev
    by (cases e)
      (auto simp: tracked_def event_spec_def idle_spec_def freq_spec_def idle_state_small no_idle_state
        charged_def boundary_def sum_list_add_at dest!: f split: if_splits)
qed

lemma event_spec_running:
  assumes "tracked s" and "alternating (cs_cstate s = no_idle) (e # es)"
  shows "alternating (cs_cstate (event_spec e t s) = no_idle) es"
  using assms
  by (cases e)
    (auto simp: tracked_def event_spec_def idle_spec_def freq_spec_def idle_state_small no_idle_state
      split: if_splits option.splits)

text \<open>A sequence of events on one CPU.\<close>

definition cpu_prog :: "'s kapi \<Rightarrow> u32 \<Rightarrow> cpu_event \<Rightarrow> ('s, int) state" where
  "cpu_prog K c e =
     (case e of
        Idle st \<Rightarrow> cpustat_bpf_prog1 K \<lparr>ca_pad = 0, ca_state = st, ca_cpu_id = c\<rparr>
      | Frequency f \<Rightarrow> cpustat_bpf_prog2 K \<lparr>ca_pad = 0, ca_state = f, ca_cpu_id = c\<rparr>)"

primrec cpu_events :: "'s kapi \<Rightarrow> u32 \<Rightarrow> cpu_event list \<Rightarrow> ('s, int) state" where
  "cpu_events K c [] = State_Monad.return 0"
| "cpu_events K c (e # es) = do { cpu_prog K c e; cpu_events K c es }"

lemma alternating_hd: "alternating r (e # es) \<Longrightarrow> alternating r [e]"
  by (auto split: cpu_event.splits if_splits)

context kernel_doc
begin

lemma event_refines:
  assumes "c < 8" and "tracked (abs_cpu v c)"
    and "alternating (cs_cstate (abs_cpu v c) = no_idle) (e # es)"
  shows "vruns view (cpu_prog K c e) v
     (\<lambda>r v'. v_time v \<le> v_time v' \<and>
        (\<forall>c' < 8. abs_cpu v' c' =
           (if c' = c then event_spec e (v_time v') (abs_cpu v c) else abs_cpu v c')))"
proof (cases e)
  case (Idle st)
  have "cs_cstate (abs_cpu v c) < 3" if "st = - 1"
    using assms(2,3) that Idle by (auto simp: tracked_def)
  then show ?thesis
    unfolding Idle cpu_prog_def event_spec_def cpu_event.case
    by (rule_tac vruns_mono [OF idle_refines [OF _ assms(1)]]) auto
next
  case (Frequency f)
  show ?thesis
    unfolding Frequency cpu_prog_def event_spec_def cpu_event.case
    by (rule vruns_mono [OF freq_refines [OF _ assms(1)]]) auto
qed

lemma events_conserve:
  assumes "c < 8" and "tracked (abs_cpu v c)" and "v_time v \<noteq> 0"
    and "alternating (cs_cstate (abs_cpu v c) = no_idle) es"
  shows "vruns view (cpu_events K c es) v
     (\<lambda>r v'. tracked (abs_cpu v' c) \<and>
        charged (abs_cpu v' c) =
          charged (abs_cpu v c) + (boundary (abs_cpu v' c) - boundary (abs_cpu v c)) \<and>
        (\<forall>c' < 8. c' \<noteq> c \<longrightarrow> abs_cpu v' c' = abs_cpu v c'))"
  using assms(2-)
proof (induction es arbitrary: v)
  case Nil
  then show ?case
    by (simp add: vruns_return)
next
  case (Cons e es)
  let ?s = "abs_cpu v c"
  have "vruns view (cpu_events K c es) v'
     (\<lambda>r v''. tracked (abs_cpu v'' c) \<and>
        charged (abs_cpu v'' c) = charged ?s + (boundary (abs_cpu v'' c) - boundary ?s) \<and>
        (\<forall>c' < 8. c' \<noteq> c \<longrightarrow> abs_cpu v'' c' = abs_cpu v c'))"
    if t: "v_time v \<le> v_time v'" and s: "abs_cpu v' c = event_spec e (v_time v') ?s"
      and other: "\<forall>c' < 8. c' \<noteq> c \<longrightarrow> abs_cpu v' c' = abs_cpu v c'" for v'
  proof -
    have "v_time v' \<noteq> 0"
      using t Cons.prems(2) by auto
    note step = event_spec_conserves [OF Cons.prems(1) this alternating_hd [OF Cons.prems(3)]]
      event_spec_running [OF Cons.prems(1,3), of "v_time v'"]
    show ?thesis
      by (rule vruns_mono [OF Cons.IH]) (use step s other \<open>v_time v' \<noteq> 0\<close> in auto)
  qed
  then show ?case
    using assms(1)
    by (auto intro!: vruns_bind vruns_mono [OF event_refines [OF assms(1) Cons.prems(1,3)]])
qed

end

end
