(* ===== verification/Cpustat_User.thy ===== *)
theory Cpustat_User
  imports User_Lib Cpustat_Facts
begin

text \<open>
  The user side of the CPU statistics (\<open>cpustat_user.c\<close>): it provokes events on every CPU, reads
  the durations out of the maps and prints them.  The main loop does not end by itself; the model
  is a run that a signal interrupts after a given number of rounds.
\<close>

section \<open>Printing\<close>

record cpu_stat_data =
  d_cstate :: "u64 list"
  d_pstate :: "u64 list"

text \<open>A conversion with a minus sign and a width pads on the right.\<close>

definition fmt_left :: "nat \<Rightarrow> string \<Rightarrow> string" where
  "fmt_left n s = s @ replicate (n - length s) CHR '' ''"

primrec uputs_all :: "env \<Rightarrow> string list \<Rightarrow> uprog \<Rightarrow> uprog" where
  "uputs_all env [] k = k"
| "uputs_all env (s # ss) k = uputs env s (uputs_all env ss k)"

definition stat_header :: "string list" where
  "stat_header =
     [[CHR 0x1B] @ ''[2J'', [CHR 0x0A] @ nl ''CPU states statistics:'', fmt_left 10 ''state(ms)'' @ '' ''] @
     map (\<lambda>i. fmt_left 11 (''cstate-'' @ dec_nat i) @ '' '') [0..<3] @
     map (\<lambda>i. fmt_left 11 (''pstate-'' @ dec_nat i) @ '' '') [0..<5] @ [nl []]"

definition stat_line :: "nat \<Rightarrow> cpu_stat_data \<Rightarrow> string list" where
  "stat_line j data =
     [''CPU-'' @ fmt_left 6 (dec_nat j) @ '' ''] @
     map (\<lambda>w. fmt_left 11 (dec_nat (unat (w div 1000000))) @ '' '') (d_cstate data @ d_pstate data) @
     [nl []]"

definition cpu_stat_print :: "env \<Rightarrow> cpu_stat_data list \<Rightarrow> uprog \<Rightarrow> uprog" where
  "cpu_stat_print env stat_data k =
     uputs_all env (stat_header @ concat (map (\<lambda>j. stat_line j (stat_data ! j)) [0..<length stat_data])) k"

section \<open>Reading the maps\<close>

text \<open>
  The loop over the entries of one CPU.  The result of the lookup is not checked: when it fails,
  the variable \<open>value\<close> keeps what the lookup before has left there, nothing at first.
\<close>

primrec read_row ::
  "env \<Rightarrow> nat \<Rightarrow> u64 list \<Rightarrow> u64 option \<Rightarrow> u64 list \<Rightarrow> (u64 option \<Rightarrow> u64 list \<Rightarrow> uprog) \<Rightarrow> uprog" where
  "read_row env m [] value acc k = k value acc"
| "read_row env m (key # keys) value acc k =
     ulookup env m (word_bytes key) (\<lambda>ret val.
     let value = (if ret = 0 then Some (bytes_word (take 8 val)) else value) in
     case value of
       None \<Rightarrow> ufail Uninit_read
     | Some w \<Rightarrow> read_row env m keys value (acc @ [w]) k)"

primrec read_cpus ::
  "env \<Rightarrow> nat list \<Rightarrow> u64 option \<Rightarrow> cpu_stat_data list \<Rightarrow> (cpu_stat_data list \<Rightarrow> uprog) \<Rightarrow> uprog" where
  "read_cpus env [] value stat_data k = k stat_data"
| "read_cpus env (c # cs) value stat_data k =
     read_row env 1 (map (\<lambda>i. word_of_nat (c * 3 + i)) [0..<3]) value [] (\<lambda>value cst.
     read_row env 2 (map (\<lambda>i. word_of_nat (c * 5 + i)) [0..<5]) value [] (\<lambda>value pst.
     read_cpus env cs value (stat_data @ [\<lparr>d_cstate = cst, d_pstate = pst\<rparr>]) k))"

definition cpu_stat_update :: "env \<Rightarrow> (cpu_stat_data list \<Rightarrow> uprog) \<Rightarrow> uprog" where
  "cpu_stat_update env k = read_cpus env [0..<8] None [] k"

section \<open>Provoking events\<close>

text \<open>A set of CPUs is an array of 1024 bits; the macros check the index.\<close>

definition CPU_ISSET :: "nat \<Rightarrow> u8 list \<Rightarrow> bool" where
  "CPU_ISSET i cpus = (i div 8 < length cpus \<and> bit (cpus ! (i div 8)) (i mod 8))"

definition CPU_ZERO :: "u8 list" where
  "CPU_ZERO = replicate 128 0"

definition CPU_SET :: "nat \<Rightarrow> u8 list \<Rightarrow> u8 list" where
  "CPU_SET i cpus =
     (if i div 8 < length cpus then cpus[i div 8 := set_bit (i mod 8) (cpus ! (i div 8))] else cpus)"

definition sched_setaffinity :: "u8 list \<Rightarrow> call" where
  "sched_setaffinity cpus = Libc ''sched_setaffinity'' ([0, 128] @ map (\<lambda>b. int (unat b)) cpus)"

text \<open>
  The original mask is None when \<open>sched_getaffinity\<close> has failed and left it uninitialised.
\<close>

primrec wake_cpus :: "env \<Rightarrow> int \<Rightarrow> u8 list option \<Rightarrow> nat list \<Rightarrow> uprog \<Rightarrow> uprog" where
  "wake_cpus env rcpu original [] k = k"
| "wake_cpus env rcpu original (i # is) k =
     (if int i = rcpu then wake_cpus env rcpu original is k
      else case original of
        None \<Rightarrow> ufail Uninit_read
      | Some cpus \<Rightarrow>
          if \<not> CPU_ISSET i cpus then wake_cpus env rcpu original is k
          else ucall env (sched_setaffinity (CPU_SET i CPU_ZERO)) (\<lambda>_.
               wake_cpus env rcpu original is k))"

abbreviation SC_NPROCESSORS_CONF :: int where "SC_NPROCESSORS_CONF \<equiv> 83"

definition cpu_stat_inject_cpu_idle_event :: "env \<Rightarrow> (int \<Rightarrow> uprog) \<Rightarrow> uprog" where
  "cpu_stat_inject_cpu_idle_event env k =
     ucall env (Libc ''sysconf'' [SC_NPROCESSORS_CONF]) (\<lambda>r. let ret = to_int32 (r_ret r) in
     if ret < 0 then k (- 1)
     else
       ucall env (Libc ''sched_getcpu'' []) (\<lambda>r. let rcpu = r_ret r in
       if rcpu < 0 then k (- 1)
       else
         ucall env (Libc ''sched_getaffinity'' [0, 128]) (\<lambda>r.
         let original = (if r_ret r < 0 then None else Some (r_data r)) in
         wake_cpus env rcpu original [0..<nat ret] (
         case original of
           None \<Rightarrow> ufail Uninit_read
         | Some cpus \<Rightarrow> ucall env (sched_setaffinity cpus) (\<lambda>_. k 0)))))"

definition CPUFREQ_MAX_SYSFS_PATH :: string where
  "CPUFREQ_MAX_SYSFS_PATH = ''/sys/devices/system/cpu/cpu0/cpufreq/scaling_max_freq''"

definition cpu_stat_inject_cpu_frequency_event :: "env \<Rightarrow> (int \<Rightarrow> uprog) \<Rightarrow> uprog" where
  "cpu_stat_inject_cpu_frequency_event env k =
     ucall env (Open CPUFREQ_MAX_SYSFS_PATH [O_WRONLY]) (\<lambda>r. let fd = r_ret r in
     if fd < 0
     then uputs env (nl (''failed to open scaling_max_freq, errno='' @ dec (r_errno r))) (k fd)
     else
       ucall env (Write fd ''400000'') (\<lambda>r. let len = r_ret r in
       if len < 0
       then uputs env (nl (''failed to open scaling_max_freq, errno='' @ dec (r_errno r))) (
            ucall env (Close fd) (\<lambda>_. k len))
       else
         ucall env (Write fd ''4600000'') (\<lambda>r. let len = r_ret r in
         if len < 0
         then uputs env (nl (''failed to open scaling_max_freq, errno='' @ dec (r_errno r))) (
              ucall env (Close fd) (\<lambda>_. k len))
         else ucall env (Close fd) (\<lambda>_. k len))))"

text \<open>The two frequencies it asks for are not operating points that the kernel side knows.\<close>

lemma injected_no_opp: "opp_index 400000 = None" "opp_index 4600000 = None"
  by (simp_all add: opp_index_def cpu_opps_def upt_rec)

section \<open>The program\<close>

definition cpustat_int_exit :: "env \<Rightarrow> uprog" where
  "cpustat_int_exit env =
     cpu_stat_inject_cpu_idle_event env (\<lambda>_.
     cpu_stat_inject_cpu_frequency_event env (\<lambda>_.
     cpu_stat_update env (\<lambda>stat_data.
     cpu_stat_print env stat_data (ureturn 0))))"

primrec cpustat_rounds :: "env \<Rightarrow> nat \<Rightarrow> uprog \<Rightarrow> uprog" where
  "cpustat_rounds env 0 k = k"
| "cpustat_rounds env (Suc n) k =
     cpu_stat_update env (\<lambda>stat_data.
     cpu_stat_print env stat_data (
     ucall env (Libc ''sleep'' [5]) (\<lambda>_. cpustat_rounds env n k)))"

definition cpustat_main :: "nat \<Rightarrow> libelf \<Rightarrow> env \<Rightarrow> string \<Rightarrow> nat \<Rightarrow> uprog" where
  "cpustat_main fuel lib env argv0 rounds =
     uputs env (nl (''File to be loaded is : '' @ object_name argv0 @ '' '')) (
     load_or_log fuel lib env argv0 (
     cpu_stat_inject_cpu_idle_event env (\<lambda>ret.
     if ret < 0 then ureturn 1
     else
       cpu_stat_inject_cpu_frequency_event env (\<lambda>ret.
       if ret < 0 then ureturn 1
       else
         ucall env (Libc ''signal'' [2]) (\<lambda>_.
         ucall env (Libc ''signal'' [15]) (\<lambda>_.
         cpustat_rounds env rounds (cpustat_int_exit env)))))))"

section \<open>What the program reads\<close>

text \<open>The replies to lookups show the contents of a map.\<close>

definition map_shown :: "env \<Rightarrow> int \<Rightarrow> bpf_map_def \<Rightarrow> kview \<Rightarrow> bool" where
  "map_shown env fd m v =
     (\<forall>h key. let r = env h (map_call BPF_MAP_LOOKUP_ELEM fd key []) in
        case v_map v m (take (unat (bm_key_size m)) key) of
          Some bs \<Rightarrow> r_ret r = 0 \<and> r_data r = bs | None \<Rightarrow> r_ret r < 0)"

lemma take_le_bytes: "k \<le> n \<Longrightarrow> take k (le_bytes n x) = le_bytes k x"
proof (induction n arbitrary: k x)
  case (Suc n)
  then show ?case
    by (cases k) auto
qed simp

lemma take_word_bytes:
  assumes "n < 2 ^ 32"
  shows "take 4 (word_bytes (word_of_nat n :: u64)) = word_bytes (word_of_nat n :: u32)"
  using assms by (simp add: word_bytes_def take_le_bytes unat_of_nat)

lemma read_row_reads:
  assumes "maps_ok_view v" and "is_counters m" and "map_shown env fd m v"
    and "\<forall>n \<in> set ns. n < unat (bm_max_entries m)"
    and "i < length (map_fd L)" and "map_fd L ! i = fd"
  shows "\<exists>w' L'. map_fd L' = map_fd L \<and>
    read_row env i (map word_of_nat ns) w acc k L =
    k w' (acc @ map (\<lambda>n. slot v m (word_of_nat n)) ns) L'"
  using assms(4-)
proof (induction ns arbitrary: w acc L)
  case Nil
  then show ?case
    by auto
next
  case (Cons n ns)
  have "unat (bm_max_entries m) < 2 ^ 32"
    using unsigned_less [of "bm_max_entries m"] by simp
  then have n: "n < 2 ^ 32" and small: "word_of_nat n < bm_max_entries m"
    using Cons.prems(1) unat_of_nat32 [of n] by (auto simp: word_less_nat_alt)
  obtain bs where bs: "v_map v m (word_bytes (word_of_nat n :: u32)) = Some bs"
    using present_slot [OF assms(1,2), of "word_of_nat n"] small by auto
  let ?c = "map_call BPF_MAP_LOOKUP_ELEM fd (word_bytes (word_of_nat n :: u64)) []"
  let ?L = "L\<lparr>calls := calls L @ [?c]\<rparr>"
  have "r_ret (env (calls L) ?c) = 0 \<and> r_data (env (calls L) ?c) = bs"
    using assms(3) bs take_word_bytes [OF n] assms(2)
    by (auto simp: map_shown_def is_counters_def Let_def dest!: spec [of _ "calls L"]
        spec [of _ "word_bytes (word_of_nat n :: u64)"])
  then have "read_row env i (map word_of_nat (n # ns)) w acc k L =
      read_row env i (map word_of_nat ns) (Some (slot v m (word_of_nat n)))
        (acc @ [slot v m (word_of_nat n)]) k ?L"
    using Cons.prems(2,3) bs by (simp add: ulookup_eq Let_def slot_def)
  moreover obtain w' L' where "map_fd L' = map_fd ?L" and
    "read_row env i (map word_of_nat ns) (Some (slot v m (word_of_nat n)))
        (acc @ [slot v m (word_of_nat n)]) k ?L =
     k w' ((acc @ [slot v m (word_of_nat n)]) @ map (\<lambda>n. slot v m (word_of_nat n)) ns) L'"
    using Cons.IH [of ?L "Some (slot v m (word_of_nat n))" "acc @ [slot v m (word_of_nat n)]"] Cons.prems by auto
  ultimately show ?case
    by auto
qed

definition stat_of :: "kview \<Rightarrow> nat \<Rightarrow> cpu_stat_data" where
  "stat_of v c = \<lparr>d_cstate = cs_cdur (abs_cpu v (word_of_nat c)),
     d_pstate = cs_pdur (abs_cpu v (word_of_nat c))\<rparr>"

lemma read_cpus_reads:
  assumes "maps_ok_view v" and "map_shown env fd1 cstate_duration v"
    and "map_shown env fd2 pstate_duration v"
    and "\<forall>c \<in> set cs. c < 8"
    and "2 < length (map_fd L)" and "map_fd L ! 1 = fd1" and "map_fd L ! 2 = fd2"
  shows "\<exists>L'. map_fd L' = map_fd L \<and>
    read_cpus env cs w acc k L = k (acc @ map (stat_of v) cs) L'"
  using assms(4-)
proof (induction cs arbitrary: w acc L)
  case Nil
  then show ?case
    by auto
next
  case (Cons c cs)
  let ?k2 = "\<lambda>cst value pst. read_cpus env cs value (acc @ [\<lparr>d_cstate = cst, d_pstate = pst\<rparr>]) k"
  let ?k1 = "\<lambda>value cst. read_row env 2 (map word_of_nat (map (\<lambda>i. c * 5 + i) [0..<5])) value [] (?k2 cst)"
  have c: "c < 8"
    using Cons.prems(1) by simp
  obtain w1 L1 where L1: "map_fd L1 = map_fd L" and
    "read_row env 1 (map word_of_nat (map (\<lambda>i. c * 3 + i) [0..<3])) w [] ?k1 L =
     ?k1 w1 (cs_cdur (abs_cpu v (word_of_nat c))) L1"
    using read_row_reads [OF assms(1) _ assms(2), of "map (\<lambda>i. c * 3 + i) [0..<3]" 1 L w "[]" ?k1]
      Cons.prems c by (auto simp: abs_cpu_def o_def)
  moreover obtain w2 L2 where L2: "map_fd L2 = map_fd L" and
    "?k1 w1 (cs_cdur (abs_cpu v (word_of_nat c))) L1 =
     ?k2 (cs_cdur (abs_cpu v (word_of_nat c))) w2 (cs_pdur (abs_cpu v (word_of_nat c))) L2"
    using read_row_reads [OF assms(1) _ assms(3), of "map (\<lambda>i. c * 5 + i) [0..<5]" 2 L1 w1 "[]"
        "?k2 (cs_cdur (abs_cpu v (word_of_nat c)))"]
      Cons.prems c L1 by (auto simp: abs_cpu_def o_def)
  moreover obtain L3 where "map_fd L3 = map_fd L" and
    "read_cpus env cs w2 (acc @ [stat_of v c]) k L2 = k ((acc @ [stat_of v c]) @ map (stat_of v) cs) L3"
    using Cons.IH [of L2 w2 "acc @ [stat_of v c]"] Cons.prems L2 by auto
  ultimately show ?case
    by (auto simp: stat_of_def [of v c] o_def)
qed

end
