(* ===== verification/Cpustat_Props.thy ===== *)
theory Cpustat_Props
  imports Cpustat_User Ref_Kernel
begin

text \<open>
  The properties of the CPU statistics: the programs in the kernel implement the operations on
  the record of one CPU, charge every interval exactly once, and the user side reads what they
  have recorded; and the cases in which an interval is charged to the wrong entry.
\<close>

section \<open>A sample\<close>

text \<open>CPU 1 runs at the first operating point since time 100; its last idle state began at 90.\<close>

definition cpu_view :: kview where
  "cpu_view = start_view\<lparr>v_time := 100,
     v_map := (\<lambda>_ _. None)(cpustat_my_map :=
       [word_bytes (4 :: u32) \<mapsto> word_bytes (90 :: u64),
        word_bytes (5 :: u32) \<mapsto> word_bytes (no_idle :: u64),
        word_bytes (6 :: u32) \<mapsto> word_bytes (100 :: u64),
        word_bytes (7 :: u32) \<mapsto> word_bytes (208000 :: u64)])\<rparr>"

abbreviation cpu_sample :: kview where
  "cpu_sample \<equiv> ref_view cpu_view"

lemma cpu_sample_slots:
  "slot cpu_sample cpustat_my_map 4 = 90" "slot cpu_sample cpustat_my_map 5 = no_idle"
  "slot cpu_sample cpustat_my_map 6 = 100" "slot cpu_sample cpustat_my_map 7 = 208000"
  by (simp_all add: slot_def v_map_ref_view cpu_view_def elem_of_def elem_ok_def
      is_counters_def [symmetric] cpustat_my_map_def is_array_def)

lemma cpu_sample_time: "v_time cpu_sample \<noteq> 0"
  by (simp add: ref_view_def cpu_view_def)

lemma opp_index_208000: "opp_index 208000 = Some 0"
  by (simp add: opp_index_def cpu_opps_def upt_rec)

lemma cpu_sample_tracked: "tracked (abs_cpu cpu_sample 1)"
  by (simp add: tracked_def cpu_sample_slots opp_index_208000) (simp add: abs_cpu_def)

section \<open>The programs\<close>

text \<open>
  C22.  Time is conserved.  For a CPU whose times, idle state and frequency are known, and any
  sequence of idle and frequency events in which entering and leaving idle states alternate, the
  time charged to idle states and operating points together grows by exactly the time from the
  last boundary before the events to the last boundary among them: no interval is lost or
  counted twice.  The statistics of the other CPUs do not change.
\<close>

theorem cpustat_time_conserved:
  assumes "kernel_doc K view" and "c < MAX_CPU" and "tracked (abs_cpu v c)" and "v_time v \<noteq> 0"
    and "alternating (cs_cstate (abs_cpu v c) = no_idle) es"
  shows "vruns view (cpu_events K c es) v
     (\<lambda>r v'. tracked (abs_cpu v' c) \<and>
        charged (abs_cpu v' c) =
          charged (abs_cpu v c) + (boundary (abs_cpu v' c) - boundary (abs_cpu v c)) \<and>
        (\<forall>c' < MAX_CPU. c' \<noteq> c \<longrightarrow> abs_cpu v' c' = abs_cpu v c'))"
  using assms by (rule kernel_doc.events_conserve)

theorem cpustat_time_conserved_witness:
  "vruns ref_view (cpu_events ref_kernel 1 [Idle 0, Idle (- 1), Frequency 432000, Idle 2]) cpu_sample
     (\<lambda>r v'. charged (abs_cpu v' 1) =
        charged (abs_cpu cpu_sample 1) + (boundary (abs_cpu v' 1) - boundary (abs_cpu cpu_sample 1)))"
proof -
  have "alternating (cs_cstate (abs_cpu cpu_sample 1) = no_idle)
      [Idle 0, Idle (- 1), Frequency 432000, Idle 2]"
    by (simp add: cpu_sample_slots cpu_opps_def)
  then show ?thesis
    by (intro vruns_mono [OF cpustat_time_conserved [OF ref.kernel_doc_axioms _ cpu_sample_tracked
          cpu_sample_time]]) simp_all
qed

text \<open>
  C23.  Refinement.  The program for idle events, which keeps the statistics of all CPUs in three
  flat arrays, implements the operation on the record of the CPU that the event names, at the
  time the clock shows, and leaves the records of the other CPUs alone; the idle state that ends
  has to be one of the three that the array provides for.
\<close>

theorem cpustat_idle_refines:
  assumes "kernel_doc K view" and "ca_cpu_id ctx < MAX_CPU"
    and "ca_state ctx = - 1 \<Longrightarrow> cs_ctime (abs_cpu v (ca_cpu_id ctx)) \<noteq> 0 \<Longrightarrow>
         cs_cstate (abs_cpu v (ca_cpu_id ctx)) < 3"
  shows "vruns view (cpustat_bpf_prog1 K ctx) v
     (\<lambda>r v'. r = 0 \<and> v_time v \<le> v_time v' \<and>
        (\<forall>c' < MAX_CPU. abs_cpu v' c' =
           (if c' = ca_cpu_id ctx
            then idle_spec (ucast (ca_state ctx)) (v_time v') (abs_cpu v c') else abs_cpu v c')))"
  using kernel_doc.idle_refines [OF assms(1) refl assms(2,3)] by (rule vruns_mono) auto

theorem cpustat_idle_refines_witness:
  "vruns ref_view (cpustat_bpf_prog1 ref_kernel \<lparr>ca_pad = 0, ca_state = 2, ca_cpu_id = 1\<rparr>) cpu_sample
     (\<lambda>r v'. abs_cpu v' 1 = idle_spec 2 (v_time v') (abs_cpu cpu_sample 1))"
  by (rule vruns_mono [OF cpustat_idle_refines [OF ref.kernel_doc_axioms]]) simp_all

text \<open>
  C24.  A change of frequency while the CPU runs charges the interval since the last boundary to
  the operating point that begins, not to the one that ends: the program looks up the index
  after it has stored the new frequency.
\<close>

theorem cpustat_frequency_change:
  assumes "kernel_doc K view" and "ca_cpu_id ctx < MAX_CPU"
    and "cs_ptime (abs_cpu v (ca_cpu_id ctx)) \<noteq> 0" and "cs_cstate (abs_cpu v (ca_cpu_id ctx)) = no_idle"
    and "opp_index (ucast (ca_state ctx)) = Some i"
  shows "vruns view (cpustat_bpf_prog2 K ctx) v
     (\<lambda>r v'. r = 0 \<and> (let s = abs_cpu v (ca_cpu_id ctx) in
        abs_cpu v' (ca_cpu_id ctx) =
          s\<lparr>cs_pstate := ucast (ca_state ctx), cs_ptime := v_time v',
            cs_pdur := add_at i (v_time v' - cs_ptime s) (cs_pdur s)\<rparr>))"
  using kernel_doc.freq_refines [OF assms(1) refl assms(2)]
  by (rule vruns_mono) (use assms(2-) in \<open>simp add: freq_spec_def Let_def\<close>)

theorem cpustat_frequency_change_witness:
  "vruns ref_view (cpustat_bpf_prog2 ref_kernel \<lparr>ca_pad = 0, ca_state = 432000, ca_cpu_id = 1\<rparr>) cpu_sample
     (\<lambda>r v'. cs_pdur (abs_cpu v' 1) = add_at 1 (v_time v' - 100) (cs_pdur (abs_cpu cpu_sample 1)))"
proof -
  have "opp_index 432000 = Some 1"
    by (simp add: opp_index_def cpu_opps_def upt_rec)
  then show ?thesis
    by (intro vruns_mono [OF cpustat_frequency_change [OF ref.kernel_doc_axioms, of _ cpu_sample 1]])
      (simp_all add: cpu_sample_slots Let_def)
qed

text \<open>
  C25.  Two exits from idle in a row, as when an event was lost, charge the interval to the last
  idle state of the CPU with the number before: the index of the entry is computed from the
  marker for "not idle" and wraps around.
\<close>

theorem cpustat_double_exit:
  assumes "kernel_doc K view" and "ca_cpu_id ctx < MAX_CPU" and "0 < ca_cpu_id ctx"
    and "ca_state ctx = - 1" and "cs_ctime (abs_cpu v (ca_cpu_id ctx)) \<noteq> 0"
    and "cs_cstate (abs_cpu v (ca_cpu_id ctx)) = no_idle"
  shows "vruns view (cpustat_bpf_prog1 K ctx) v
     (\<lambda>r v'. let c = ca_cpu_id ctx in abs_cpu v' (c - 1) = (abs_cpu v (c - 1))
        \<lparr>cs_cdur := add_at 2 (v_time v' - cs_ctime (abs_cpu v c)) (cs_cdur (abs_cpu v (c - 1)))\<rparr>)"
  unfolding Let_def using kernel_doc.idle_double_exit [OF assms(1) refl assms(2-)] .

theorem cpustat_double_exit_witness:
  "vruns ref_view (cpustat_bpf_prog1 ref_kernel \<lparr>ca_pad = 0, ca_state = - 1, ca_cpu_id = 1\<rparr>) cpu_sample
     (\<lambda>r v'. cs_cdur (abs_cpu v' 0) = add_at 2 (v_time v' - 90) (cs_cdur (abs_cpu cpu_sample 0)))"
  by (rule vruns_mono [OF cpustat_double_exit [OF ref.kernel_doc_axioms]])
    (simp_all add: cpu_sample_slots Let_def)

section \<open>The user side\<close>

text \<open>
  C26.  What the user program shows is what the programs in the kernel have recorded: when the
  replies to its lookups show the two maps of durations, it goes on with the durations of the
  records of the eight CPUs, and every read has been initialised.
\<close>

theorem cpu_stat_update_reads:
  assumes "maps_ok_view v" and "2 < length (map_fd L)"
    and "map_shown env (map_fd L ! 1) cstate_duration v"
    and "map_shown env (map_fd L ! 2) pstate_duration v"
  shows "\<exists>L'. map_fd L' = map_fd L \<and> cpu_stat_update env k L = k (map (stat_of v) [0..<8]) L'"
  using read_cpus_reads [OF assms(1,3,4), of "[0..<8]" L None "[]" k] assms(2)
  unfolding cpu_stat_update_def by simp

text \<open>A system that shows the maps of the sample under the descriptors 5 and 6.\<close>

definition cpu_env :: env where
  "cpu_env h c = (case c of
      Bpf BPF_MAP_LOOKUP_ELEM (Map_elem a) \<Rightarrow>
        (case v_map cpu_sample (if a_elem_fd a = 5 then cstate_duration else pstate_duration)
                (take 4 (a_key a)) of
           Some bs \<Rightarrow> \<lparr>r_ret = 0, r_errno = 0, r_data = bs, r_attr = None\<rparr>
         | None \<Rightarrow> \<lparr>r_ret = - 1, r_errno = 2, r_data = [], r_attr = None\<rparr>)
    | _ \<Rightarrow> \<lparr>r_ret = 0, r_errno = 0, r_data = [], r_attr = None\<rparr>)"

lemma cpu_env_shows: "map_shown cpu_env 5 cstate_duration cpu_sample"
  "map_shown cpu_env 6 pstate_duration cpu_sample"
proof -
  have "unat (bm_key_size cstate_duration) = 4" "unat (bm_key_size pstate_duration) = 4"
    by (simp_all add: cstate_duration_def pstate_duration_def)
  then show "map_shown cpu_env 5 cstate_duration cpu_sample"
    "map_shown cpu_env 6 pstate_duration cpu_sample"
    by (simp_all add: map_shown_def cpu_env_def Let_def split: option.split)
qed

theorem cpu_stat_update_reads_witness:
  "\<exists>L'. cpu_stat_update cpu_env (\<lambda>data L. Inr (int (length data), L)) (loader_init\<lparr>map_fd := [4, 5, 6]\<rparr>) =
     Inr (8, L')"
  using cpu_stat_update_reads [OF ref.maps_legal, of "loader_init\<lparr>map_fd := [4, 5, 6]\<rparr>" cpu_env cpu_view
      "\<lambda>data L. Inr (int (length data), L)"] cpu_env_shows by auto

end
