(* ===== verification/Trace_Progs.thy ===== *)
theory Trace_Progs
  imports Reduce
begin

text \<open>
  The tracing and filter programs: those that follow a read system call from its entry to its
  exit (\<open>buffermap_kern.c\<close>, \<open>readbuff_kern.c\<close>, \<open>passfd_kern.c\<close>), those that observe the
  copy of a page (\<open>mmap_kern.c\<close>, the earlier \<open>readiter_kern.c\<close>), those that replace the probed
  function (\<open>override_exec_kern.c\<close>, \<open>procfs_override_kern.c\<close>, \<open>proberead_kern.c\<close>), the counters
  (\<open>open_tp_kern.c\<close>, \<open>sock_kern.c\<close>), the address rewriting of \<open>kprobe_open_kern.c\<close>, and small
  experiments with single helpers.
\<close>

section \<open>Maps and contexts\<close>

definition my_map :: bpf_map_def where
  "my_map = \<lparr>bm_name = ''my_map'', bm_type = BPF_MAP_TYPE_ARRAY, bm_key_size = 4,
     bm_value_size = 4, bm_max_entries = 1\<rparr>"

definition my_buffer_map :: bpf_map_def where
  "my_buffer_map = \<lparr>bm_name = ''my_buffer_map'', bm_type = BPF_MAP_TYPE_ARRAY, bm_key_size = 4,
     bm_value_size = 8, bm_max_entries = 1\<rparr>"

definition my_char_map :: bpf_map_def where
  "my_char_map = \<lparr>bm_name = ''my_char_map'', bm_type = BPF_MAP_TYPE_ARRAY, bm_key_size = 4,
     bm_value_size = 1, bm_max_entries = 1\<rparr>"

record sys_enter_read_args =
  er_unused :: u64
  er_syscall_nr :: u64
  er_fd :: u64
  er_buf :: u64
  er_mode :: u64

record sys_exit_read_args =
  xr_unused :: u64
  xr_syscall_nr :: u64
  xr_ret :: u64

text \<open>
  A key of type \<open>long\<close>, of which the maps use the first four bytes; a \<open>char\<close> passed on as an
  argument.
\<close>

definition long_key0 :: "u8 list" where
  "long_key0 = word_bytes (0 :: u64)"

definition char_arg :: "u8 \<Rightarrow> u64" where
  "char_arg c = word_of_int (sint c)"

definition arg32 :: "u32 \<Rightarrow> u64" where
  "arg32 w = word_of_nat (unat w)"

section \<open>Following a read by process and buffer\<close>

definition buffermap_attach_read :: "'s kapi \<Rightarrow> sys_enter_read_args \<Rightarrow> ('s, int) state" where
  "buffermap_attach_read K ctx = do {
     pid \<leftarrow> lookup_elem K my_map key0;
     case pid of
       None \<Rightarrow> do { k_trace_printk K (nl ''error reading pid value from map'') []; State_Monad.return 0 }
     | Some pid \<Rightarrow> do {
         p \<leftarrow> load32 K pid;
         k_trace_printk K (nl ''pid on map %ld'') [Num (arg32 p)];
         t \<leftarrow> k_get_current_pid_tgid K;
         let tgid = (word_of_nat (unat (drop_bit 32 t)) :: u32);
         k_trace_printk K (nl ''tgid %ld'') [Num (arg32 tgid)];
         p \<leftarrow> load32 K pid;
         if tgid = p then do {
           val \<leftarrow> lookup_elem K my_read_map key0;
           case val of
             None \<Rightarrow> do { k_trace_printk K no_buffer []; State_Monad.return 0 }
           | Some val \<Rightarrow> do {
               b \<leftarrow> load64 K val;
               k_trace_printk K (nl ''buffer on params %lu, buffer on map %lu'') [Num (er_buf ctx), Num b];
               b \<leftarrow> load64 K val;
               if b = er_buf ctx
               then do {
                 k_trace_printk K (nl ''matching targeted buffer with param buffer on read entry'') [];
                 State_Monad.return 0
               }
               else do {
                 k_trace_printk K (nl ''buffer value mismatch on read entry'') [];
                 State_Monad.return 0
               }
             }
         }
         else do { k_trace_printk K (nl ''pid mismatch'') []; State_Monad.return 0 }
       }
   }"

definition buffermap_attach_exit_read ::
  "'s kapi \<Rightarrow> u8 list \<Rightarrow> sys_exit_read_args \<Rightarrow> ('s, int) state" where
  "buffermap_attach_exit_read K single_char ctx = do {
     pid \<leftarrow> lookup_elem K my_map key0;
     case pid of
       None \<Rightarrow> do { k_trace_printk K (nl ''error reading pid value from map'') []; State_Monad.return 0 }
     | Some pid \<Rightarrow> do {
         p \<leftarrow> load32 K pid;
         k_trace_printk K (nl ''pid on map %ld'') [Num (arg32 p)];
         t \<leftarrow> k_get_current_pid_tgid K;
         let tgid = (word_of_nat (unat (drop_bit 32 t)) :: u32);
         k_trace_printk K (nl ''tgid %ld'') [Num (arg32 tgid)];
         p \<leftarrow> load32 K pid;
         if tgid = p then do {
           delete_elem K my_map key0;
           buf \<leftarrow> lookup_elem K my_read_map long_key0;
           case buf of
             None \<Rightarrow> do {
               k_trace_printk K (nl ''error reading buffer value from map'') [];
               State_Monad.return 0
             }
           | Some buf \<Rightarrow> do {
               b \<leftarrow> load64 K buf;
               k_trace_printk K (nl ''read buffer from map on read exit %lu'') [Num b];
               b \<leftarrow> load64 K buf;
               (err, single_char) \<leftarrow> k_probe_read K single_char (Addr b);
               if err \<noteq> 0 then do {
                 k_trace_printk K (nl ''error reading char from user buff'') [];
                 State_Monad.return 0
               }
               else do {
                 k_trace_printk K (nl ''read char from user buffer %c'') [Num (char_arg (hd single_char))];
                 update_elem K my_char_map long_key0 single_char BPF_ANY;
                 State_Monad.return 0
               }
             }
         }
         else do { k_trace_printk K (nl ''pid mismatch on read exit'') []; State_Monad.return 0 }
       }
   }"

section \<open>Following a read by file descriptor\<close>

definition readbuff_attach_read :: "'s kapi \<Rightarrow> sys_enter_read_args \<Rightarrow> ('s, int) state" where
  "readbuff_attach_read K ctx = do {
     val \<leftarrow> lookup_elem K my_map key0;
     case val of
       None \<Rightarrow> do { k_trace_printk K (nl ''error reading fd value from map'') []; State_Monad.return 0 }
     | Some val \<Rightarrow> do {
         k_trace_printk K (nl ''fd on params %d'') [Num (er_fd ctx)];
         fd \<leftarrow> load32 K val;
         if arg32 fd = er_fd ctx then do {
           k_trace_printk K (nl ''matching targeted file descriptor and pid on read entry'') [];
           let buf = er_buf ctx;
           update_elem K my_read_map key0 (word_bytes buf) BPF_ANY;
           State_Monad.return 0
         }
         else State_Monad.return 0
       }
   }"

text \<open>The variable \<open>buf\<close> points to the value in the map, so \<open>*buf\<close> is the first byte of the value.\<close>

definition readbuff_attach_exit_read :: "'s kapi \<Rightarrow> sys_exit_read_args \<Rightarrow> ('s, int) state" where
  "readbuff_attach_exit_read K ctx = do {
     buf \<leftarrow> lookup_elem K my_read_map long_key0;
     case buf of
       None \<Rightarrow> do { k_trace_printk K (nl ''error reading buffer value from map'') []; State_Monad.return 0 }
     | Some buf \<Rightarrow> do {
         c \<leftarrow> load8 K buf;
         k_trace_printk K (nl ''read value from map, should look for buffer %x, value %c'')
           [Ref buf, Num (char_arg c)];
         single_char \<leftarrow> load8 K buf;
         update_elem K my_char_map long_key0 [single_char] BPF_ANY;
         State_Monad.return 0
       }
   }"

definition passfd_my_read_map :: bpf_map_def where
  "passfd_my_read_map = \<lparr>bm_name = ''my_read_map'', bm_type = BPF_MAP_TYPE_ARRAY, bm_key_size = 4,
     bm_value_size = 4, bm_max_entries = 1\<rparr>"

definition passfd_attach_read :: "'s kapi \<Rightarrow> sys_enter_read_args \<Rightarrow> ('s, int) state" where
  "passfd_attach_read K ctx = do {
     val \<leftarrow> lookup_elem K my_map long_key0;
     case val of
       None \<Rightarrow> do { k_trace_printk K (nl ''error reading value from map'') []; State_Monad.return 0 }
     | Some val \<Rightarrow> do {
         k_trace_printk K (nl ''read value from map'') [];
         fd \<leftarrow> load32 K val;
         update_elem K passfd_my_read_map long_key0 (word_bytes fd) BPF_ANY;
         State_Monad.return 0
       }
   }"

section \<open>Observing the copy of a page\<close>

definition mmap_bpf_prog1 :: "'s kapi \<Rightarrow> ('s, int) state" where
  "mmap_bpf_prog1 K = trace_only K ''copy_page_to_iter''"

definition mmap_bpf_prog2 :: "'s kapi \<Rightarrow> ('s, int) state" where
  "mmap_bpf_prog2 K = trace_only K ''ext4 file read''"

definition mmap_bpf_prog9 :: "'s kapi \<Rightarrow> ('s, int) state" where
  "mmap_bpf_prog9 K = trace_only K ''generic file read''"

definition mmap_bpf_prog3 :: "'s kapi \<Rightarrow> ('s, int) state" where
  "mmap_bpf_prog3 K = trace_only K ''copy_page_to_iter_pipe''"

definition mmap_bpf_prog4 :: "'s kapi \<Rightarrow> ('s, int) state" where
  "mmap_bpf_prog4 K = trace_only K ''_copy_to_iter_bpf''"

definition mmap_bpf_prog5 :: "'s kapi \<Rightarrow> ('s, int) state" where
  "mmap_bpf_prog5 K = trace_only K ''copy_to_iter_bpf''"

definition mmap_bpf_prog6 :: "'s kapi \<Rightarrow> ('s, int) state" where
  "mmap_bpf_prog6 K = trace_only K ''copy_page_to_iter_iovec''"

definition mmap_bpf_prog7 :: "'s kapi \<Rightarrow> u8 list \<Rightarrow> pt_regs \<Rightarrow> ('s, int) state" where
  "mmap_bpf_prog7 K userbuff ctx = do {
     k_trace_printk K (nl ''entering modified copyout'') [];
     let to = PT_REGS_PARM1 ctx;
     let from = PT_REGS_PARM2 ctx;
     let len = int_arg (PT_REGS_PARM3 ctx);
     val \<leftarrow> lookup_elem K my_read_map key0;
     case val of
       None \<Rightarrow> do { k_trace_printk K no_buffer []; State_Monad.return 0 }
     | Some val \<Rightarrow> do {
         buf \<leftarrow> load64 K val;
         k_trace_printk K (nl ''buffer on params %lu, buffer on map %lu'') [Num to, Num buf];
         k_trace_printk K (nl ''copyout to 0x%p, ul %lu len %d'') [Num to, Num to, Num len];
         (ret, userbuff) \<leftarrow> k_probe_read K userbuff (Addr from);
         k_trace_printk K (nl ''copyout to 0x%p from 0x%p char %s'') [Num to, Num from, Bytes userbuff];
         State_Monad.return 0
       }
   }"

definition mmap_bpf_prog12 :: "'s kapi \<Rightarrow> u8 list \<Rightarrow> pt_regs \<Rightarrow> ('s, int) state" where
  "mmap_bpf_prog12 K userbuff ctx = do {
     k_trace_printk K (nl ''entering real copyout'') [];
     let to = PT_REGS_PARM1 ctx;
     let from = PT_REGS_PARM2 ctx;
     let len = int_arg (PT_REGS_PARM3 ctx);
     val \<leftarrow> lookup_elem K my_read_map key0;
     case val of
       None \<Rightarrow> do { k_trace_printk K no_buffer []; State_Monad.return 0 }
     | Some val \<Rightarrow> do {
         buf \<leftarrow> load64 K val;
         k_trace_printk K (nl ''buffer on params %lu, buffer on map %lu'') [Num to, Num buf];
         buf \<leftarrow> load64 K val;
         if to = buf then do {
           k_trace_printk K (nl ''copyout to 0x%p, ul %lu len %d'') [Num to, Num to, Num len];
           (ret, userbuff) \<leftarrow> k_probe_read K userbuff (Addr from);
           if ret \<noteq> 0 then do {
             k_trace_printk K (nl ''error reading char from kernel buff'') [];
             State_Monad.return 0
           }
           else do {
             k_trace_printk K (nl ''copyout to 0x%p from 0x%p char %c'')
               [Num to, Num from, Num (char_arg (hd userbuff))];
             State_Monad.return 0
           }
         }
         else State_Monad.return 0
       }
   }"

definition mmap_bpf_prog11 :: "'s kapi \<Rightarrow> pt_regs \<Rightarrow> ('s, int) state" where
  "mmap_bpf_prog11 K ctx = do {
     let to = PT_REGS_PARM2 ctx;
     let len = int_arg (PT_REGS_PARM3 ctx);
     if len = 41
     then do { k_trace_printk K (nl ''__vfs_read %d %p'') [Num len, Num to]; State_Monad.return 0 }
     else State_Monad.return 0
   }"

section \<open>The earlier observer\<close>

definition giulia_bpf_prog1 :: "'s kapi \<Rightarrow> ('s, int) state" where
  "giulia_bpf_prog1 K = trace_only K ''copy_page_to_iter''"

definition giulia_bpf_prog2 :: "'s kapi \<Rightarrow> ('s, int) state" where
  "giulia_bpf_prog2 K = trace_only K ''copy_page_to_iter_iovec''"

definition giulia_bpf_prog3 :: "'s kapi \<Rightarrow> ('s, int) state" where
  "giulia_bpf_prog3 K = trace_only K ''copy_page_to_iter_pipe''"

definition giulia_bpf_prog4 :: "'s kapi \<Rightarrow> ('s, int) state" where
  "giulia_bpf_prog4 K = trace_only K ''Where i'd actually want to be''"

text \<open>One byte is read into the first element of a local array of two.\<close>

definition giulia_bpf_prog5 :: "'s kapi \<Rightarrow> u8 list \<Rightarrow> pt_regs \<Rightarrow> ('s, int) state" where
  "giulia_bpf_prog5 K singlechars ctx = do {
     k_trace_printk K (nl ''entering copyout'') [];
     let to = PT_REGS_PARM1 ctx;
     let from = PT_REGS_PARM2 ctx;
     k_trace_printk K (nl ''copyout to 0x%p from 0x%p'') [Num to, Num from];
     (ret, singlechar) \<leftarrow> k_probe_read K (take 1 singlechars) (Addr (PT_REGS_PARM2 ctx));
     if ret \<noteq> 0 then do {
       k_trace_printk K (nl ''error reading char from kernel buff'') [];
       State_Monad.return 0
     }
     else do {
       k_trace_printk K (nl ''copyout to 0x%p from 0x%p char %c'')
         [Num to, Num from, Num (char_arg (hd singlechar))];
       State_Monad.return 0
     }
   }"

definition giulia_bpf_prog6 :: "'s kapi \<Rightarrow> ('s, int) state" where
  "giulia_bpf_prog6 K = trace_only K ''bpf_probe_read''"

section \<open>Replacing the probed function\<close>

definition counter_map :: bpf_map_def where
  "counter_map = \<lparr>bm_name = ''counter_map'', bm_type = BPF_MAP_TYPE_ARRAY, bm_key_size = 4,
     bm_value_size = 8, bm_max_entries = 1\<rparr>"

definition str_counter_map :: bpf_map_def where
  "str_counter_map = \<lparr>bm_name = ''str_counter_map'', bm_type = BPF_MAP_TYPE_ARRAY, bm_key_size = 4,
     bm_value_size = 8, bm_max_entries = 1\<rparr>"

text \<open>
  The counter is updated in place and then written back through the helper.  The variable \<open>num\<close>
  takes its value and is not used.
\<close>

definition override_exec_bpf_copyout :: "'s kapi \<Rightarrow> pt_regs \<Rightarrow> ('s, int) state" where
  "override_exec_bpf_copyout K ctx = do {
     let to = PT_REGS_PARM1 ctx;
     let blen = int_arg (PT_REGS_PARM3 ctx);
     val \<leftarrow> lookup_elem K my_read_map key0;
     case val of
       None \<Rightarrow> do { k_trace_printk K no_buffer []; State_Monad.return 0 }
     | Some val \<Rightarrow> do {
         buf \<leftarrow> load64 K val;
         if to = buf then do {
           counter \<leftarrow> lookup_elem K counter_map key0;
           num \<leftarrow> (case counter of
              Some counter \<Rightarrow> do {
                c \<leftarrow> load64 K counter;
                store64 K counter (c + 1);
                bs \<leftarrow> k_load K counter;
                update_elem K counter_map key0 bs BPF_ANY;
                load64 K counter
              }
            | None \<Rightarrow> State_Monad.return 1);
           k_override_return K 0;
           curtime \<leftarrow> k_ktime_get_ns K;
           k_probe_write_user K to answer_nl;
           k_trace_printk K (nl ''%llu, kprobe'') [Num curtime];
           State_Monad.return 0
         }
         else State_Monad.return 0
       }
   }"

definition procfs_override_bpf_read :: "'s kapi \<Rightarrow> pt_regs \<Rightarrow> ('s, int) state" where
  "procfs_override_bpf_read K ctx = do {
     let to = PT_REGS_PARM2 ctx;
     let len = int_arg (PT_REGS_PARM3 ctx);
     k_trace_printk K (nl ''myread'') [];
     let rc = len;
     k_override_return K rc;
     k_probe_write_user K to answer_nl;
     State_Monad.return 0
   }"

text \<open>
  The second write is aimed at \<open>len_addr\<close>, the address of the program's own variable \<open>len\<close>.
\<close>

definition proberead_bpf_prog11 :: "'s kapi \<Rightarrow> u8 list \<Rightarrow> u64 \<Rightarrow> pt_regs \<Rightarrow> ('s, int) state" where
  "proberead_bpf_prog11 K userbuff len_addr ctx = do {
     let from = PT_REGS_PARM2 ctx;
     let len = PT_REGS_PARM3 ctx;
     if len = 4 then do {
       k_trace_printk K (nl ''__vfs_write %d from %p'') [Num len, Num from];
       (ret, userbuff) \<leftarrow> k_probe_read K userbuff (Addr from);
       if hd userbuff = 97 then do {
         k_trace_printk K (nl ''intercepted ubuff %s'') [Bytes userbuff];
         let mystring = bytes_of_string ''xyy'' @ [0];
         k_probe_write_user K from mystring;
         let newsize = (word_of_nat (length mystring) :: u64);
         k_probe_write_user K len_addr (word_bytes newsize);
         State_Monad.return 0
       }
       else State_Monad.return 0
     }
     else State_Monad.return 0
   }"

section \<open>Counting system calls and packets\<close>

definition enter_open_map :: bpf_map_def where
  "enter_open_map = \<lparr>bm_name = ''enter_open_map'', bm_type = BPF_MAP_TYPE_ARRAY, bm_key_size = 4,
     bm_value_size = 4, bm_max_entries = 1\<rparr>"

definition exit_open_map :: bpf_map_def where
  "exit_open_map = \<lparr>bm_name = ''exit_open_map'', bm_type = BPF_MAP_TYPE_ARRAY, bm_key_size = 4,
     bm_value_size = 4, bm_max_entries = 1\<rparr>"

definition open_count :: "'s kapi \<Rightarrow> bpf_map_def \<Rightarrow> ('s, unit) state" where
  "open_count K m = do {
     val \<leftarrow> lookup_elem K m key0;
     case val of
       Some val \<Rightarrow> do { n \<leftarrow> load32 K val; store32 K val (n + 1) }
     | None \<Rightarrow> do {
         update_elem K m key0 (word_bytes (1 :: u32)) BPF_NOEXIST;
         State_Monad.return ()
       }
   }"

definition trace_enter_open :: "'s kapi \<Rightarrow> ('s, int) state" where
  "trace_enter_open K = do { open_count K enter_open_map; State_Monad.return 0 }"

definition trace_enter_open_at :: "'s kapi \<Rightarrow> ('s, int) state" where
  "trace_enter_open_at K = do { open_count K enter_open_map; State_Monad.return 0 }"

definition trace_enter_exit :: "'s kapi \<Rightarrow> ('s, int) state" where
  "trace_enter_exit K = do { open_count K exit_open_map; State_Monad.return 0 }"

definition trace_enter_exit_at :: "'s kapi \<Rightarrow> ('s, int) state" where
  "trace_enter_exit_at K = do { open_count K exit_open_map; State_Monad.return 0 }"

text \<open>
  A packet as the socket filter sees it.  An absolute load beyond its end terminates the program
  with the result 0; it is None here.
\<close>

record sk_buff =
  sk_data :: "u8 list"
  pkt_type :: u32

definition load_byte :: "sk_buff \<Rightarrow> nat \<Rightarrow> u8 option" where
  "load_byte skb off = (if off < length (sk_data skb) then Some (sk_data skb ! off) else None)"

abbreviation ETH_HLEN :: nat where "ETH_HLEN \<equiv> 14"
abbreviation iphdr_protocol :: nat where "iphdr_protocol \<equiv> 9"
abbreviation PACKET_OUTGOING :: u32 where "PACKET_OUTGOING \<equiv> 4"

definition sock_my_map :: bpf_map_def where
  "sock_my_map = \<lparr>bm_name = ''my_map'', bm_type = BPF_MAP_TYPE_ARRAY, bm_key_size = 4,
     bm_value_size = 8, bm_max_entries = 256\<rparr>"

definition sock_bpf_prog1 :: "'s kapi \<Rightarrow> sk_buff \<Rightarrow> ('s, int) state" where
  "sock_bpf_prog1 K skb =
     (case load_byte skb (ETH_HLEN + iphdr_protocol) of
        None \<Rightarrow> State_Monad.return 0
      | Some b \<Rightarrow> do {
          let proto = (word_of_nat (unat b) :: u32);
          if pkt_type skb \<noteq> PACKET_OUTGOING then State_Monad.return 0
          else do {
            update_elem K sock_my_map (word_bytes proto) (word_bytes (0 :: u64)) BPF_NOEXIST;
            cnt \<leftarrow> lookup_elem K sock_my_map (word_bytes proto);
            case cnt of
              Some cnt \<Rightarrow> do { fetch_and_add64 K cnt 1; State_Monad.return 0 }
            | None \<Rightarrow> State_Monad.return 0
          }
        })"

section \<open>Rewriting the address of a connection\<close>

abbreviation sizeof_sockaddr_in :: nat where "sizeof_sockaddr_in \<equiv> 16"

definition dnat_map :: bpf_map_def where
  "dnat_map = \<lparr>bm_name = ''dnat_map'', bm_type = BPF_MAP_TYPE_HASH, bm_key_size = 16,
     bm_value_size = 16, bm_max_entries = 256\<rparr>"

text \<open>
  The signed length is compared with a \<open>size_t\<close>, so it is converted to 64 bits without sign.
\<close>

definition kprobe_open_bpf_prog1 :: "'s kapi \<Rightarrow> pt_regs \<Rightarrow> ('s, int) state" where
  "kprobe_open_bpf_prog1 K ctx = do {
     let orig_addr = replicate sizeof_sockaddr_in 0;
     let sockaddr_arg = PT_REGS_PARM2 ctx;
     let sockaddr_len = int_arg (PT_REGS_PARM3 ctx);
     if sockaddr_len > word_of_nat sizeof_sockaddr_in then State_Monad.return 0
     else do {
       (err, orig_addr) \<leftarrow> k_probe_read K orig_addr (Addr sockaddr_arg);
       if err \<noteq> 0 then State_Monad.return 0
       else do {
         mapped_addr \<leftarrow> lookup_elem K dnat_map orig_addr;
         case mapped_addr of
           Some mapped_addr \<Rightarrow> do {
             new_addr \<leftarrow> k_load K mapped_addr;
             k_probe_write_user K sockaddr_arg (take sizeof_sockaddr_in new_addr);
             State_Monad.return 0
           }
         | None \<Rightarrow> State_Monad.return 0
       }
     }
   }"

section \<open>Experiments with single helpers\<close>

definition strtol_bpf_prog7 :: "'s kapi \<Rightarrow> ('s, int) state" where
  "strtol_bpf_prog7 K = do {
     let teststring = bytes_of_string (nl ''42'');
     (res, num) \<leftarrow> k_strtol K teststring 10 0;
     if res < 0 then State_Monad.return 1
     else do {
       k_trace_printk K (nl ''converted num to int %d from %s'') [Num num, Bytes teststring];
       State_Monad.return 0
     }
   }"

definition debug_map :: bpf_map_def where
  "debug_map = \<lparr>bm_name = ''debug_map'', bm_type = BPF_MAP_TYPE_PERF_EVENT_ARRAY, bm_key_size = 4,
     bm_value_size = 4, bm_max_entries = 64\<rparr>"

definition perfarray_bpf_prog1 :: "'s kapi \<Rightarrow> ('s, int) state" where
  "perfarray_bpf_prog1 K = do {
     pid \<leftarrow> k_get_current_pid_tgid K;
     let cookie = (0x12345678 :: u64);
     k_perf_event_output K debug_map 0 (word_bytes pid @ word_bytes cookie);
     State_Monad.return 0
   }"

text \<open>
  The macro \<open>_(P)\<close> reads a field of a kernel structure into a variable that starts as zero.  The
  offsets of the fields depend on the kernel and are parameters.
\<close>

record skb_layout =
  off_dev :: u64
  off_len :: u64
  off_name :: u64

definition tracex1_bpf_prog1 :: "'s kapi \<Rightarrow> skb_layout \<Rightarrow> u8 list \<Rightarrow> pt_regs \<Rightarrow> ('s, int) state" where
  "tracex1_bpf_prog1 K layout devname ctx = do {
     let skb = PT_REGS_PARM1 ctx;
     (_, dev) \<leftarrow> k_probe_read K (word_bytes (0 :: u64)) (Addr (skb + off_dev layout));
     (_, len) \<leftarrow> k_probe_read K (word_bytes (0 :: u32)) (Addr (skb + off_len layout));
     (_, devname) \<leftarrow> k_probe_read K devname (Addr (bytes_word dev + off_name layout));
     if devname ! 0 = 108 \<and> devname ! 1 = 111 then do {
       k_trace_printk K (nl ''skb %p len %d'') [Num skb, Num (int_arg (bytes_word len))];
       State_Monad.return 0
     }
     else State_Monad.return 0
   }"

definition tracex1_bpf_prog6 :: "'s kapi \<Rightarrow> ('s, int) state" where
  "tracex1_bpf_prog6 K = trace_only K ''bpf_probe_read''"

definition hellotrace_bpf_prog1 :: "'s kapi \<Rightarrow> ('s, int) state" where
  "hellotrace_bpf_prog1 K = trace_only K ''giulia's function yeee''"

definition task_fd_query_bpf_prog1 :: "'s kapi \<Rightarrow> ('s, int) state" where
  "task_fd_query_bpf_prog1 K = State_Monad.return 0"

definition task_fd_query_bpf_prog2 :: "'s kapi \<Rightarrow> ('s, int) state" where
  "task_fd_query_bpf_prog2 K = State_Monad.return 0"

end
