(* ===== verification/Trace_Facts.thy ===== *)
theory Trace_Facts
  imports Trace_Progs Reduce_Facts Counters
begin

text \<open>
  What the tracing and filter programs leave behind: the steps of each one in terms of the maps,
  the memory and the result of the probed function, and the counters after a sequence of events.
\<close>

section \<open>Maps\<close>

lemma trace_maps [simp]:
  "bm_key_size my_map = 4" "bm_value_size my_map = 4" "is_array my_map" "bm_max_entries my_map = 1"
  "bm_key_size my_char_map = 4" "bm_value_size my_char_map = 1" "is_array my_char_map"
  "bm_max_entries my_char_map = 1"
  "my_map \<noteq> my_char_map" "my_char_map \<noteq> my_map" "my_map \<noteq> my_read_map" "my_read_map \<noteq> my_map"
  "my_read_map \<noteq> my_char_map" "my_char_map \<noteq> my_read_map"
  by (simp_all add: my_map_def my_char_map_def my_read_map_def is_array_def)

lemma counter_map_simps [simp]:
  "bm_key_size counter_map = 4" "bm_value_size counter_map = 8" "is_array counter_map"
  "bm_max_entries counter_map = 1" "is_counters counter_map"
  "counter_map \<noteq> my_read_map" "my_read_map \<noteq> counter_map"
  by (simp_all add: counter_map_def my_read_map_def is_array_def is_counters_def)

lemma sock_map_simps [simp]: "is_counters sock_my_map" "bm_max_entries sock_my_map = 256"
  "is_array sock_my_map"
  by (simp_all add: sock_my_map_def is_array_def is_counters_def)

lemma dnat_map_simps [simp]: "bm_key_size dnat_map = 16" "bm_value_size dnat_map = 16"
  by (simp_all add: dnat_map_def)

lemma le_bytes_0: "le_bytes n 0 = replicate n 0"
  by (induction n) simp_all

lemma long_key0_key0 [simp]: "take 4 long_key0 = key0"
  by (simp add: long_key0_def key0_def word_bytes_def le_bytes_0)

lemma key0_word: "key0 = word_bytes (0 :: u32)"
  by (rule key0_def)

lemma elem0: "maps_ok_view v \<Longrightarrow> is_array m \<Longrightarrow> bm_key_size m = 4 \<Longrightarrow> bm_max_entries m = 1 \<Longrightarrow>
  \<exists>bs. v_map v m key0 = Some bs"
  using key0_simps by (auto simp: maps_ok_view_def)

text \<open>The process that a traced read belongs to.\<close>

definition current_tgid :: "kview \<Rightarrow> u32" where
  "current_tgid v = word_of_nat (unat (drop_bit 32 (v_pid v)))"

lemma current_tgid_log_line [simp]: "current_tgid (log_line fmt args v) = current_tgid v"
  by (simp add: current_tgid_def)

lemma unat_ucast_u8: "unat (ucast (b :: u8) :: u32) = unat b"
proof -
  have "unat b < 2 ^ 32"
    by (rule less_trans [OF unat_u8_lt]) simp
  then show ?thesis
    by (simp add: unsigned_ucast_eq take_bit_nat_eq_self)
qed

lemma ucast_u8_inject: "(ucast (a :: u8) :: u32) = ucast b \<longleftrightarrow> a = b"
  by transfer simp

context map_helpers
begin

lemma vruns_load [kwp]:
  assumes "v_map v m key \<noteq> None" and "Q (the (v_map v m key)) v"
  shows "vruns view (k_load K (m, key)) v Q"
  using assms by (auto intro: vruns_mono [OF load_doc])

end

section \<open>Sequences of events\<close>

primrec copies :: "'s kapi \<Rightarrow> pt_regs list \<Rightarrow> ('s, int) state" where
  "copies K [] = State_Monad.return 0"
| "copies K (ctx # ctxs) = do { override_exec_bpf_copyout K ctx; copies K ctxs }"

primrec packets :: "'s kapi \<Rightarrow> sk_buff list \<Rightarrow> ('s, int) state" where
  "packets K [] = State_Monad.return 0"
| "packets K (skb # skbs) = do { sock_bpf_prog1 K skb; packets K skbs }"

definition counted :: "u8 \<Rightarrow> sk_buff \<Rightarrow> bool" where
  "counted p skb = (load_byte skb (ETH_HLEN + iphdr_protocol) = Some p \<and> pkt_type skb = PACKET_OUTGOING)"

datatype open_event = Enter_open | Enter_openat | Exit_open | Exit_openat

primrec open_prog :: "'s kapi \<Rightarrow> open_event \<Rightarrow> ('s, int) state" where
  "open_prog K Enter_open = trace_enter_open K"
| "open_prog K Enter_openat = trace_enter_open_at K"
| "open_prog K Exit_open = trace_enter_exit K"
| "open_prog K Exit_openat = trace_enter_exit_at K"

primrec opens :: "'s kapi \<Rightarrow> open_event list \<Rightarrow> ('s, int) state" where
  "opens K [] = State_Monad.return 0"
| "opens K (e # es) = do { open_prog K e; opens K es }"

definition is_enter :: "open_event \<Rightarrow> bool" where
  "is_enter e = (e = Enter_open \<or> e = Enter_openat)"

lemma is_enter_simps [simp]:
  "is_enter Enter_open" "is_enter Enter_openat" "\<not> is_enter Exit_open" "\<not> is_enter Exit_openat"
  by (simp_all add: is_enter_def)

definition open_value :: "kview \<Rightarrow> bpf_map_def \<Rightarrow> u32" where
  "open_value v m = bytes_word (take 4 (the (v_map v m key0)))"

text \<open>The programs that only observe.\<close>

definition observers ::
  "'s kapi \<Rightarrow> u8 list \<Rightarrow> skb_layout \<Rightarrow> pt_regs \<Rightarrow> sys_enter_read_args \<Rightarrow> ('s, int) state list" where
  "observers K chars layout ctx rctx =
     [mmap_bpf_prog1 K, mmap_bpf_prog2 K, mmap_bpf_prog9 K, mmap_bpf_prog3 K, mmap_bpf_prog4 K,
      mmap_bpf_prog5 K, mmap_bpf_prog6 K, mmap_bpf_prog7 K chars ctx, mmap_bpf_prog12 K chars ctx,
      mmap_bpf_prog11 K ctx, giulia_bpf_prog1 K, giulia_bpf_prog2 K, giulia_bpf_prog3 K,
      giulia_bpf_prog4 K, giulia_bpf_prog5 K chars ctx, giulia_bpf_prog6 K, strtol_bpf_prog7 K,
      tracex1_bpf_prog1 K layout chars ctx, tracex1_bpf_prog6 K, hellotrace_bpf_prog1 K,
      task_fd_query_bpf_prog1 K, task_fd_query_bpf_prog2 K, buffermap_attach_read K rctx]"

section \<open>Following a read\<close>

context kernel_doc
begin

lemma buffermap_entry_logs:
  "vruns view (buffermap_attach_read K ctx) v (\<lambda>r v'. r = 0 \<and> only_logs v v')"
  unfolding buffermap_attach_read_def by (intro kwp) simp_all

lemma buffermap_exit_other:
  assumes "v_map v my_map key0 = Some (word_bytes pid)" and "pid \<noteq> current_tgid v"
  shows "vruns view (buffermap_attach_exit_read K single_char ctx) v (\<lambda>r v'. r = 0 \<and> only_logs v v')"
  unfolding buffermap_attach_exit_read_def
  by (intro kwp) (use assms in \<open>simp_all add: current_tgid_def\<close>)

lemma buffermap_exit_traced:
  assumes "v_map v my_map key0 = Some (word_bytes (current_tgid v))"
    and "v_map v my_read_map key0 = Some (word_bytes buf)"
    and "mem_bytes v buf 1 = Some [b]" and "length single_char = 1"
  shows "vruns view (buffermap_attach_exit_read K single_char ctx) v
    (\<lambda>r v'. r = 0 \<and> v_map v' = v_map (put_elem my_char_map key0 [b] v) \<and> v_mem v' = v_mem v \<and>
       v_ret v' = v_ret v)"
proof (rule vruns_legal)
  assume "maps_ok_view v"
  then have char: "\<exists>bs. v_map v my_char_map key0 = Some bs"
    by (intro elem0) simp_all
  show ?thesis
    unfolding buffermap_attach_exit_read_def
    by (intro kwp) (use assms char in \<open>auto simp: current_tgid_def\<close>)
qed

text \<open>
  The descriptor of a read decides whether its buffer is noted; the exit then takes the first
  byte of the note.
\<close>

lemma readbuff_pair:
  assumes "v_map v my_map key0 = Some (word_bytes fd)" and "arg32 fd = er_fd ctx"
  shows "vruns view (do { readbuff_attach_read K ctx; readbuff_attach_exit_read K xctx }) v
    (\<lambda>r v'. v_map v' my_read_map key0 = Some (word_bytes (er_buf ctx)) \<and>
       v_map v' my_char_map key0 = Some [hd (word_bytes (er_buf ctx))] \<and> v_mem v' = v_mem v)"
proof (rule vruns_legal)
  assume "maps_ok_view v"
  then have "\<exists>bs. v_map v my_read_map key0 = Some bs" "\<exists>bs. v_map v my_char_map key0 = Some bs"
    by (auto intro!: elem0)
  then show ?thesis
    unfolding readbuff_attach_read_def readbuff_attach_exit_read_def
    by (intro kwp) (use assms in auto)
qed

lemma readbuff_other:
  assumes "v_map v my_map key0 = Some (word_bytes fd)" and "arg32 fd \<noteq> er_fd ctx"
  shows "vruns view (readbuff_attach_read K ctx) v (\<lambda>r v'. r = 0 \<and> only_logs v v')"
  unfolding readbuff_attach_read_def by (intro kwp) (use assms in simp_all)

section \<open>Replacing a copy\<close>

lemma override_step:
  "vruns view (override_exec_bpf_copyout K ctx) v
    (\<lambda>r v'. r = 0 \<and>
       (if registered v (PT_REGS_PARM1 ctx)
        then v_map v' = v_map (set_slot counter_map 0 (slot v counter_map 0 + 1) v) \<and> v_ret v' = Some 0 \<and>
          (writable v (PT_REGS_PARM1 ctx) 4 \<longrightarrow>
             v_mem v' = mem_put (v_mem v) (PT_REGS_PARM1 ctx) answer_nl)
        else v' = v))"
proof (rule vruns_legal)
  assume legal: "maps_ok_view v"
  then have bs: "\<exists>bs. v_map v counter_map key0 = Some bs"
    by (intro elem0) simp_all
  have present: "\<exists>bs. v_map v my_read_map key0 = Some bs"
    using legal by (intro elem0) simp_all
  show ?thesis
  proof (cases "registered v (PT_REGS_PARM1 ctx)")
    case True
    then show ?thesis
      unfolding override_exec_bpf_copyout_def
      by (intro kwp) (use bs in \<open>auto simp: registered_def set_slot_def slot_def key0_word\<close>)
  next
    case False
    then show ?thesis
      unfolding override_exec_bpf_copyout_def
      by (intro kwp) (use present legal in \<open>auto dest: unregistered_word\<close>)
  qed
qed

text \<open>A sequence of copies.\<close>

lemma override_counts:
  assumes "registered v to"
  shows "vruns view (copies K ctxs) v
    (\<lambda>r v'. slot v' counter_map 0 =
       slot v counter_map 0 + word_of_nat (length (filter (\<lambda>ctx. PT_REGS_PARM1 ctx = to) ctxs)) \<and>
       registered v' to)"
  using assms
proof (induction ctxs arbitrary: v)
  case (Cons ctx ctxs)
  have unique: "registered v a \<longleftrightarrow> a = to" for a
    using Cons.prems by (auto simp: registered_def)
  have "vruns view (copies K ctxs) v'
    (\<lambda>r v''. slot v'' counter_map 0 =
       slot v counter_map 0 + word_of_nat (length (filter (\<lambda>ctx. PT_REGS_PARM1 ctx = to) (ctx # ctxs))) \<and>
       registered v'' to)"
    if step: "if PT_REGS_PARM1 ctx = to
       then v_map v' = v_map (set_slot counter_map 0 (slot v counter_map 0 + 1) v) else v' = v" for v'
  proof -
    have reg: "registered v' to"
      using step Cons.prems by (auto simp: registered_def set_slot_def split: if_splits)
    have count: "slot v' counter_map 0 =
        slot v counter_map 0 + (if PT_REGS_PARM1 ctx = to then 1 else 0)"
      using step slot_set_slot [of counter_map 0 _ v counter_map 0]
      by (auto simp: slot_def split: if_splits)
    show ?thesis
      by (rule vruns_mono [OF Cons.IH [OF reg]]) (simp add: count)
  qed
  then show ?case
    by (auto simp: unique intro!: vruns_bind vruns_mono [OF override_step] split: if_splits)
qed (simp add: vruns_return)

section \<open>Counting packets\<close>

lemma sock_step:
  "vruns view (sock_bpf_prog1 K skb) v
    (\<lambda>r v'. r = 0 \<and> (\<forall>p :: u8. slot v' sock_my_map (ucast p) =
       slot v sock_my_map (ucast p) + (if counted p skb then 1 else 0)))"
proof (cases "load_byte skb (ETH_HLEN + iphdr_protocol)")
  case None
  then show ?thesis
    unfolding sock_bpf_prog1_def None option.case counted_def by (intro vruns_return) simp
next
  case (Some b)
  have "(ucast b :: u32) < 256"
    using unat_u8_lt [of b] by (simp add: word_less_nat_alt unat_ucast_u8)
  moreover have "word_of_nat (unat b) = (ucast b :: u32)"
    by simp
  ultimately show ?thesis
    unfolding sock_bpf_prog1_def Some option.case
    by (intro vruns_let vruns_bind vruns_if vruns_return vruns_update_array_noexist vruns_lookup_slot
        vruns_case_Some vruns_case_None vruns_add_slot)
      (simp_all add: counted_def Some [simplified] ucast_u8_inject)
qed

lemma sock_counts:
  "vruns view (packets K skbs) v
    (\<lambda>r v'. \<forall>p :: u8. slot v' sock_my_map (ucast p) =
       slot v sock_my_map (ucast p) + word_of_nat (length (filter (counted p) skbs)))"
proof (induction skbs arbitrary: v)
  case (Cons skb skbs)
  show ?case
    by (auto intro!: vruns_bind vruns_mono [OF sock_step] vruns_mono [OF Cons.IH])
qed (simp add: vruns_return)

section \<open>Rewriting an address\<close>

lemma dnat_long:
  assumes "16 < int_arg (PT_REGS_PARM3 ctx)"
  shows "vruns view (kprobe_open_bpf_prog1 K ctx) v (\<lambda>r v'. r = 0 \<and> v' = v)"
  unfolding kprobe_open_bpf_prog1_def by (intro kwp) (use assms in simp_all)

lemma dnat_rewrites:
  assumes "int_arg (PT_REGS_PARM3 ctx) \<le> 16" and "mem_bytes v (PT_REGS_PARM2 ctx) 16 = Some addr"
    and "writable v (PT_REGS_PARM2 ctx) 16"
  shows "vruns view (kprobe_open_bpf_prog1 K ctx) v
    (\<lambda>r v'. r = 0 \<and> v_map v' = v_map v \<and>
       mem_bytes v' (PT_REGS_PARM2 ctx) 16 =
         Some (case v_map v dnat_map addr of Some new_addr \<Rightarrow> new_addr | None \<Rightarrow> addr) \<and>
       (v_map v dnat_map addr = None \<longrightarrow> v' = v))"
proof (rule vruns_legal)
  assume legal: "maps_ok_view v"
  have addr: "length addr = 16"
    using assms(2) by (rule length_mem_bytes)
  have size: "length new_addr = 16" if "v_map v dnat_map addr = Some new_addr" for new_addr
    using legal that by (auto simp: maps_ok_view_def)
  have put: "mem_bytes (v\<lparr>v_mem := mem_put (v_mem v) a bs\<rparr>) a 16 = Some bs" if "length bs = 16" for a bs
    using mem_bytes_put [of "v\<lparr>v_mem := mem_put (v_mem v) a bs\<rparr>" "v_mem v" a bs] that by simp
  show ?thesis
  proof (cases "v_map v dnat_map addr")
    case None
    then show ?thesis
      unfolding kprobe_open_bpf_prog1_def by (intro kwp) (use assms addr in simp_all)
  next
    case (Some new_addr)
    then show ?thesis
      unfolding kprobe_open_bpf_prog1_def
      by (intro kwp) (use assms addr size [OF Some] in \<open>simp_all add: put\<close>)
  qed
qed

section \<open>Counting system calls\<close>

lemma open_count_step:
  assumes "m \<in> {enter_open_map, exit_open_map}"
  shows "vruns view (open_count K m) v
    (\<lambda>_ v'. v' = put_elem m key0 (word_bytes (open_value v m + 1)) v)"
proof (rule vruns_legal)
  assume "maps_ok_view v"
  then have "\<exists>bs. v_map v m key0 = Some bs"
    using assms by (intro elem0) (auto simp: enter_open_map_def exit_open_map_def is_array_def)
  then show ?thesis
    using assms unfolding open_count_def
    by (intro kwp) (auto simp: enter_open_map_def exit_open_map_def open_value_def)
qed

lemma open_counts:
  "vruns view (opens K es) v
    (\<lambda>r v'. open_value v' enter_open_map =
         open_value v enter_open_map + word_of_nat (length (filter is_enter es)) \<and>
       open_value v' exit_open_map =
         open_value v exit_open_map + word_of_nat (length (filter (\<lambda>e. \<not> is_enter e) es)))"
proof (induction es arbitrary: v)
  case (Cons e es)
  have maps: "enter_open_map \<noteq> exit_open_map"
    by (simp add: enter_open_map_def exit_open_map_def)
  have "vruns view (open_prog K e) v
      (\<lambda>_ v'. v' = put_elem (if is_enter e then enter_open_map else exit_open_map) key0
         (word_bytes (open_value v (if is_enter e then enter_open_map else exit_open_map) + 1)) v)"
    by (cases e) (auto simp: trace_enter_open_def trace_enter_open_at_def trace_enter_exit_def
        trace_enter_exit_at_def intro!: vruns_bind vruns_return vruns_mono [OF open_count_step])
  then show ?case
    using maps
    by (auto simp: open_value_def intro!: vruns_bind vruns_mono [OF Cons.IH] elim!: vruns_mono)
qed (simp add: vruns_return)

section \<open>Observers\<close>

lemma trace_only_logs: "vruns view (trace_only K msg) v (\<lambda>r v'. only_logs v v')"
  unfolding trace_only_def by (intro kwp) simp

lemma mmap_prog7_logs: "vruns view (mmap_bpf_prog7 K userbuff ctx) v (\<lambda>r v'. only_logs v v')"
  unfolding mmap_bpf_prog7_def by (intro kwp) simp_all

lemma mmap_prog12_logs: "vruns view (mmap_bpf_prog12 K userbuff ctx) v (\<lambda>r v'. only_logs v v')"
  unfolding mmap_bpf_prog12_def by (intro kwp) simp_all

lemma mmap_prog11_logs: "vruns view (mmap_bpf_prog11 K ctx) v (\<lambda>r v'. only_logs v v')"
  unfolding mmap_bpf_prog11_def by (intro kwp) simp_all

lemma giulia_prog5_logs: "vruns view (giulia_bpf_prog5 K singlechars ctx) v (\<lambda>r v'. only_logs v v')"
  unfolding giulia_bpf_prog5_def by (intro kwp) simp_all

lemma strtol_logs: "vruns view (strtol_bpf_prog7 K) v (\<lambda>r v'. only_logs v v')"
  unfolding strtol_bpf_prog7_def by (intro kwp) simp_all

lemma tracex1_logs: "vruns view (tracex1_bpf_prog1 K layout devname ctx) v (\<lambda>r v'. only_logs v v')"
  unfolding tracex1_bpf_prog1_def by (intro kwp) simp_all

lemmas observer_logs = trace_only_logs mmap_prog7_logs mmap_prog12_logs mmap_prog11_logs
  giulia_prog5_logs strtol_logs tracex1_logs vruns_mono [OF buffermap_entry_logs]

lemma observers_log: "p \<in> set (observers K chars layout ctx rctx) \<Longrightarrow> vruns view p v (\<lambda>r v'. only_logs v v')"
  unfolding observers_def mmap_bpf_prog1_def mmap_bpf_prog2_def mmap_bpf_prog9_def mmap_bpf_prog3_def
    mmap_bpf_prog4_def mmap_bpf_prog5_def mmap_bpf_prog6_def giulia_bpf_prog1_def giulia_bpf_prog2_def
    giulia_bpf_prog3_def giulia_bpf_prog4_def giulia_bpf_prog6_def tracex1_bpf_prog6_def
    hellotrace_bpf_prog1_def task_fd_query_bpf_prog1_def task_fd_query_bpf_prog2_def
  by (auto intro: observer_logs vruns_return)

end

end
