(* ===== verification/Trace_User.thy ===== *)
theory Trace_User
  imports User_Lib Trace_Progs
begin

text \<open>
  The user side of the tracing programs: what each \<open>main\<close> asks of the system, in order, and what
  it prints.  Calls whose result is not used afterwards are part of the sequence; storage that is
  freed is not tracked.
\<close>

section \<open>Printing and lookups\<close>

fun hex_nat :: "nat \<Rightarrow> string" where
  "hex_nat n = (if n < 16 then [''0123456789abcdef'' ! n]
                else hex_nat (n div 16) @ [''0123456789abcdef'' ! (n mod 16)])"

declare hex_nat.simps [simp del]

definition fmt_p :: "u64 \<Rightarrow> string" where
  "fmt_p w = (if w = 0 then ''(nil)'' else ''0x'' @ hex_nat (unat w))"

text \<open>\<open>%x\<close> of a \<open>char\<close>, which is converted to \<open>int\<close> with its sign.\<close>

definition fmt_x_char :: "u8 \<Rightarrow> string" where
  "fmt_x_char b = hex_nat (unat (word_of_int (sint b) :: u32))"

text \<open>
  A lookup into a local variable of \<open>n\<close> bytes: the kernel stores as many bytes as the map declares,
  and a variable that it does not store to stays uninitialised.
\<close>

definition lookup_var :: "nat \<Rightarrow> int \<Rightarrow> u8 list \<Rightarrow> u8 list res" where
  "lookup_var n ret val =
     (if ret \<noteq> 0 then Inl Uninit_read
      else if n < length val then Inl Buffer_overflow else Inr val)"

definition first_byte :: "u8 list \<Rightarrow> u8 res" where
  "first_byte bs = (case bs of [] \<Rightarrow> Inl Uninit_read | b # _ \<Rightarrow> Inr b)"

text \<open>
  The start of the programs that take the name of a file; the messages about a failure go to
  standard error.
\<close>

definition with_file ::
  "nat \<Rightarrow> libelf \<Rightarrow> env \<Rightarrow> string list \<Rightarrow> string \<Rightarrow> (int \<Rightarrow> uprog) \<Rightarrow> uprog" where
  "with_file fuel lib env argv name k =
     uputs env (nl ''welcome'') (
     case argv of
       [argv0, file] \<Rightarrow>
         uputs env (nl (''loading bpf extension '' @ object_name argv0)) (
         uload fuel lib env (object_name argv0) (\<lambda>ret.
         if ret \<noteq> 0 then ureturn 1
         else
           uputs env (nl ''loaded bpf kernel module'') (
           ucall env (Open file [O_RDONLY]) (\<lambda>r. let val = r_ret r in
           if val = - 1 then ureturn 1
           else uputs env (nl (''file descriptor user: '' @ dec val)) (k val)))))
     | _ \<Rightarrow> uputs env (nl (''Usage: ./'' @ name @ '' <filename> '')) (ureturn 1))"

section \<open>Following a read\<close>

definition buffermap_main :: "nat \<Rightarrow> libelf \<Rightarrow> env \<Rightarrow> string list \<Rightarrow> uprog" where
  "buffermap_main fuel lib env argv =
     with_file fuel lib env argv ''buffermap'' (\<lambda>val.
     ucall env (Libc ''getpid'' []) (\<lambda>r. let pid = r_ret r in
     uputs env (nl (''process pid '' @ dec pid)) (
     uupdate env 0 key0 (word_bytes (word_of_int pid :: u32)) (\<lambda>ret.
     if ret \<noteq> 0 then ureturn 1
     else
       ucall env (Malloc 10) (\<lambda>r. let buf = r_ret r in
       uputs env (nl (''buffer on user side = '' @ dec buf)) (
       uupdate env 1 key0 (word_bytes (word_of_int buf :: u64)) (\<lambda>ret.
       if ret \<noteq> 0 then ureturn 1
       else
         ucall env (Read_buf val buf 1) (\<lambda>_.
         ulookup env 2 key0 (\<lambda>ret val.
         urun (lookup_var 1 ret val) (\<lambda>charval.
         uputs env (nl (''read map value '' @ [char_of (unat (hd charval))])) (ureturn 0)))))))))))"

definition readbuff_main :: "nat \<Rightarrow> libelf \<Rightarrow> env \<Rightarrow> string list \<Rightarrow> uprog" where
  "readbuff_main fuel lib env argv =
     with_file fuel lib env argv ''passfd'' (\<lambda>val.
     uupdate env 0 key0 (word_bytes (word_of_int val :: u32)) (\<lambda>ret.
     if ret \<noteq> 0 then ureturn 1
     else
       ucall env (Malloc 10) (\<lambda>r. let buf = r_ret r in
       ucall env (Read_buf val buf 1) (\<lambda>rd.
       urun (first_byte (r_data rd)) (\<lambda>c.
       uputs env (nl (''buffer on user side = '' @ fmt_p (word_of_int buf) @ '', file value '' @
                      fmt_x_char c)) (
       ulookup env 1 key0 (\<lambda>ret1 val1.
       ulookup env 2 key0 (\<lambda>ret2 val2.
       urun (lookup_var 8 ret1 val1) (\<lambda>buffaddr.
       urun (lookup_var 1 ret2 val2) (\<lambda>charval.
       uputs env (nl (''read buffer from map: '' @ fmt_p (bytes_word buffaddr) @ '', map value '' @
                      fmt_x_char (hd charval))) (ureturn 0)))))))))))"

definition passfd_main :: "nat \<Rightarrow> libelf \<Rightarrow> env \<Rightarrow> string list \<Rightarrow> uprog" where
  "passfd_main fuel lib env argv =
     with_file fuel lib env argv ''passfd'' (\<lambda>val.
     uupdate env 0 key0 (word_bytes (word_of_int val :: u32)) (\<lambda>ret.
     if ret \<noteq> 0 then ureturn 1
     else
       ucall env (Malloc 10) (\<lambda>r. let buf = r_ret r in
       ucall env (Read_buf val buf 1) (\<lambda>_.
       ulookup env 1 key0 (\<lambda>ret val1.
       urun (lookup_var 4 ret val1) (\<lambda>value1.
       uputs env (nl (''file descriptor map: '' @ dec (sint (bytes_word value1 :: u32)))) (ureturn 0)))))))"

section \<open>Loading and watching\<close>

definition load_announced :: "nat \<Rightarrow> libelf \<Rightarrow> env \<Rightarrow> string \<Rightarrow> uprog \<Rightarrow> uprog" where
  "load_announced fuel lib env argv0 k =
     uputs env (nl (''eBPF file to be loaded is : '' @ object_name argv0 @ '' '')) (
     load_or_log fuel lib env argv0 k)"

definition trace_pipe_text :: string where
  "trace_pipe_text = nl ''loaded module OK.'' @
     nl ''Check the trace pipe to see the output : sudo cat /sys/kernel/debug/tracing/trace_pipe ''"

definition hellotrace_main :: "nat \<Rightarrow> libelf \<Rightarrow> env \<Rightarrow> string \<Rightarrow> uprog" where
  "hellotrace_main fuel lib env argv0 =
     load_announced fuel lib env argv0 (uputs env trace_pipe_text (ureturn 0))"

definition kprobe_open_main :: "nat \<Rightarrow> libelf \<Rightarrow> env \<Rightarrow> string \<Rightarrow> uprog" where
  "kprobe_open_main fuel lib env argv0 =
     uputs env (nl (''File to be loaded is : '' @ object_name argv0 @ '' '')) (
     load_or_log fuel lib env argv0 (
     uputs env (nl ''loaded module'') (
     ucall env (Libc ''sleep'' [1000]) (\<lambda>_. ureturn 0))))"

text \<open>The mapping is checked against a null pointer; \<open>mmap\<close> reports a failure by \<open>-1\<close>.\<close>

definition mmap_main :: "nat \<Rightarrow> libelf \<Rightarrow> env \<Rightarrow> string \<Rightarrow> uprog" where
  "mmap_main fuel lib env argv0 =
     load_announced fuel lib env argv0 (
     ucall env (Open ''f'' [O_RDONLY]) (\<lambda>r. let fd = r_ret r in
     if fd = - 1 then uputs env (nl ''error open file'') (ureturn 1)
     else
       ucall env (Libc ''mmap'' [0, 4095, 3, 2, fd, 0]) (\<lambda>mm. let buf = r_ret mm in
       if buf = 0 then ureturn 1
       else
         uputs env (nl (''buffer on user side = '' @ dec_nat (unat (word_of_int buf :: u64)))) (
         uupdate env 0 key0 (word_bytes (word_of_int buf :: u64)) (\<lambda>ret.
         if ret \<noteq> 0 then ureturn 1
         else
           urun (if buf = - 1 then Inl Out_of_bounds else buffer_string (r_data mm)) (\<lambda>text.
           uputs env (nl (''buffer content '' @ text)) (
           ucall env (Close fd) (\<lambda>_.
           uputs env trace_pipe_text (ureturn 0)))))))))"

text \<open>
  The value given to the map is the array itself, not its address; \<open>buf\<close> is where it lies.
\<close>

definition proberead_main :: "nat \<Rightarrow> libelf \<Rightarrow> env \<Rightarrow> u64 \<Rightarrow> string \<Rightarrow> uprog" where
  "proberead_main fuel lib env buf argv0 =
     load_announced fuel lib env argv0 (
     ucall env (Open ''w'' [O_WRONLY, O_CREAT, O_TRUNC]) (\<lambda>r. let fd = r_ret r in
     if fd = - 1 then uputs env (nl ''error open file'') (ureturn 1)
     else
       uputs env (nl (''buffer on user side = '' @ dec_nat (unat buf))) (
       uupdate env 0 key0 (bytes_of_string ''abcd'' @ [0]) (\<lambda>ret.
       if ret \<noteq> 0 then ureturn 1
       else
         ucall env (Write fd ''abcd'') (\<lambda>r.
         uputs env (nl (''return value of write is '' @ dec (r_ret r))) (
         ucall env (Close fd) (\<lambda>_.
         uputs env trace_pipe_text (ureturn 0))))))))"

definition strtol_main :: "nat \<Rightarrow> libelf \<Rightarrow> env \<Rightarrow> string \<Rightarrow> uprog" where
  "strtol_main fuel lib env argv0 =
     load_announced fuel lib env argv0 (
     ucall env (Open ''f'' [O_RDONLY]) (\<lambda>r. let fd = r_ret r in
     if fd = - 1 then uputs env (nl ''error open file'') (ureturn 1)
     else
       ucall env (Malloc 50) (\<lambda>r. let buf = r_ret r in
       ucall env (Read_buf fd buf 9) (\<lambda>rd.
       uputs env (nl (''retval = '' @ dec (to_int32 (r_ret rd)))) (
       ucall env (Close fd) (\<lambda>_.
       uputs env trace_pipe_text (ureturn 0)))))))"

text \<open>The trace is printed for ever; \<open>rounds\<close> is how much of it is looked at.\<close>

definition tracex1_main :: "nat \<Rightarrow> libelf \<Rightarrow> env \<Rightarrow> nat \<Rightarrow> string \<Rightarrow> uprog" where
  "tracex1_main fuel lib env rounds argv0 =
     load_or_log fuel lib env argv0 (
     ucall env (Libc ''popen taskset 1 ping -c5 localhost'' []) (\<lambda>_ L.
     ureturn 0 (read_trace_pipe rounds env L)))"

section \<open>Measuring how often a copy is replaced\<close>

text \<open>The sizes that the outer loop reads: doubled until they exceed the limit.\<close>

abbreviation READ_SIZE :: nat where "READ_SIZE \<equiv> 4095"
abbreviation MAX_READ :: nat where "MAX_READ \<equiv> 4096"
abbreviation ITERATIONS :: nat where "ITERATIONS \<equiv> 10000"

function read_sizes :: "nat \<Rightarrow> nat list" where
  "read_sizes readsize =
     (if 0 < readsize \<and> readsize \<le> MAX_READ then readsize # read_sizes (readsize * 2) else [])"
  by pat_completeness auto
termination
  by (relation "measure (\<lambda>n. MAX_READ + 1 - n)") auto

declare read_sizes.simps [simp del]

text \<open>The buffer is cleared before the read; the three counts are override, partial and exec.\<close>

definition buffer_after :: "nat \<Rightarrow> u8 list \<Rightarrow> u8 list" where
  "buffer_after n bs = bs @ replicate (n - length bs) 0"

definition classify :: "u8 list \<Rightarrow> nat \<times> nat \<times> nat \<Rightarrow> nat \<times> nat \<times> nat" where
  "classify buf = (\<lambda>(override, partial, exec).
     if strncmp_eq (string_of_bytes buf) ''42'' 2 then
       if string_of_bytes (drop 2 buf) = ''a'' then (override, partial + 1, exec)
       else (override + 1, partial, exec)
     else (override, partial, exec + 1))"

primrec read_often ::
  "env \<Rightarrow> nat \<Rightarrow> int \<Rightarrow> nat \<Rightarrow> nat \<times> nat \<times> nat \<Rightarrow> (nat \<times> nat \<times> nat \<Rightarrow> uprog) \<Rightarrow> uprog" where
  "read_often env 0 buf readsize counts k = k counts"
| "read_often env (Suc n) buf readsize counts k =
     ucall env (Open ''file'' [O_RDONLY]) (\<lambda>r. let fd = r_ret r in
     if fd = - 1 then uputs env (nl ''error open file 2'') (ureturn 1)
     else
       ucall env (Read_buf fd buf readsize) (\<lambda>rd.
       let counts = classify (buffer_after (readsize + 1) (r_data rd)) counts in
       ucall env (Close fd) (\<lambda>_. read_often env n buf readsize counts k)))"

definition rule_line :: string where
  "rule_line = replicate 57 CHR ''-''"

definition known_report :: "nat \<Rightarrow> nat \<times> nat \<times> nat \<Rightarrow> string" where
  "known_report readsize = (\<lambda>(override, partial, exec).
     nl rule_line @ nl (''known size : '' @ dec_nat readsize) @ nl (''success: '' @ dec_nat override) @
     nl (''partial: '' @ dec_nat partial) @ nl (''fail: '' @ dec_nat exec) @ nl rule_line)"

primrec override_sizes :: "env \<Rightarrow> nat list \<Rightarrow> uprog \<Rightarrow> uprog" where
  "override_sizes env [] k = k"
| "override_sizes env (readsize # sizes) k =
     ucall env (Malloc (readsize + 1)) (\<lambda>r. let buf = r_ret r in
     uputs env (nl (''buffer on user side = '' @ dec_nat (unat (word_of_int buf :: u64)))) (
     uupdate env 0 key0 (word_bytes (word_of_int buf :: u64)) (\<lambda>ret.
     if ret \<noteq> 0 then ureturn 1
     else
       read_often env ITERATIONS buf readsize (0, 0, 0) (\<lambda>counts.
       uputs env (known_report readsize counts) (override_sizes env sizes k)))))"

text \<open>The first of the two experiments is switched off by the constant \<open>EXEC_1\<close>.\<close>

definition override_exec_main :: "nat \<Rightarrow> libelf \<Rightarrow> env \<Rightarrow> string \<Rightarrow> uprog" where
  "override_exec_main fuel lib env argv0 =
     load_or_log fuel lib env argv0 (
     uupdate env 1 key0 (word_bytes (0 :: u64)) (\<lambda>ret.
     if ret \<noteq> 0 then ureturn 1
     else
       override_sizes env (read_sizes READ_SIZE) (
       ulookup env 1 key0 (\<lambda>ret val.
       urun (lookup_var 8 ret val) (\<lambda>count.
       uputs env (nl (''kprobe executed '' @ dec_nat (unat (bytes_word count :: u64)) @ '' times'')) (
       ureturn 0))))))"

definition classify_procfs :: "u8 list \<Rightarrow> nat \<times> nat \<Rightarrow> nat \<times> nat" where
  "classify_procfs buf = (\<lambda>(override, exec).
     if strncmp_eq (string_of_bytes buf) ''42'' 2 then (override + 1, exec) else (override, exec + 1))"

primrec procfs_often ::
  "env \<Rightarrow> nat \<Rightarrow> int \<Rightarrow> nat \<Rightarrow> nat \<times> nat \<Rightarrow> (nat \<times> nat \<Rightarrow> uprog) \<Rightarrow> uprog" where
  "procfs_often env 0 buf readsize counts k = k counts"
| "procfs_often env (Suc n) buf readsize counts k =
     ucall env (Open ''/proc/helloworld'' [O_RDONLY]) (\<lambda>r. let fd = r_ret r in
     if fd = - 1 then uputs env (nl ''error open file 2'') (ureturn 1)
     else
       ucall env (Read_buf fd buf readsize) (\<lambda>rd.
       let counts = classify_procfs (buffer_after (readsize + 1) (r_data rd)) counts in
       ucall env (Close fd) (\<lambda>_. procfs_often env n buf readsize counts k)))"

definition procfs_report :: "nat \<Rightarrow> nat \<times> nat \<Rightarrow> string" where
  "procfs_report readsize = (\<lambda>(override, exec).
     nl rule_line @ nl (''known size : '' @ dec_nat readsize) @ nl (''success: '' @ dec_nat override) @
     nl (''fail: '' @ dec_nat exec) @ nl rule_line)"

primrec procfs_sizes :: "env \<Rightarrow> nat list \<Rightarrow> uprog \<Rightarrow> uprog" where
  "procfs_sizes env [] k = k"
| "procfs_sizes env (readsize # sizes) k =
     ucall env (Malloc (readsize + 1)) (\<lambda>r. let buf = r_ret r in
     procfs_often env ITERATIONS buf readsize (0, 0) (\<lambda>counts.
     uputs env (procfs_report readsize counts) (procfs_sizes env sizes k)))"

definition procfs_override_main :: "nat \<Rightarrow> libelf \<Rightarrow> env \<Rightarrow> string \<Rightarrow> uprog" where
  "procfs_override_main fuel lib env argv0 =
     load_or_log fuel lib env argv0 (procfs_sizes env (read_sizes READ_SIZE) (ureturn 0))"

section \<open>Checking the counts of system calls\<close>

text \<open>Each descriptor is looked up, and reset when its count is not zero; failures are only reported.\<close>

definition verify_map :: "env \<Rightarrow> int \<Rightarrow> uprog \<Rightarrow> uprog" where
  "verify_map env map_id k L =
     (let (ret, val, h) = bpf_map_lookup_elem env map_id key0 (calls L); L = L\<lparr>calls := h\<rparr> in
      if ret \<noteq> 0 then k L
      else bind_res (lookup_var 4 ret val) (\<lambda>val.
        if (bytes_word val :: u32) = 0 then k L
        else
          let (ret, h) = bpf_map_update_elem env map_id key0 (word_bytes (0 :: u32)) BPF_ANY (calls L)
          in k (L\<lparr>calls := h\<rparr>)))"

primrec verify_maps :: "env \<Rightarrow> (int \<times> int) list \<Rightarrow> uprog \<Rightarrow> uprog" where
  "verify_maps env [] k = k"
| "verify_maps env (fds # fdss) k = verify_map env (fst fds) (verify_map env (snd fds) (verify_maps env fdss k))"

primrec load_progs_often ::
  "nat \<Rightarrow> libelf \<Rightarrow> env \<Rightarrow> string \<Rightarrow> nat list \<Rightarrow> (int \<times> int) list \<Rightarrow> ((int \<times> int) list \<Rightarrow> uprog) \<Rightarrow> uprog" where
  "load_progs_often fuel lib env filename [] fds k = k fds"
| "load_progs_often fuel lib env filename (i # is) fds k =
     uload fuel lib env filename (\<lambda>ret.
     if ret \<noteq> 0 then ureturn 1
     else (\<lambda>L.
       bind_res (nth_res (map_fd L) 0) (\<lambda>fd0.
       bind_res (nth_res (map_fd L) 1) (\<lambda>fd1.
       uputs env (nl (''prog #'' @ dec_nat i @ '': map ids '' @ dec fd0 @ '' '' @ dec fd1)) (
       load_progs_often fuel lib env filename is (fds @ [(fd0, fd1)]) k) L))))"

text \<open>An array of a size that is not positive is undefined.\<close>

definition open_tp_test :: "nat \<Rightarrow> libelf \<Rightarrow> env \<Rightarrow> string \<Rightarrow> int \<Rightarrow> uprog" where
  "open_tp_test fuel lib env filename num_progs =
     (if num_progs \<le> 0 then ufail Out_of_bounds
      else
        load_progs_often fuel lib env filename [0..<nat num_progs] [] (\<lambda>fds.
        ucall env (Open filename [O_RDONLY]) (\<lambda>r. let fd = r_ret r in
        if fd < 0 then ureturn 1
        else
          ucall env (Close fd) (\<lambda>_.
          verify_maps env fds (ureturn 0)))))"

definition open_tp_usage :: "env \<Rightarrow> string \<Rightarrow> uprog \<Rightarrow> uprog" where
  "open_tp_usage env cmd k =
     uputs env (nl (''USAGE: '' @ cmd @ '' [-i num_progs] [-h]'')) (
     uputs env (nl ''       -i num_progs      # number of progs of the test'') (
     uputs env (nl ''       -h                # help'') k))"

text \<open>
  The options as \<open>getopt\<close> delivers them: \<open>-i\<close> with its argument, or anything else, which ends the
  program.
\<close>

datatype tp_opt = Opt_i string | Opt_other

fun tp_options :: "tp_opt list \<Rightarrow> int \<Rightarrow> int option" where
  "tp_options [] num_progs = Some num_progs"
| "tp_options (Opt_i optarg # opts) num_progs = tp_options opts (atoi optarg)"
| "tp_options (Opt_other # opts) num_progs = None"

definition open_tp_main :: "nat \<Rightarrow> libelf \<Rightarrow> env \<Rightarrow> string \<Rightarrow> tp_opt list \<Rightarrow> uprog" where
  "open_tp_main fuel lib env argv0 opts =
     (case tp_options opts 1 of
        None \<Rightarrow> open_tp_usage env argv0 (ureturn 0)
      | Some num_progs \<Rightarrow>
          ucall env (Libc ''setrlimit'' [8, - 1, - 1]) (\<lambda>_.
          open_tp_test fuel lib env (object_name argv0) num_progs))"

section \<open>Samples of the perf buffer\<close>

text \<open>
  The callback for a sample of 16 bytes, with the count of samples and the start time as state; the
  clock is read when the last one is counted.
\<close>

abbreviation MAX_CNT :: u64 where "MAX_CNT \<equiv> 100000"

definition time_get_ns :: "env \<Rightarrow> (u64 \<Rightarrow> uprog) \<Rightarrow> uprog" where
  "time_get_ns env k = ucall env (Libc ''clock_gettime'' [1]) (\<lambda>r.
     let tv_sec = bytes_word (take 8 (r_data r)); tv_nsec = bytes_word (take 8 (drop 8 (r_data r)))
     in k (tv_sec * 1000000000 + tv_nsec))"

definition print_bpf_output :: "env \<Rightarrow> u64 \<Rightarrow> u64 \<Rightarrow> u8 list \<Rightarrow> (u64 \<Rightarrow> uprog) \<Rightarrow> uprog" where
  "print_bpf_output env start_time cnt data k =
     (let pid = bytes_word (take 8 data) :: u64; cookie = bytes_word (take 8 (drop 8 data)) :: u64 in
      if cookie \<noteq> 0x12345678
      then uputs env (nl (''BUG pid '' @ hex_nat (unat pid) @ '' cookie '' @ hex_nat (unat cookie) @
                          '' sized '' @ dec_nat (length data))) (k cnt)
      else let cnt = cnt + 1 in
        if cnt = MAX_CNT
        then time_get_ns env (\<lambda>now.
             if now - start_time = 0 then ufail Div_by_zero
             else uputs env (nl (''recv '' @ dec (sint (MAX_CNT * 1000000000 div (now - start_time))) @
                                 '' events per sec'')) (k cnt))
        else k cnt)"

end
