(* ===== verification/Trace_Props.thy ===== *)
theory Trace_Props
  imports Trace_Facts Trace_User Reduce_Props
begin

text \<open>
  The properties of the tracing and filter programs: what follows a traced read, the counters
  after any sequence of copies and packets, the rewriting of addresses, and the
  exact trace of an observer.
\<close>

section \<open>Following a read\<close>

text \<open>
  C27.  A traced read delivers its first byte.  After the entry and the exit of a read by the
  process whose number is in the map, with the registered buffer holding the byte \<open>b\<close>, the map of
  characters holds \<open>b\<close>; memory and the result of the call are untouched.  The number of the
  process stays in its map, because an element of an array cannot be deleted.
\<close>

theorem buffermap_delivers:
  assumes "kernel_doc K view"
    and "v_map v my_map key0 = Some (word_bytes (current_tgid v))"
    and "v_map v my_read_map key0 = Some (word_bytes buf)"
    and "mem_bytes v buf 1 = Some [b]" and "length single_char = 1"
  shows "vruns view
    (do { buffermap_attach_read K ctx; buffermap_attach_exit_read K single_char xctx }) v
    (\<lambda>r v'. r = 0 \<and> v_map v' my_char_map key0 = Some [b] \<and>
       v_map v' my_map key0 = Some (word_bytes (current_tgid v)) \<and>
       v_mem v' = v_mem v \<and> v_ret v' = v_ret v)"
proof -
  have "vruns view (buffermap_attach_exit_read K single_char xctx) v'
      (\<lambda>r v''. r = 0 \<and> v_map v'' my_char_map key0 = Some [b] \<and>
         v_map v'' my_map key0 = Some (word_bytes (current_tgid v)) \<and>
         v_mem v'' = v_mem v \<and> v_ret v'' = v_ret v)"
    if logs: "only_logs v v'" for v'
  proof -
    obtain l where v': "v' = v\<lparr>v_log := v_log v @ l\<rparr>"
      using logs by (auto simp: only_logs_def)
    have "mem_bytes v' buf 1 = mem_bytes v buf 1" and "current_tgid v' = current_tgid v"
      unfolding v' mem_bytes_def current_tgid_def by simp_all
    then show ?thesis
      using assms(2-4) v'
      by (intro vruns_mono [OF kernel_doc.buffermap_exit_traced [OF assms(1) _ _ _ assms(5)]]) auto
  qed
  then show ?thesis
    by (intro vruns_bind vruns_mono [OF kernel_doc.buffermap_entry_logs [OF assms(1)]]) auto
qed

definition read_view :: kview where
  "read_view = start_view\<lparr>v_pid := 4294967296007,
     v_map := (\<lambda>_ _. None)(my_map := [key0 \<mapsto> word_bytes (1000 :: u32)],
       my_read_map := [key0 \<mapsto> word_bytes (65538 :: u64)]),
     v_mem := [65538 \<mapsto> 97]\<rparr>"

lemma read_view_maps:
  "v_map (ref_view read_view) my_map key0 = Some (word_bytes (1000 :: u32))"
  "v_map (ref_view read_view) my_read_map key0 = Some (word_bytes (65538 :: u64))"
  by (simp_all add: v_map_ref_view read_view_def elem_of_def elem_ok_def)

lemma read_view_state: "current_tgid (ref_view read_view) = 1000"
  "mem_bytes (ref_view read_view) 65538 1 = Some [97]"
  by (simp_all add: current_tgid_def ref_view_def read_view_def mem_bytes_def drop_bit_eq_div)

theorem buffermap_delivers_witness:
  "vruns ref_view
    (do { buffermap_attach_read ref_kernel \<lparr>er_unused = 0, er_syscall_nr = 0, er_fd = 3, er_buf = 65538, er_mode = 0\<rparr>;
          buffermap_attach_exit_read ref_kernel [0] \<lparr>xr_unused = 0, xr_syscall_nr = 0, xr_ret = 1\<rparr> })
    (ref_view read_view)
    (\<lambda>r v'. v_map v' my_char_map key0 = Some [97] \<and> v_map v' my_map key0 = Some (word_bytes (1000 :: u32)))"
  by (rule vruns_mono [OF buffermap_delivers [OF ref.kernel_doc_axioms _ read_view_maps(2) read_view_state(2)]])
    (simp_all add: read_view_maps read_view_state)

text \<open>
  C32.  The program that follows a read by its descriptor does not deliver what was read: after
  the entry and the exit, the map of characters holds the lowest byte of the address of the
  buffer, whatever the buffer contains.
\<close>

theorem readbuff_delivers_address:
  assumes "kernel_doc K view" and "v_map v my_map key0 = Some (word_bytes fd)" and "arg32 fd = er_fd ctx"
  shows "vruns view (do { readbuff_attach_read K ctx; readbuff_attach_exit_read K xctx }) v
    (\<lambda>r v'. v_map v' my_read_map key0 = Some (word_bytes (er_buf ctx)) \<and>
       v_map v' my_char_map key0 = Some [hd (word_bytes (er_buf ctx))] \<and> v_mem v' = v_mem v)"
  using assms by (rule kernel_doc.readbuff_pair)

lemma hd_word_bytes: "hd (word_bytes (w :: u64)) = word_of_nat (unat w mod 256)"
proof -
  have "hd (le_bytes n x) = word_of_nat (x mod 256)" if "0 < n" for n x
    using that by (cases n) simp_all
  then show ?thesis
    by (simp add: word_bytes_def)
qed

theorem readbuff_delivers_address_witness:
  "vruns ref_view
    (do { readbuff_attach_read ref_kernel \<lparr>er_unused = 0, er_syscall_nr = 0, er_fd = 1000, er_buf = 65538, er_mode = 0\<rparr>;
          readbuff_attach_exit_read ref_kernel \<lparr>xr_unused = 0, xr_syscall_nr = 0, xr_ret = 1\<rparr> })
    (ref_view read_view) (\<lambda>r v'. v_map v' my_char_map key0 = Some [2])"
  by (rule vruns_mono [OF readbuff_delivers_address [OF ref.kernel_doc_axioms read_view_maps(1)]])
    (simp_all add: arg32_def hd_word_bytes)

section \<open>Counters\<close>

text \<open>
  C28.  The counter of replaced copies is exact.  After any sequence of copies the counter has
  grown by the number of those that go to the registered buffer, which stays registered.
\<close>

theorem override_exec_counts:
  assumes "kernel_doc K view" and "registered v to"
  shows "vruns view (copies K ctxs) v
    (\<lambda>r v'. slot v' counter_map 0 =
       slot v counter_map 0 + word_of_nat (length (filter (\<lambda>ctx. PT_REGS_PARM1 ctx = to) ctxs)) \<and>
       registered v' to)"
  using assms by (rule kernel_doc.override_counts)

theorem override_exec_counts_witness:
  "vruns ref_view (copies ref_kernel [sample_regs, sample_regs\<lparr>PT_REGS_PARM1 := 5\<rparr>, sample_regs]) sample
    (\<lambda>r v'. slot v' counter_map 0 = slot sample counter_map 0 + 2)"
  by (rule vruns_mono [OF override_exec_counts [OF ref.kernel_doc_axioms sample_registered]]) simp

text \<open>
  C29.  Refinement.  The packet counter implements a table with one count for each of the 256
  protocol numbers: after any sequence of packets each count has grown by the number of outgoing
  packets that carry the protocol, long enough to have one.
\<close>

theorem sock_counts_packets:
  assumes "kernel_doc K view"
  shows "vruns view (packets K skbs) v
    (\<lambda>r v'. \<forall>p :: u8. slot v' sock_my_map (ucast p) =
       slot v sock_my_map (ucast p) + word_of_nat (length (filter (counted p) skbs)))"
  using assms by (rule kernel_doc.sock_counts)

definition tcp_packet :: sk_buff where
  "tcp_packet = \<lparr>sk_data = replicate 23 0 @ [6] @ replicate 10 0, pkt_type = PACKET_OUTGOING\<rparr>"

theorem sock_counts_packets_witness:
  "vruns ref_view (packets ref_kernel [tcp_packet, tcp_packet\<lparr>pkt_type := 0\<rparr>, tcp_packet]) sample
    (\<lambda>r v'. slot v' sock_my_map 6 = slot sample sock_my_map 6 + 2)"
proof (rule vruns_mono [OF sock_counts_packets [OF ref.kernel_doc_axioms]])
  fix r v'
  assume "\<forall>p :: u8. slot v' sock_my_map (ucast p) = slot sample sock_my_map (ucast p) +
    word_of_nat (length (filter (counted p) [tcp_packet, tcp_packet\<lparr>pkt_type := 0\<rparr>, tcp_packet]))"
  from spec [OF this, of 6] show "slot v' sock_my_map 6 = slot sample sock_my_map 6 + 2"
    by (simp add: counted_def load_byte_def tcp_packet_def nth_append)
qed

section \<open>Rewriting an address\<close>

text \<open>
  C30.  Address rewriting.  When the address that a process connects to can be read and written,
  and its length is not larger than the structure, the process afterwards connects to the address
  that the table gives, or to the same one when it is not in the table; in that case, and for a
  length that is too large or negative, nothing changes at all.  The table is never changed.
\<close>

theorem dnat_translates:
  assumes "kernel_doc K view" and "mem_bytes v (PT_REGS_PARM2 ctx) 16 = Some addr"
    and "writable v (PT_REGS_PARM2 ctx) 16"
  shows "vruns view (kprobe_open_bpf_prog1 K ctx) v
    (\<lambda>r v'. r = 0 \<and> v_map v' = v_map v \<and>
       (if int_arg (PT_REGS_PARM3 ctx) \<le> 16
        then mem_bytes v' (PT_REGS_PARM2 ctx) 16 =
               Some (case v_map v dnat_map addr of Some new_addr \<Rightarrow> new_addr | None \<Rightarrow> addr) \<and>
             (v_map v dnat_map addr = None \<longrightarrow> v' = v)
        else v' = v))"
proof (cases "int_arg (PT_REGS_PARM3 ctx) \<le> 16")
  case True
  then show ?thesis
    using kernel_doc.dnat_rewrites [OF assms(1) True assms(2,3)] by simp
next
  case False
  then have "vruns view (kprobe_open_bpf_prog1 K ctx) v (\<lambda>r v'. r = 0 \<and> v' = v)"
    by (intro kernel_doc.dnat_long [OF assms(1)]) simp
  then show ?thesis
    by (rule vruns_mono) (use False in auto)
qed

definition dnat_view :: kview where
  "dnat_view = sample_view\<lparr>
     v_map := (v_map sample_view)(dnat_map := [replicate 16 0 \<mapsto> replicate 16 9])\<rparr>"

theorem dnat_translates_witness:
  "vruns ref_view (kprobe_open_bpf_prog1 ref_kernel
      \<lparr>PT_REGS_PARM1 = 3, PT_REGS_PARM2 = 65536, PT_REGS_PARM3 = 16, PT_REGS_IP = 0\<rparr>) (ref_view dnat_view)
    (\<lambda>r v'. mem_bytes v' 65536 16 = Some (replicate 16 9))"
proof -
  have zero: "mem_bytes (ref_view dnat_view) 65536 16 = Some (replicate 16 0)"
    using unat_addr [of _ 65536]
    by (auto simp: mem_bytes_def ref_view_def dnat_view_def sample_view_def intro!: nth_equalityI)
  have wr: "writable (ref_view dnat_view) 65536 16"
    using sample_writable [of 16] by (simp add: writable_def ref_view_def dnat_view_def)
  have hit: "v_map (ref_view dnat_view) dnat_map (replicate 16 0) = Some (replicate 16 9)"
    by (simp add: v_map_ref_view dnat_view_def elem_of_def is_array_def dnat_map_def)
  have len: "int_arg 16 = 16"
    by (simp add: int_arg_def to_int32_id)
  show ?thesis
    by (rule vruns_mono [OF dnat_translates [OF ref.kernel_doc_axioms, of "ref_view dnat_view"]])
      (use zero wr hit len in auto)
qed

section \<open>Observers\<close>

lemma mem_bytes_log: "mem_bytes (v\<lparr>v_log := l\<rparr>) a n = mem_bytes v a n"
  by (simp add: mem_bytes_def)

context kernel_doc
begin

lemma mmap_prog12_trace:
  assumes "v_map v my_read_map key0 = Some (word_bytes buf)"
    and "length userbuff = 41"
    and "to = PT_REGS_PARM1 ctx" and "src = PT_REGS_PARM2 ctx" and "len = int_arg (PT_REGS_PARM3 ctx)"
  shows "vruns view (mmap_bpf_prog12 K userbuff ctx) v (\<lambda>r v'. r = 0 \<and>
    v' = v\<lparr>v_log := v_log v @
      [(nl ''entering real copyout'', []), (nl ''buffer on params %lu, buffer on map %lu'', [Num to, Num buf])] @
      (if to = buf
       then [(nl ''copyout to 0x%p, ul %lu len %d'', [Num to, Num to, Num len]),
         (case mem_bytes v src 41 of
            Some bs \<Rightarrow> (nl ''copyout to 0x%p from 0x%p char %c'', [Num to, Num src, Num (char_arg (hd bs))])
          | None \<Rightarrow> (nl ''error reading char from kernel buff'', []))]
       else [])\<rparr>)"
  unfolding mmap_bpf_prog12_def by (intro kwp) (use assms in \<open>auto simp: log_line_def mem_bytes_log\<close>)

end



section \<open>The program that follows a read\<close>

text \<open>
  C33.  The user program of the traced read takes the result from the wrong map.  It looks the
  character up in the third map, which holds values of eight bytes, so the kernel writes eight
  bytes into a variable of one.
\<close>

theorem buffermap_main_overflows:
  assumes "load_bpf_file fuel lib env (object_name argv0)
             (L\<lparr>calls := calls L @ [Puts (nl ''welcome''), Puts (nl (''loading bpf extension '' @ object_name argv0))]\<rparr>)
           = Inr (0, M)"
    and "loader_wf M"
    and "\<And>h. r_ret (env h (Open file [O_RDONLY])) \<noteq> - 1"
    and "\<And>h a. r_ret (env h (Bpf BPF_MAP_UPDATE_ELEM a)) = 0"
    and "\<And>h a. r_ret (env h (Bpf BPF_MAP_LOOKUP_ELEM a)) = 0"
    and "\<And>h key. length (r_data (env h (map_call BPF_MAP_LOOKUP_ELEM (map_fd M ! 2) key []))) =
           unat (bm_value_size my_buffer_map)"
  shows "buffermap_main fuel lib env [argv0, file] L = Inl Buffer_overflow"
proof -
  have "0 < length (map_fd M)" "1 < length (map_fd M)" "2 < length (map_fd M)"
    using assms(2) by (auto simp: loader_wf_def)
  then show ?thesis
    using assms(1,3-)
    by (simp add: buffermap_main_def with_file_def uload_def ucall_eq uputs_eq uupdate_eq ulookup_eq
        urun_def lookup_var_def my_buffer_map_def Let_def)
qed

theorem buffermap_main_overflows_witness:
  "buffermap_main 1 sample_lib user_env [''buffermap'', ''f''] loader_init = Inl Buffer_overflow"
proof -
  obtain M where "load_bpf_file 1 sample_lib user_env (object_name ''buffermap'')
      (loader_init\<lparr>calls := calls loader_init @
         [Puts (nl ''welcome''), Puts (nl (''loading bpf extension '' @ object_name ''buffermap''))]\<rparr>) = Inr (0, M)"
    and "loader_wf M"
    using sample_load [OF user_env_succeeds, of "loader_init\<lparr>calls := calls loader_init @
         [Puts (nl ''welcome''), Puts (nl (''loading bpf extension '' @ object_name ''buffermap''))]\<rparr>"]
      loader_wf_init sample_prog_cnt by auto
  then show ?thesis
    by (intro buffermap_main_overflows) (simp_all add: user_env_def sample_env_def my_buffer_map_def)
qed

end
