(* ===== verification/Hashmap.thy ===== *)
theory Hashmap
  imports C_Lib
begin

text \<open>
  The hash table of libbpf (\<open>hashmap.c\<close>, \<open>hashmap.h\<close>) and the client that numbers duplicate names
  (\<open>btf_dump.c\<close>).  A chain of entries is a list, an entry its key and its value; the array of
  chains may be missing or freed.  Sizes are natural numbers: the table is bounded by memory far
  below \<open>2 ^ 63\<close> entries.  The counter of the loop over the chains is an \<open>int\<close>, which overflows
  past \<open>2 ^ 31 - 1\<close>.  The results of the two allocations are arguments.
\<close>

section \<open>The table\<close>

datatype hm_fault = Use_after_free | Bad_index | Int_overflow

datatype ('k, 'v) bucket_array = Null | Freed | Live "('k \<times> 'v) list list"

record ('k, 'v) hashmap =
  hash_fn :: "'k \<Rightarrow> u64"
  equal_fn :: "'k \<Rightarrow> 'k \<Rightarrow> bool"
  buckets :: "('k, 'v) bucket_array"
  cap :: nat
  cap_bits :: nat
  sz :: nat

datatype hashmap_insert_strategy = HASHMAP_ADD | HASHMAP_SET | HASHMAP_UPDATE | HASHMAP_APPEND

abbreviation HASHMAP_MIN_CAP_BITS :: nat where "HASHMAP_MIN_CAP_BITS \<equiv> 2"
abbreviation ENOMEM :: int where "ENOMEM \<equiv> 12"
abbreviation EEXIST :: int where "EEXIST \<equiv> 17"
abbreviation ENOENT_hm :: int where "ENOENT_hm \<equiv> 2"

text \<open>
  For \<open>bits = 0\<close> the shift is by the width of the type and has no defined result; \<open>ub\<close> stands for
  what it yields.
\<close>

definition hash_bits :: "u64 \<Rightarrow> u64 \<Rightarrow> nat \<Rightarrow> u64" where
  "hash_bits ub h bits =
     (if bits = 0 then ub else drop_bit (64 - bits) (h * 11400714819323198485))"

definition key_index :: "u64 \<Rightarrow> ('k, 'v) hashmap \<Rightarrow> 'k \<Rightarrow> nat" where
  "key_index ub m key = unat (hash_bits ub (hash_fn m key) (cap_bits m))"

definition hashmap_add_entry :: "nat \<Rightarrow> 'k \<times> 'v \<Rightarrow> ('k \<times> 'v) list list \<Rightarrow> ('k \<times> 'v) list list" where
  "hashmap_add_entry h entry bs = bs[h := entry # bs ! h]"

definition hashmap_del_entry :: "nat \<Rightarrow> nat \<Rightarrow> ('k \<times> 'v) list list \<Rightarrow> ('k \<times> 'v) list list" where
  "hashmap_del_entry h i bs = bs[h := take i (bs ! h) @ drop (Suc i) (bs ! h)]"

definition hashmap__init :: "('k \<Rightarrow> u64) \<Rightarrow> ('k \<Rightarrow> 'k \<Rightarrow> bool) \<Rightarrow> ('k, 'v) hashmap" where
  "hashmap__init hash equal =
     \<lparr>hash_fn = hash, equal_fn = equal, buckets = Null, cap = 0, cap_bits = 0, sz = 0\<rparr>"

definition hashmap__new :: "bool \<Rightarrow> ('k \<Rightarrow> u64) \<Rightarrow> ('k \<Rightarrow> 'k \<Rightarrow> bool) \<Rightarrow> int + ('k, 'v) hashmap" where
  "hashmap__new alloc hash equal = (if \<not> alloc then Inl (- ENOMEM) else Inr (hashmap__init hash equal))"

text \<open>The array is freed, the pointer to it is kept.  Freeing it a second time is an error.\<close>

definition free_buckets :: "('k, 'v) bucket_array \<Rightarrow> hm_fault + ('k, 'v) bucket_array" where
  "free_buckets bs = (case bs of Null \<Rightarrow> Inr Null | Freed \<Rightarrow> Inl Use_after_free | Live _ \<Rightarrow> Inr Freed)"

definition hashmap__clear :: "('k, 'v) hashmap \<Rightarrow> hm_fault + ('k, 'v) hashmap" where
  "hashmap__clear m =
     (case free_buckets (buckets m) of
        Inl f \<Rightarrow> Inl f
      | Inr bs \<Rightarrow> Inr (m\<lparr>buckets := bs, cap := 0, cap_bits := 0, sz := 0\<rparr>))"

definition hashmap__free :: "('k, 'v) hashmap option \<Rightarrow> hm_fault + unit" where
  "hashmap__free m =
     (case m of
        None \<Rightarrow> Inr ()
      | Some m \<Rightarrow> (case hashmap__clear m of Inl f \<Rightarrow> Inl f | Inr _ \<Rightarrow> Inr ()))"

definition hashmap__size :: "('k, 'v) hashmap \<Rightarrow> nat" where
  "hashmap__size m = sz m"

definition hashmap__capacity :: "('k, 'v) hashmap \<Rightarrow> nat" where
  "hashmap__capacity m = cap m"

definition hashmap_needs_to_grow :: "('k, 'v) hashmap \<Rightarrow> bool" where
  "hashmap_needs_to_grow m = (cap m = 0 \<or> (sz m + 1) * 4 div 3 > cap m)"

definition chain_at :: "('k, 'v) bucket_array \<Rightarrow> nat \<Rightarrow> hm_fault + ('k \<times> 'v) list" where
  "chain_at bs i =
     (case bs of Live bs \<Rightarrow> if i < length bs then Inr (bs ! i) else Inl Bad_index | _ \<Rightarrow> Inl Use_after_free)"

text \<open>
  The two loops of \<open>hashmap__for_each_entry_safe\<close>: over a chain, and over the chains.  The counter
  \<open>bkt\<close> is compared with the capacity, and incremented after each chain.
\<close>

abbreviation INT_MAX :: nat where "INT_MAX \<equiv> 2147483647"

primrec for_chain :: "('e \<Rightarrow> 's \<Rightarrow> hm_fault + 's) \<Rightarrow> 'e list \<Rightarrow> 's \<Rightarrow> hm_fault + 's" where
  "for_chain body [] s = Inr s"
| "for_chain body (cur # rest) s = (case body cur s of Inl f \<Rightarrow> Inl f | Inr s \<Rightarrow> for_chain body rest s)"

function for_each_entry_safe ::
  "('k \<times> 'v \<Rightarrow> 's \<Rightarrow> hm_fault + 's) \<Rightarrow> ('k, 'v) hashmap \<Rightarrow> nat \<Rightarrow> 's \<Rightarrow> hm_fault + 's" where
  "for_each_entry_safe body m bkt s =
     (if cap m \<le> bkt then Inr s
      else case chain_at (buckets m) bkt of
          Inl f \<Rightarrow> Inl f
        | Inr es \<Rightarrow>
          (case for_chain body es s of
             Inl f \<Rightarrow> Inl f
           | Inr s \<Rightarrow> if bkt = INT_MAX then Inl Int_overflow else for_each_entry_safe body m (bkt + 1) s))"
  by pat_completeness auto
termination
  by (relation "measure (\<lambda>(_, m, bkt, _). cap m - bkt)") auto

declare for_each_entry_safe.simps [simp del]

definition move_entry ::
  "u64 \<Rightarrow> ('k \<Rightarrow> u64) \<Rightarrow> nat \<Rightarrow> 'k \<times> 'v \<Rightarrow> ('k \<times> 'v) list list \<Rightarrow> hm_fault + ('k \<times> 'v) list list" where
  "move_entry ub hash new_cap_bits cur new_buckets =
     (let h = unat (hash_bits ub (hash (fst cur)) new_cap_bits) in
      if h < length new_buckets then Inr (hashmap_add_entry h cur new_buckets) else Inl Bad_index)"

definition hashmap_grow :: "bool \<Rightarrow> u64 \<Rightarrow> ('k, 'v) hashmap \<Rightarrow> hm_fault + int \<times> ('k, 'v) hashmap" where
  "hashmap_grow alloc ub m =
     (let new_cap_bits = max (cap_bits m + 1) HASHMAP_MIN_CAP_BITS; new_cap = 2 ^ new_cap_bits in
      if \<not> alloc then Inr (- ENOMEM, m)
      else case for_each_entry_safe (move_entry ub (hash_fn m) new_cap_bits) m 0 (replicate new_cap []) of
          Inl f \<Rightarrow> Inl f
        | Inr new_buckets \<Rightarrow>
          (case free_buckets (buckets m) of
             Inl f \<Rightarrow> Inl f
           | Inr _ \<Rightarrow> Inr (0, m\<lparr>cap := new_cap, cap_bits := new_cap_bits, buckets := Live new_buckets\<rparr>)))"

text \<open>The place of the first entry of a chain whose key is equal; it stands for the two pointers.\<close>

primrec find_in :: "('k \<Rightarrow> 'k \<Rightarrow> bool) \<Rightarrow> 'k \<Rightarrow> ('k \<times> 'v) list \<Rightarrow> nat option" where
  "find_in equal key [] = None"
| "find_in equal key (cur # rest) =
     (if equal (fst cur) key then Some 0 else map_option Suc (find_in equal key rest))"

definition hashmap_find_entry :: "('k, 'v) hashmap \<Rightarrow> 'k \<Rightarrow> nat \<Rightarrow> hm_fault + nat option" where
  "hashmap_find_entry m key h =
     (case buckets m of
        Null \<Rightarrow> Inr None
      | Freed \<Rightarrow> Inl Use_after_free
      | Live bs \<Rightarrow> if h < length bs then Inr (find_in (equal_fn m) key (bs ! h)) else Inl Bad_index)"

definition chain :: "('k, 'v) hashmap \<Rightarrow> nat \<Rightarrow> ('k \<times> 'v) list" where
  "chain m h = (case buckets m of Live bs \<Rightarrow> bs ! h | _ \<Rightarrow> [])"

definition set_chain :: "nat \<Rightarrow> ('k \<times> 'v) list \<Rightarrow> ('k, 'v) hashmap \<Rightarrow> ('k, 'v) hashmap" where
  "set_chain h es m = (case buckets m of Live bs \<Rightarrow> m\<lparr>buckets := Live (bs[h := es])\<rparr> | _ \<Rightarrow> m)"

text \<open>The part of \<open>hashmap__insert\<close> that adds an entry.\<close>

definition insert_new ::
  "bool \<Rightarrow> bool \<Rightarrow> u64 \<Rightarrow> ('k, 'v) hashmap \<Rightarrow> 'k \<Rightarrow> 'v \<Rightarrow> nat \<Rightarrow> hm_fault + int \<times> ('k, 'v) hashmap" where
  "insert_new grow_alloc entry_alloc ub m key val h =
     (case (if hashmap_needs_to_grow m
            then (case hashmap_grow grow_alloc ub m of
                    Inl f \<Rightarrow> Inl f
                  | Inr (err, m) \<Rightarrow> Inr (err, m, if err \<noteq> 0 then h else key_index ub m key))
            else Inr (0, m, h)) of
        Inl f \<Rightarrow> Inl f
      | Inr (err, m, h) \<Rightarrow>
          if err \<noteq> 0 then Inr (err, m)
          else if \<not> entry_alloc then Inr (- ENOMEM, m)
          else (case buckets m of
              Live bs \<Rightarrow>
                if h < length bs
                then Inr (0, m\<lparr>buckets := Live (hashmap_add_entry h (key, val) bs), sz := sz m + 1\<rparr>)
                else Inl Bad_index
            | _ \<Rightarrow> Inl Use_after_free))"

definition hashmap__insert ::
  "bool \<Rightarrow> bool \<Rightarrow> u64 \<Rightarrow> ('k, 'v) hashmap \<Rightarrow> 'k \<Rightarrow> 'v \<Rightarrow> hashmap_insert_strategy \<Rightarrow>
   hm_fault + int \<times> ('k \<times> 'v) option \<times> ('k, 'v) hashmap" where
  "hashmap__insert grow_alloc entry_alloc ub m key val strategy =
     (let h = key_index ub m key in
      case (if strategy \<noteq> HASHMAP_APPEND then hashmap_find_entry m key h else Inr None) of
        Inl f \<Rightarrow> Inl f
      | Inr (Some i) \<Rightarrow>
          (let old = chain m h ! i in
           if strategy = HASHMAP_SET \<or> strategy = HASHMAP_UPDATE
           then Inr (0, Some old, set_chain h ((chain m h)[i := (key, val)]) m)
           else Inr (- EEXIST, Some old, m))
      | Inr None \<Rightarrow>
          if strategy = HASHMAP_UPDATE then Inr (- ENOENT_hm, None, m)
          else (case insert_new grow_alloc entry_alloc ub m key val h of
              Inl f \<Rightarrow> Inl f | Inr (err, m) \<Rightarrow> Inr (err, None, m)))"

definition hashmap__find :: "u64 \<Rightarrow> ('k, 'v) hashmap \<Rightarrow> 'k \<Rightarrow> hm_fault + 'v option" where
  "hashmap__find ub m key =
     (let h = key_index ub m key in
      case hashmap_find_entry m key h of
        Inl f \<Rightarrow> Inl f
      | Inr None \<Rightarrow> Inr None
      | Inr (Some i) \<Rightarrow> Inr (Some (snd (chain m h ! i))))"

definition hashmap__delete ::
  "u64 \<Rightarrow> ('k, 'v) hashmap \<Rightarrow> 'k \<Rightarrow> hm_fault + ('k \<times> 'v) option \<times> ('k, 'v) hashmap" where
  "hashmap__delete ub m key =
     (let h = key_index ub m key in
      case hashmap_find_entry m key h of
        Inl f \<Rightarrow> Inl f
      | Inr None \<Rightarrow> Inr (None, m)
      | Inr (Some i) \<Rightarrow>
          Inr (Some (chain m h ! i),
            (case buckets m of Live bs \<Rightarrow> m\<lparr>buckets := Live (hashmap_del_entry h i bs), sz := sz m - 1\<rparr>
             | _ \<Rightarrow> m)))"

section \<open>Numbering duplicate names\<close>

definition str_hash_fn :: "string \<Rightarrow> u64" where
  "str_hash_fn s = foldl (\<lambda>h c. h * 31 + word_of_int (sint (word_of_nat (of_char c) :: u8))) 0 s"

definition str_equal_fn :: "string \<Rightarrow> string \<Rightarrow> bool" where
  "str_equal_fn a b = (a = b)"

text \<open>A count that is missing starts from 0; a failure to store it is not noticed.\<close>

definition btf_dump_name_dups ::
  "bool \<Rightarrow> bool \<Rightarrow> u64 \<Rightarrow> (string, nat) hashmap \<Rightarrow> string \<Rightarrow> hm_fault + nat \<times> (string, nat) hashmap" where
  "btf_dump_name_dups grow_alloc entry_alloc ub name_map orig_name =
     (case hashmap__find ub name_map orig_name of
        Inl f \<Rightarrow> Inl f
      | Inr found \<Rightarrow>
          (let dup_cnt = (case found of Some n \<Rightarrow> n | None \<Rightarrow> 0) + 1 in
           case hashmap__insert grow_alloc entry_alloc ub name_map orig_name dup_cnt HASHMAP_SET of
             Inl f \<Rightarrow> Inl f
           | Inr (_, _, name_map) \<Rightarrow> Inr (dup_cnt, name_map)))"

end
