(* ===== verification/Hashmap_Facts.thy ===== *)
theory Hashmap_Facts
  imports Hashmap
begin

text \<open>
  The hash table as a list of entries.  \<open>matches m key\<close> are the entries of a table whose key is
  equal to \<open>key\<close>, in the order in which the table holds them: a lookup delivers the first, an
  insertion puts one in front, a deletion takes the first away, and growing turns their order
  around.  The contract between the two functions of the caller is the locale \<open>hash_keys\<close>.
\<close>

section \<open>Well-formed tables\<close>

definition hm_wf :: "('k, 'v) hashmap \<Rightarrow> bool" where
  "hm_wf m =
     (case buckets m of
        Null \<Rightarrow> cap m = 0 \<and> cap_bits m = 0 \<and> sz m = 0
      | Freed \<Rightarrow> False
      | Live bs \<Rightarrow> HASHMAP_MIN_CAP_BITS \<le> cap_bits m \<and> cap_bits m < 64 \<and> cap m = 2 ^ cap_bits m \<and>
          length bs = cap m \<and> sz m = length (concat bs) \<and>
          (\<forall>i < length bs. \<forall>e \<in> set (bs ! i). key_index 0 m (fst e) = i))"

text \<open>All entries, chain by chain.\<close>

definition all_entries :: "('k, 'v) hashmap \<Rightarrow> ('k \<times> 'v) list" where
  "all_entries m = (case buckets m of Live bs \<Rightarrow> concat bs | _ \<Rightarrow> [])"

definition matches :: "('k, 'v) hashmap \<Rightarrow> 'k \<Rightarrow> ('k \<times> 'v) list" where
  "matches m key = filter (\<lambda>e. equal_fn m (fst e) key) (all_entries m)"

definition first_value :: "('k \<times> 'v) list \<Rightarrow> 'v option" where
  "first_value es = (case es of [] \<Rightarrow> None | e # _ \<Rightarrow> Some (snd e))"

text \<open>Whether an insertion finds the memory it needs, and the order of matches after its growing.\<close>

definition grown :: "bool \<Rightarrow> ('k, 'v) hashmap \<Rightarrow> ('k \<times> 'v) list \<Rightarrow> ('k \<times> 'v) list" where
  "grown grow_alloc m es = (if hashmap_needs_to_grow m \<and> grow_alloc then rev es else es)"

definition inserts :: "bool \<Rightarrow> bool \<Rightarrow> ('k, 'v) hashmap \<Rightarrow> bool" where
  "inserts grow_alloc entry_alloc m = ((hashmap_needs_to_grow m \<longrightarrow> grow_alloc) \<and> entry_alloc)"

text \<open>
  The sizes of a table that has seen at most \<open>n\<close> insertions: it never grows beyond what they need.
\<close>

definition within :: "nat \<Rightarrow> ('k, 'v) hashmap \<Rightarrow> bool" where
  "within n m = (sz m \<le> n \<and> cap m \<le> 4 + 3 * n)"

text \<open>The calls a client makes one after the other, with the outcome of the allocations of each.\<close>

datatype ('k, 'v) hm_op =
    Insert bool bool 'k 'v hashmap_insert_strategy
  | Delete 'k
  | Find 'k

definition hm_step :: "u64 \<Rightarrow> ('k, 'v) hm_op \<Rightarrow> ('k, 'v) hashmap \<Rightarrow> hm_fault + ('k, 'v) hashmap" where
  "hm_step ub c m =
     (case c of
        Insert grow_alloc entry_alloc key val strategy \<Rightarrow>
          map_sum id (snd \<circ> snd) (hashmap__insert grow_alloc entry_alloc ub m key val strategy)
      | Delete key \<Rightarrow> map_sum id snd (hashmap__delete ub m key)
      | Find key \<Rightarrow> map_sum id (\<lambda>_. m) (hashmap__find ub m key))"

primrec hm_run :: "u64 \<Rightarrow> ('k, 'v) hm_op list \<Rightarrow> ('k, 'v) hashmap \<Rightarrow> hm_fault + ('k, 'v) hashmap" where
  "hm_run ub [] m = Inr m"
| "hm_run ub (c # cs) m = (case hm_step ub c m of Inl f \<Rightarrow> Inl f | Inr m \<Rightarrow> hm_run ub cs m)"

text \<open>The numbers \<open>btf_dump_name_dups\<close> gives to names asked for one after the other.\<close>

primrec number_names :: "u64 \<Rightarrow> string list \<Rightarrow> (string, nat) hashmap \<Rightarrow> hm_fault + nat list" where
  "number_names ub [] m = Inr []"
| "number_names ub (name # names) m =
     (case btf_dump_name_dups True True ub m name of
        Inl f \<Rightarrow> Inl f
      | Inr (n, m) \<Rightarrow> map_sum id ((#) n) (number_names ub names m))"

text \<open>The table as a finite map, when no key is in it twice.\<close>

definition map_of_hm :: "('k, 'v) hashmap \<Rightarrow> 'k \<Rightarrow> 'v option" where
  "map_of_hm m key = first_value (matches m key)"

definition unique :: "('k, 'v) hashmap \<Rightarrow> bool" where
  "unique m = (\<forall>key. length (matches m key) \<le> 1)"

lemma first_value_simps [simp]:
  "first_value [] = None" "first_value (e # es) = Some (snd e)"
  by (simp_all add: first_value_def)

lemma first_value_hd: "es \<noteq> [] \<Longrightarrow> first_value es = Some (snd (hd es))"
  by (cases es) simp_all

lemma hm_wf_init: "hm_wf (hashmap__init hash equal)" "matches (hashmap__init hash equal) key = []"
  by (simp_all add: hm_wf_def hashmap__init_def matches_def all_entries_def)

lemma init_fields:
  "hash_fn (hashmap__init hash equal) = hash" "equal_fn (hashmap__init hash equal) = equal"
  "within n (hashmap__init hash equal)" "unique (hashmap__init hash equal)"
  "cap_bits (hashmap__init hash equal) = 0" "map_of_hm (hashmap__init hash equal) key = None"
  by (simp_all add: hashmap__init_def within_def unique_def map_of_hm_def matches_def all_entries_def)

lemma within_Suc: "within n m \<Longrightarrow> within (Suc n) m"
  by (simp add: within_def)

lemma grow_within:
  assumes "hashmap_needs_to_grow m" and "within n m"
  shows "sz m \<le> n" and "max (2 * cap m) 4 \<le> 4 + 3 * Suc n"
  using assms by (auto simp: hashmap_needs_to_grow_def within_def)

lemma within_bits:
  assumes "hm_wf m" and "within n m" and "n < 2 ^ 29"
  shows "cap_bits m < 31"
proof (rule ccontr)
  assume "\<not> cap_bits m < 31"
  moreover from this have "(2 :: nat) ^ 31 \<le> 2 ^ cap_bits m"
    by (intro power_increasing) auto
  ultimately show False
    using assms by (auto simp: hm_wf_def within_def split: bucket_array.splits)
qed

section \<open>Indices\<close>

lemma hash_bits_less:
  assumes "0 < bits" and "bits < 64"
  shows "unat (hash_bits ub h bits) < 2 ^ bits"
proof -
  have "unat (hash_bits ub h bits) = unat (h * 11400714819323198485) div 2 ^ (64 - bits)"
    using assms unat_drop_bit_eq [of "64 - bits" "h * 11400714819323198485"]
    by (simp add: hash_bits_def drop_bit_nat_def)
  moreover have "unat (h * 11400714819323198485) < 2 ^ bits * 2 ^ (64 - bits)"
    using unsigned_less [of "h * 11400714819323198485"] assms by (simp flip: power_add)
  ultimately show ?thesis
    by (simp add: less_mult_imp_div_less)
qed

lemma key_index_ub: "0 < cap_bits m \<Longrightarrow> key_index ub m key = key_index 0 m key"
  by (simp add: key_index_def hash_bits_def)

lemma key_index_cong [simp]:
  "key_index ub (m\<lparr>buckets := bs, sz := n\<rparr>) = key_index ub m"
  "key_index ub (m\<lparr>buckets := bs\<rparr>) = key_index ub m"
  by (simp_all add: key_index_def fun_eq_iff)

lemma set_chain_fields [simp]:
  "hash_fn (set_chain h es m) = hash_fn m" "equal_fn (set_chain h es m) = equal_fn m"
  "within n (set_chain h es m) = within n m"
  by (simp_all add: set_chain_def within_def split: bucket_array.splits)

section \<open>Chains\<close>

lemma find_in_None: "find_in equal key es = None \<longleftrightarrow> filter (\<lambda>e. equal (fst e) key) es = []"
  by (induction es) auto

lemma find_in_Some:
  assumes "find_in equal key es = Some i"
  shows "i < length es" and "filter (\<lambda>e. equal (fst e) key) (take i es) = []"
    and "equal (fst (es ! i)) key"
  using assms by (induction es arbitrary: i) (auto split: if_splits)

lemma filter_concat_at:
  assumes "i < length bs" and "\<And>j. j < length bs \<Longrightarrow> j \<noteq> i \<Longrightarrow> filter P (bs ! j) = []"
  shows "filter P (concat bs) = filter P (bs ! i)"
  using assms
proof (induction bs arbitrary: i)
  case (Cons b bs)
  have rest: "filter P (bs ! j) = []" if "j < length bs" "Suc j \<noteq> i" for j
    using Cons.prems(2) [of "Suc j"] that by simp
  show ?case
  proof (cases i)
    case 0
    then have "\<forall>b \<in> set bs. filter P b = []"
      using rest by (metis in_set_conv_nth nat.distinct(1))
    then have "filter P (concat bs) = []"
      by (simp add: filter_concat)
    then show ?thesis
      using 0 by simp
  next
    case (Suc k)
    then have "filter P b = []"
      using Cons.prems(2) [of 0] by simp
    then show ?thesis
      using Suc Cons.IH [of k] Cons.prems(1) rest by simp
  qed
qed simp

text \<open>Adding entries one by one to the front of chains.\<close>

lemma fold_add_entry:
  assumes "\<forall>e \<in> set es. f e < length bs"
  shows "length (fold (\<lambda>e. hashmap_add_entry (f e) e) es bs) = length bs"
    and "i < length bs \<Longrightarrow> fold (\<lambda>e. hashmap_add_entry (f e) e) es bs ! i =
           rev (filter (\<lambda>e. f e = i) es) @ bs ! i"
  using assms by (induction es arbitrary: bs) (auto simp: hashmap_add_entry_def nth_list_update)

lemma length_concat_add:
  "h < length bs \<Longrightarrow> length (concat (bs[h := e # bs ! h])) = Suc (length (concat bs))"
  by (induction bs arbitrary: h) (auto split: nat.split)

lemma length_concat_update:
  "h < length bs \<Longrightarrow> length (concat (bs[h := es])) + length (bs ! h) = length (concat bs) + length es"
  by (induction bs arbitrary: h) (auto split: nat.split)

lemma length_fold_add:
  assumes "\<forall>e \<in> set es. f e < length bs"
  shows "length (concat (fold (\<lambda>e. hashmap_add_entry (f e) e) es bs)) = length es + length (concat bs)"
  using assms
  by (induction es arbitrary: bs) (auto simp: hashmap_add_entry_def length_concat_add simp del: length_concat)

section \<open>The loop over all entries\<close>

text \<open>
  As long as the counter fits, the loop does its work on the entries of the chains from \<open>bkt\<close> on;
  with more chains than an \<open>int\<close> can count it overflows.
\<close>

lemma for_chain_move:
  assumes "\<forall>e \<in> set es. unat (hash_bits ub (hash (fst e)) bits) < length bs"
  shows "for_chain (move_entry ub hash bits) es bs =
    Inr (fold (\<lambda>e. hashmap_add_entry (unat (hash_bits ub (hash (fst e)) bits)) e) es bs)"
  using assms
proof (induction es arbitrary: bs)
  case (Cons e es)
  then show ?case
    by (simp add: move_entry_def Let_def hashmap_add_entry_def)
qed simp

definition moved :: "u64 \<Rightarrow> ('k \<Rightarrow> u64) \<Rightarrow> nat \<Rightarrow> ('k \<times> 'v) list \<Rightarrow> ('k \<times> 'v) list list \<Rightarrow> ('k \<times> 'v) list list" where
  "moved ub hash bits es bs = fold (\<lambda>e. hashmap_add_entry (unat (hash_bits ub (hash (fst e)) bits)) e) es bs"

lemma for_each_step:
  assumes "buckets m = Live bs" and "length bs = cap m" and "bkt < cap m"
    and "\<And>k. unat (hash_bits ub (hash k) bits) < length nbs"
  shows "for_each_entry_safe (move_entry ub hash bits) m bkt nbs =
      (if bkt = INT_MAX then Inl Int_overflow
       else for_each_entry_safe (move_entry ub hash bits) m (Suc bkt) (moved ub hash bits (bs ! bkt) nbs))"
    and "length (moved ub hash bits (bs ! bkt) nbs) = length nbs"
proof -
  have "for_chain (move_entry ub hash bits) (bs ! bkt) nbs = Inr (moved ub hash bits (bs ! bkt) nbs)"
    unfolding moved_def by (rule for_chain_move) (use assms(4) in simp)
  then show "for_each_entry_safe (move_entry ub hash bits) m bkt nbs =
      (if bkt = INT_MAX then Inl Int_overflow
       else for_each_entry_safe (move_entry ub hash bits) m (Suc bkt) (moved ub hash bits (bs ! bkt) nbs))"
    by (subst for_each_entry_safe.simps) (use assms(1-3) in \<open>simp add: chain_at_def\<close>)
  show "length (moved ub hash bits (bs ! bkt) nbs) = length nbs"
    unfolding moved_def by (rule fold_add_entry(1)) (use assms(4) in simp)
qed

lemma for_each_moves:
  assumes "buckets m = Live bs" and "length bs = cap m" and "bkt \<le> cap m" and "cap m \<le> INT_MAX"
    and "\<And>k. unat (hash_bits ub (hash k) bits) < length nbs"
  shows "for_each_entry_safe (move_entry ub hash bits) m bkt nbs =
    Inr (moved ub hash bits (concat (drop bkt bs)) nbs)"
  using assms(3,5)
proof (induction "cap m - bkt" arbitrary: bkt nbs)
  case 0
  then show ?case
    using assms(2) by (subst for_each_entry_safe.simps) (simp add: moved_def)
next
  case (Suc n)
  then have bkt: "bkt < cap m"
    by simp
  have "n = cap m - Suc bkt" "Suc bkt \<le> cap m"
    using Suc.hyps(2) by auto
  note step = for_each_step [where ub = ub and hash = hash and bits = bits and nbs = nbs, OF assms(1,2) bkt Suc.prems(2)]
  have "concat (drop bkt bs) = bs ! bkt @ concat (drop (Suc bkt) bs)"
    using bkt assms(2) by (simp add: Cons_nth_drop_Suc [symmetric])
  then show ?case
    using step(1) bkt assms(4)
      Suc.hyps(1) [OF \<open>n = _\<close> \<open>Suc bkt \<le> _\<close>, of "moved ub hash bits (bs ! bkt) nbs"] step(2) Suc.prems(2)
    by (simp add: moved_def)
qed

lemma for_each_overflows:
  assumes "buckets m = Live bs" and "length bs = cap m" and "bkt \<le> INT_MAX" and "INT_MAX < cap m"
    and "\<And>k. unat (hash_bits ub (hash k) bits) < length nbs"
  shows "for_each_entry_safe (move_entry ub hash bits) m bkt nbs = Inl Int_overflow"
  using assms(3,5)
proof (induction "INT_MAX - bkt" arbitrary: bkt nbs)
  case 0
  then show ?case
    using for_each_step(1) [where ub = ub and hash = hash and bits = bits and nbs = nbs, OF assms(1,2) _ 0(3), of bkt] assms(4) by simp
next
  case (Suc n)
  then have "bkt < cap m" "n = INT_MAX - Suc bkt" "Suc bkt \<le> INT_MAX" "bkt \<noteq> INT_MAX"
    using assms(4) by auto
  then show ?case
    using for_each_step [where ub = ub and hash = hash and bits = bits and nbs = nbs, OF assms(1,2) _ Suc.prems(2), of bkt]
      Suc.hyps(1) [of "Suc bkt" "moved ub hash bits (bs ! bkt) nbs"] Suc.prems(2) by simp
qed

text \<open>Growing: up to \<open>2 ^ 30\<close> chains it moves all entries, from more the counter overflows.\<close>

lemma grow_eq:
  assumes "hm_wf m" and "cap_bits m < 31"
  shows "hashmap_grow True ub m =
    (let bits = max (cap_bits m + 1) HASHMAP_MIN_CAP_BITS in
     Inr (0, m\<lparr>cap := 2 ^ bits, cap_bits := bits,
       buckets := Live (moved ub (hash_fn m) bits (all_entries m) (replicate (2 ^ bits) []))\<rparr>))"
proof (cases "buckets m")
  case Null
  then show ?thesis
    using assms(1)
    by (simp add: hashmap_grow_def hm_wf_def free_buckets_def all_entries_def moved_def for_each_entry_safe.simps)
next
  case Freed
  then show ?thesis
    using assms(1) by (simp add: hm_wf_def)
next
  case (Live bs)
  define bits where "bits = max (cap_bits m + 1) HASHMAP_MIN_CAP_BITS"
  have "(2 :: nat) ^ cap_bits m \<le> 2 ^ 30"
    using assms(2) by (intro power_increasing) auto
  then have cap: "cap m \<le> INT_MAX" "length bs = cap m"
    using assms(1) Live by (simp_all add: hm_wf_def)
  have "unat (hash_bits ub (hash_fn m k) bits) < length (replicate (2 ^ bits) [])" for k
    using hash_bits_less [of bits ub "hash_fn m k"] assms(2) by (simp add: bits_def)
  note for_each_moves [where ub = ub and hash = "hash_fn m" and bits = bits and nbs = "replicate (2 ^ bits) []", OF Live cap(2) _ cap(1) this, of 0]
  then show ?thesis
    unfolding hashmap_grow_def bits_def [symmetric] Let_def using Live by (simp add: free_buckets_def all_entries_def)
qed

lemma grow_overflows:
  assumes "hm_wf m" and "31 \<le> cap_bits m" and "cap_bits m < 63"
  shows "hashmap_grow True ub m = Inl Int_overflow"
proof -
  define bits where "bits = max (cap_bits m + 1) HASHMAP_MIN_CAP_BITS"
  obtain bs where bs: "buckets m = Live bs" "length bs = cap m" "cap m = 2 ^ cap_bits m"
    using assms(1,2) by (cases "buckets m") (auto simp: hm_wf_def)
  have "(2 :: nat) ^ 31 \<le> 2 ^ cap_bits m"
    using assms(2) by (intro power_increasing) auto
  then have cap: "INT_MAX < cap m"
    using bs(3) by simp
  have "unat (hash_bits ub (hash_fn m k) bits) < length (replicate (2 ^ bits) [])" for k
    using hash_bits_less [of bits ub "hash_fn m k"] assms(3) by (simp add: bits_def)
  note for_each_overflows [where ub = ub and hash = "hash_fn m" and bits = bits and nbs = "replicate (2 ^ bits) []", OF bs(1,2) _ cap this, of 0]
  then show ?thesis
    unfolding hashmap_grow_def bits_def [symmetric] Let_def by simp
qed

section \<open>The contract of the caller\<close>

locale hash_keys =
  fixes hash :: "'k \<Rightarrow> u64" and equal :: "'k \<Rightarrow> 'k \<Rightarrow> bool"
  assumes equal_refl: "equal a a"
    and equal_sym: "equal a b \<Longrightarrow> equal b a"
    and equal_trans: "equal a b \<Longrightarrow> equal b c \<Longrightarrow> equal a c"
    and hash_equal: "equal a b \<Longrightarrow> hash a = hash b"
begin

lemma equal_index: "hash_fn m = hash \<Longrightarrow> equal a b \<Longrightarrow> key_index ub m a = key_index ub m b"
  by (simp add: key_index_def hash_equal)

lemma matches_equal:
  fixes m :: "('k, 'v) hashmap"
  assumes "equal_fn m = equal" and "equal a b"
  shows "matches m a = matches m b"
proof -
  have "equal (fst e) a \<longleftrightarrow> equal (fst e) b" for e :: "'k \<times> 'v"
    using assms(2) equal_sym equal_trans by blast
  then show ?thesis
    using assms(1) by (simp add: matches_def)
qed

text \<open>All entries that match a key are in its chain.\<close>

lemma live_matches:
  assumes "hm_wf m" and "buckets m = Live bs" and "hash_fn m = hash" and "equal_fn m = equal"
  shows "key_index ub m key < length bs"
    and "matches m key = filter (\<lambda>e. equal (fst e) key) (bs ! key_index ub m key)"
proof -
  have wf: "0 < cap_bits m" "cap_bits m < 64" "length bs = 2 ^ cap_bits m" "cap m = length bs"
    and at: "\<And>i e. i < length bs \<Longrightarrow> e \<in> set (bs ! i) \<Longrightarrow> key_index 0 m (fst e) = i"
    using assms(1,2) by (auto simp: hm_wf_def)
  show less: "key_index ub m key < length bs"
    using hash_bits_less [OF wf(1,2)] wf(3) by (simp add: key_index_def)
  have "filter (\<lambda>e. equal (fst e) key) (bs ! j) = []"
    if "j < length bs" "j \<noteq> key_index ub m key" for j
  proof -
    have "\<not> equal (fst e) key" if "e \<in> set (bs ! j)" for e
      using at [OF \<open>j < length bs\<close> that] equal_index [OF assms(3), of "fst e" key 0]
        key_index_ub [OF wf(1), of ub key] \<open>j \<noteq> _\<close> by auto
    then show ?thesis
      by (simp add: filter_empty_conv)
  qed
  then have "filter (\<lambda>e. equal (fst e) key) (concat bs) =
      filter (\<lambda>e. equal (fst e) key) (bs ! key_index ub m key)"
    by (rule filter_concat_at [OF less])
  then show "matches m key = filter (\<lambda>e. equal (fst e) key) (bs ! key_index ub m key)"
    using assms(2,4) by (simp add: matches_def all_entries_def)
qed

lemma null_matches: "buckets m = Null \<Longrightarrow> matches m key = []"
  by (simp add: matches_def all_entries_def)

lemma find_entry_live:
  assumes "hm_wf m" and "buckets m = Live bs" and "hash_fn m = hash" and "equal_fn m = equal"
  shows "hashmap_find_entry m key (key_index ub m key) = Inr (find_in equal key (bs ! key_index ub m key))"
  using live_matches(1) [OF assms] assms(2,4) by (simp add: hashmap_find_entry_def)

text \<open>The first match, and what is before and after it in its chain.\<close>

lemma find_in_matches:
  assumes "find_in equal key es = Some i"
  shows "filter (\<lambda>e. equal (fst e) key) es =
    es ! i # filter (\<lambda>e. equal (fst e) key) (drop (Suc i) es)"
proof -
  note some = find_in_Some [OF assms]
  have "es = take i es @ es ! i # drop (Suc i) es"
    using some(1) by (rule id_take_nth_drop)
  then have "filter (\<lambda>e. equal (fst e) key) es =
      filter (\<lambda>e. equal (fst e) key) (take i es @ es ! i # drop (Suc i) es)"
    by (rule arg_cong)
  then show ?thesis
    using some(2,3) by simp
qed

lemma hashmap_find_matches:
  assumes "hm_wf m" and "hash_fn m = hash" and "equal_fn m = equal"
  shows "hashmap__find ub m key = Inr (first_value (matches m key))"
proof (cases "buckets m")
  case Null
  then show ?thesis
    by (simp add: hashmap__find_def hashmap_find_entry_def null_matches Let_def)
next
  case Freed
  then show ?thesis
    using assms(1) by (simp add: hm_wf_def)
next
  case (Live bs)
  note live = find_entry_live [OF assms(1) Live assms(2,3)] live_matches [OF assms(1) Live assms(2,3)]
  show ?thesis
  proof (cases "find_in equal key (bs ! key_index ub m key)")
    case None
    then show ?thesis
      using live find_in_None [of equal key "bs ! key_index ub m key"]
      by (simp add: hashmap__find_def Let_def)
  next
    case (Some i)
    then show ?thesis
      using live find_in_matches [OF Some] Live by (simp add: hashmap__find_def chain_def Let_def)
  qed
qed

text \<open>Growing.\<close>

lemma hashmap_grow_matches:
  fixes m :: "('k, 'v) hashmap"
  assumes "hm_wf m" and "hash_fn m = hash" and "equal_fn m = equal" and "cap_bits m < 31"
  shows "\<exists>m'. hashmap_grow True ub m = Inr (0, m') \<and> hm_wf m' \<and> hash_fn m' = hash \<and>
    equal_fn m' = equal \<and> sz m' = sz m \<and> (\<exists>bs. buckets m' = Live bs) \<and> cap m' = max (2 * cap m) 4 \<and>
    (\<forall>key. matches m' key = rev (matches m key))"
proof -
  define bits where "bits = max (cap_bits m + 1) HASHMAP_MIN_CAP_BITS"
  define f where "f e = unat (hash_bits ub (hash (fst e)) bits)" for e :: "'k \<times> 'v"
  define nb where "nb = moved ub hash bits (all_entries m) (replicate (2 ^ bits) [])"
  define m' where "m' = m\<lparr>cap := 2 ^ bits, cap_bits := bits, buckets := Live nb\<rparr>"
  have bits: "2 \<le> bits" "0 < bits" "bits < 64"
    using assms(4) by (auto simp: bits_def)
  have cap: "2 ^ bits = max (2 * cap m) 4"
    using assms(1) power_increasing [of 2 "cap_bits m" "2 :: nat"]
    by (auto simp: bits_def hm_wf_def max_def split: bucket_array.splits)
  have f: "f e < 2 ^ bits" for e
    unfolding f_def by (rule hash_bits_less [OF bits(2,3)])
  have nb: "length nb = 2 ^ bits" "\<And>i. i < 2 ^ bits \<Longrightarrow> nb ! i = rev (filter (\<lambda>e. f e = i) (all_entries m))"
    and len: "length (concat nb) = length (all_entries m)"
    using fold_add_entry [of "all_entries m" f "replicate (2 ^ bits) []"]
      length_fold_add [of "all_entries m" f "replicate (2 ^ bits) []"] f by (auto simp: nb_def moved_def f_def)
  have size: "length (all_entries m) = sz m"
    using assms(1) by (auto simp: hm_wf_def all_entries_def split: bucket_array.splits)
  have idx: "key_index ub' m' k = unat (hash_bits ub (hash k) bits)" for ub' k
    using bits(2) assms(2) by (simp add: key_index_def m'_def hash_bits_def)
  have wf: "hm_wf m'"
    using bits nb len size idx by (auto simp: hm_wf_def m'_def f_def)
  have "matches m' key = rev (matches m key)" for key
  proof -
    have same: "f e = key_index ub m' key" if "equal (fst e) key" for e
      using hash_equal [OF that] idx by (simp add: f_def)
    have "matches m' key = filter (\<lambda>e. equal (fst e) key) (nb ! key_index ub m' key)"
      using live_matches(2) [OF wf, where bs = nb and ub = ub and key = key] assms(2,3) by (simp add: m'_def)
    also have "\<dots> = rev (filter (\<lambda>e. equal (fst e) key \<and> f e = key_index ub m' key) (all_entries m))"
      using nb(2) [of "key_index ub m' key"] hash_bits_less [OF bits(2,3)] idx by (simp add: rev_filter conj_commute)
    also have "\<dots> = rev (matches m key)"
      unfolding matches_def assms(3) using same by (metis (mono_tags, lifting) filter_cong)
    finally show ?thesis .
  qed
  moreover have "hashmap_grow True ub m = Inr (0, m')"
    using grow_eq [OF assms(1,4), of ub] assms(2) by (simp add: Let_def m'_def nb_def bits_def)
  ultimately show ?thesis
    using wf assms(2,3) cap by (auto simp: m'_def)
qed

text \<open>Replacing the chain of a key.\<close>

lemma matches_update:
  assumes "hm_wf m" and "buckets m = Live bs" and "hash_fn m = hash" and "equal_fn m = equal"
    and "h = key_index ub m key" and "\<forall>e \<in> set es. key_index 0 m (fst e) = h"
    and "n + length (bs ! h) = sz m + length es"
  shows "hm_wf (m\<lparr>buckets := Live (bs[h := es]), sz := n\<rparr>)"
    and "matches (m\<lparr>buckets := Live (bs[h := es]), sz := n\<rparr>) k =
      (if key_index ub m k = h then filter (\<lambda>e. equal (fst e) k) es else matches m k)"
proof -
  let ?m = "m\<lparr>buckets := Live (bs[h := es]), sz := n\<rparr>"
  have h: "h < length bs"
    using live_matches(1) [OF assms(1-4)] assms(5) by simp
  then show wf: "hm_wf ?m"
    using assms(1,2,6,7) length_concat_update [OF h, of es]
    by (auto simp: hm_wf_def nth_list_update simp del: length_concat)
  show "matches ?m k = (if key_index ub m k = h then filter (\<lambda>e. equal (fst e) k) es else matches m k)"
    using live_matches(2) [OF wf, where ub = ub and key = k] live_matches [OF assms(1-4), where ub = ub and key = k]
      assms(2-4) h by (simp add: nth_list_update)
qed

text \<open>An entry is put in front of its chain.\<close>

lemma add_matches:
  assumes "hm_wf m" and "buckets m = Live bs" and "hash_fn m = hash" and "equal_fn m = equal"
    and "h = key_index ub m key"
  shows "hm_wf (m\<lparr>buckets := Live (hashmap_add_entry h (key, val) bs), sz := sz m + 1\<rparr>)"
    and "matches (m\<lparr>buckets := Live (hashmap_add_entry h (key, val) bs), sz := sz m + 1\<rparr>) k =
      (if equal key k then [(key, val)] else []) @ matches m k"
proof -
  have bits: "0 < cap_bits m"
    using assms(1,2) by (simp add: hm_wf_def)
  have h: "h < length bs"
    using live_matches(1) [OF assms(1-4)] assms(5) by simp
  have placed: "\<forall>e \<in> set ((key, val) # bs ! h). key_index 0 m (fst e) = h"
    using assms(1,2,5) h key_index_ub [OF bits, of ub key] by (auto simp: hm_wf_def)
  note upd = matches_update [OF assms(1-5) placed, of "sz m + 1", simplified]
  show "hm_wf (m\<lparr>buckets := Live (hashmap_add_entry h (key, val) bs), sz := sz m + 1\<rparr>)"
    using upd(1) by (simp add: hashmap_add_entry_def)
  show "matches (m\<lparr>buckets := Live (hashmap_add_entry h (key, val) bs), sz := sz m + 1\<rparr>) k =
      (if equal key k then [(key, val)] else []) @ matches m k"
    using upd(2) [of k] live_matches(2) [OF assms(1-4), where ub = ub and key = k]
      equal_index [OF assms(3), of key k ub] assms(5) by (auto simp: hashmap_add_entry_def)
qed

text \<open>The first match is replaced or removed.\<close>

lemma filter_update_first:
  assumes "find_in equal key es = Some i"
  shows "filter (\<lambda>e. equal (fst e) k) (es[i := (key, val)]) =
      (if equal key k then (key, val) # tl (filter (\<lambda>e. equal (fst e) k) es) else filter (\<lambda>e. equal (fst e) k) es)"
    and "filter (\<lambda>e. equal (fst e) k) (take i es @ drop (Suc i) es) =
      (if equal key k then tl (filter (\<lambda>e. equal (fst e) k) es) else filter (\<lambda>e. equal (fst e) k) es)"
proof -
  note some = find_in_Some [OF assms]
  have es: "es = take i es @ es ! i # drop (Suc i) es"
    using some(1) by (rule id_take_nth_drop)
  have same: "equal (fst e) k \<longleftrightarrow> equal (fst e) key" if "equal key k" for e
    using that equal_sym equal_trans by blast
  have old: "equal (fst (es ! i)) k \<longleftrightarrow> equal key k"
    using some(3) equal_sym equal_trans by blast
  have before: "filter (\<lambda>e. equal (fst e) k) (take i es) = []" if "equal key k"
    using some(2) by (simp only: same [OF that])
  have split: "filter (\<lambda>e. equal (fst e) k) es = filter (\<lambda>e. equal (fst e) k) (take i es) @
      (if equal key k then [es ! i] else []) @ filter (\<lambda>e. equal (fst e) k) (drop (Suc i) es)"
    using arg_cong [OF es, of "filter (\<lambda>e. equal (fst e) k)"] old by simp
  have upd: "es[i := (key, val)] = take i es @ (key, val) # drop (Suc i) es"
    using some(1) by (rule upd_conv_take_nth_drop)
  show "filter (\<lambda>e. equal (fst e) k) (es[i := (key, val)]) =
      (if equal key k then (key, val) # tl (filter (\<lambda>e. equal (fst e) k) es) else filter (\<lambda>e. equal (fst e) k) es)"
    unfolding upd split using before by simp
  show "filter (\<lambda>e. equal (fst e) k) (take i es @ drop (Suc i) es) =
      (if equal key k then tl (filter (\<lambda>e. equal (fst e) k) es) else filter (\<lambda>e. equal (fst e) k) es)"
    unfolding split using before by simp
qed

lemma first_match_placed:
  assumes "hm_wf m" and "buckets m = Live bs" and "hash_fn m = hash" and "equal_fn m = equal"
  shows "\<forall>e \<in> set (bs ! key_index ub m key). key_index 0 m (fst e) = key_index ub m key"
    and "key_index 0 m key = key_index ub m key"
  using live_matches(1) [OF assms, of ub key] assms(1,2) key_index_ub [of m ub key]
  by (auto simp: hm_wf_def)

lemma chain_update:
  assumes "hm_wf m" and "buckets m = Live bs" and "hash_fn m = hash" and "equal_fn m = equal"
    and "xs = (if equal key k then f (filter (\<lambda>e. equal (fst e) k) (bs ! key_index ub m key))
               else filter (\<lambda>e. equal (fst e) k) (bs ! key_index ub m key))"
  shows "(if key_index ub m k = key_index ub m key then xs else matches m k) =
    (if equal key k then f (matches m k) else matches m k)"
proof (cases "key_index ub m k = key_index ub m key")
  case True
  then show ?thesis
    using live_matches(2) [OF assms(1-4), where ub = ub and key = k] by (simp add: assms(5))
next
  case False
  then have "\<not> equal key k"
    using equal_index [OF assms(3), of key k ub] by auto
  then show ?thesis
    using False by simp
qed

lemma set_matches:
  assumes "hm_wf m" and "buckets m = Live bs" and "hash_fn m = hash" and "equal_fn m = equal"
    and "find_in equal key (bs ! key_index ub m key) = Some i"
  shows "hm_wf (set_chain (key_index ub m key) ((bs ! key_index ub m key)[i := (key, val)]) m)"
    and "matches (set_chain (key_index ub m key) ((bs ! key_index ub m key)[i := (key, val)]) m) k =
      (if equal key k then (key, val) # tl (matches m k) else matches m k)"
proof -
  let ?h = "key_index ub m key"
  note placed = first_match_placed [OF assms(1-4), where ub = ub and key = key]
  have in_place: "\<forall>e \<in> set ((bs ! ?h)[i := (key, val)]). key_index 0 m (fst e) = ?h"
  proof
    fix e assume "e \<in> set ((bs ! ?h)[i := (key, val)])"
    then have "e = (key, val) \<or> e \<in> set (bs ! ?h)"
      using set_update_subset_insert [of "bs ! ?h" i "(key, val)"] by blast
    then show "key_index 0 m (fst e) = ?h"
      using placed by (metis fst_conv)
  qed
  have len: "sz m + length (bs ! ?h) = sz m + length ((bs ! ?h)[i := (key, val)])"
    by simp
  note upd = matches_update [OF assms(1-4) refl in_place len]
  have eq: "set_chain ?h ((bs ! ?h)[i := (key, val)]) m =
      m\<lparr>buckets := Live (bs[?h := (bs ! ?h)[i := (key, val)]]), sz := sz m\<rparr>"
    using assms(2) by (simp add: set_chain_def)
  show "hm_wf (set_chain ?h ((bs ! ?h)[i := (key, val)]) m)"
    unfolding eq by (rule upd(1))
  show "matches (set_chain ?h ((bs ! ?h)[i := (key, val)]) m) k =
      (if equal key k then (key, val) # tl (matches m k) else matches m k)"
    unfolding eq upd(2)
    by (rule chain_update [OF assms(1-4), where f = "\<lambda>es. (key, val) # tl es"])
      (rule filter_update_first(1) [OF assms(5)])
qed

lemma del_matches:
  assumes "hm_wf m" and "buckets m = Live bs" and "hash_fn m = hash" and "equal_fn m = equal"
    and "find_in equal key (bs ! key_index ub m key) = Some i"
  shows "hm_wf (m\<lparr>buckets := Live (hashmap_del_entry (key_index ub m key) i bs), sz := sz m - 1\<rparr>)"
    and "matches (m\<lparr>buckets := Live (hashmap_del_entry (key_index ub m key) i bs), sz := sz m - 1\<rparr>) k =
      (if equal key k then tl (matches m k) else matches m k)"
proof -
  let ?h = "key_index ub m key"
  let ?es = "take i (bs ! ?h) @ drop (Suc i) (bs ! ?h)"
  have i: "i < length (bs ! ?h)"
    by (rule find_in_Some(1) [OF assms(5)])
  have h: "?h < length bs"
    by (rule live_matches(1) [OF assms(1-4)])
  have "length (bs ! ?h) \<le> sz m"
    using length_concat_update [OF h, of "[]"] assms(1,2) by (simp add: hm_wf_def del: length_concat)
  then have len: "sz m - 1 + length (bs ! ?h) = sz m + length ?es"
    using i by simp
  have "\<forall>e \<in> set ?es. key_index 0 m (fst e) = ?h"
    using first_match_placed(1) [OF assms(1-4), where ub = ub and key = key] by (auto dest: in_set_takeD in_set_dropD)
  note upd = matches_update [OF assms(1-4) refl this len]
  show "hm_wf (m\<lparr>buckets := Live (hashmap_del_entry ?h i bs), sz := sz m - 1\<rparr>)"
    unfolding hashmap_del_entry_def by (rule upd(1))
  show "matches (m\<lparr>buckets := Live (hashmap_del_entry ?h i bs), sz := sz m - 1\<rparr>) k =
      (if equal key k then tl (matches m k) else matches m k)"
    unfolding hashmap_del_entry_def upd(2)
    by (rule chain_update [OF assms(1-4), where f = tl]) (rule filter_update_first(2) [OF assms(5)])
qed

text \<open>A search finds the first match or there is none.\<close>

lemma found_cases:
  assumes "hm_wf m" and "hash_fn m = hash" and "equal_fn m = equal"
    and "hashmap_find_entry m key (key_index ub m key) = Inr None \<Longrightarrow> matches m key = [] \<Longrightarrow> P"
    and "\<And>bs i. buckets m = Live bs \<Longrightarrow> hashmap_find_entry m key (key_index ub m key) = Inr (Some i) \<Longrightarrow>
      find_in equal key (bs ! key_index ub m key) = Some i \<Longrightarrow> matches m key \<noteq> [] \<Longrightarrow>
      hd (matches m key) = bs ! key_index ub m key ! i \<Longrightarrow> P"
  shows P
proof (cases "buckets m")
  case Null
  then show ?thesis
    by (intro assms(4)) (simp_all add: hashmap_find_entry_def null_matches)
next
  case Freed
  then show ?thesis
    using assms(1) by (simp add: hm_wf_def)
next
  case (Live bs)
  note entry = find_entry_live [OF assms(1) Live assms(2,3), of key ub]
  note live = live_matches(2) [OF assms(1) Live assms(2,3), where ub = ub and key = key]
  show ?thesis
  proof (cases "find_in equal key (bs ! key_index ub m key)")
    case None
    then show ?thesis
      using entry live find_in_None [of equal key "bs ! key_index ub m key"] by (intro assms(4)) simp_all
  next
    case (Some i)
    then show ?thesis
      using entry live find_in_matches [OF Some] by (intro assms(5) [OF Live _ Some]) simp_all
  qed
qed

text \<open>Inserting an entry, with the growing that may come first.\<close>

lemma place_matches:
  assumes "hm_wf m" and "buckets m = Live bs" and "hash_fn m = hash" and "equal_fn m = equal"
  shows "\<exists>m'. (if \<not> entry_alloc then Inr (- ENOMEM, m)
      else (case buckets m of
          Live bs \<Rightarrow>
            if key_index ub m key < length bs
            then Inr (0, m\<lparr>buckets := Live (hashmap_add_entry (key_index ub m key) (key, val) bs), sz := sz m + 1\<rparr>)
            else Inl Bad_index
        | _ \<Rightarrow> Inl Use_after_free)) = Inr (if entry_alloc then 0 else - ENOMEM, m') \<and>
    hm_wf m' \<and> hash_fn m' = hash \<and> equal_fn m' = equal \<and> cap m' = cap m \<and> sz m' \<le> Suc (sz m) \<and>
    (\<forall>k. matches m' k = (if entry_alloc \<and> equal key k then [(key, val)] else []) @ matches m k)"
  using add_matches [OF assms refl, of ub key val] live_matches(1) [OF assms, of ub key] assms
  by (cases entry_alloc) auto

lemma insert_new_matches:
  assumes "hm_wf m" and "hash_fn m = hash" and "equal_fn m = equal" and "cap_bits m < 31"
  shows "\<exists>m'. insert_new grow_alloc entry_alloc ub m key val (key_index ub m key) =
      Inr (if inserts grow_alloc entry_alloc m then 0 else - ENOMEM, m') \<and>
    hm_wf m' \<and> hash_fn m' = hash \<and> equal_fn m' = equal \<and> (\<forall>n. within n m \<longrightarrow> within (Suc n) m') \<and>
    (\<forall>k. matches m' k = (if inserts grow_alloc entry_alloc m \<and> equal key k then [(key, val)] else []) @
       grown grow_alloc m (matches m k))"
proof (cases "hashmap_needs_to_grow m")
  case False
  then obtain bs where bs: "buckets m = Live bs"
    using assms(1) by (cases "buckets m") (auto simp: hm_wf_def hashmap_needs_to_grow_def)
  show ?thesis
    using place_matches [OF assms(1) bs assms(2,3), of entry_alloc ub key val] False
    by (auto simp: insert_new_def inserts_def grown_def within_def)
next
  case True
  show ?thesis
  proof (cases grow_alloc)
    case False
    then show ?thesis
      using True assms by (simp add: insert_new_def hashmap_grow_def inserts_def grown_def within_def Let_def)
  next
    case ga: True
    obtain m1 bs where m1: "hashmap_grow True ub m = Inr (0, m1)" "hm_wf m1" "hash_fn m1 = hash"
      "equal_fn m1 = equal" "buckets m1 = Live bs" "cap m1 = max (2 * cap m) 4" "sz m1 = sz m"
      "\<forall>key. matches m1 key = rev (matches m key)"
      using hashmap_grow_matches [OF assms, of ub] by auto
    obtain m' where m': "insert_new grow_alloc entry_alloc ub m key val (key_index ub m key) =
        Inr (if entry_alloc then 0 else - ENOMEM, m')" "hm_wf m'" "hash_fn m' = hash" "equal_fn m' = equal"
      "cap m' = cap m1" "sz m' \<le> Suc (sz m)"
      "\<forall>k. matches m' k = (if entry_alloc \<and> equal key k then [(key, val)] else []) @ rev (matches m k)"
      using place_matches [OF m1(2,5,3,4), of entry_alloc ub key val] True ga m1
      by (auto simp: insert_new_def)
    then have "within (Suc n) m'" if "within n m" for n
      using grow_within [OF True that] m1(6) by (simp add: within_def)
    then show ?thesis
      using m' True ga by (auto simp: inserts_def grown_def)
  qed
qed

text \<open>The whole of \<open>hashmap__insert\<close>: what it returns, and the matches of every key afterwards.\<close>

lemma hashmap_insert_matches:
  assumes "hm_wf m" and "hash_fn m = hash" and "equal_fn m = equal" and "cap_bits m < 31"
  shows "\<exists>err old m'. hashmap__insert grow_alloc entry_alloc ub m key val strategy = Inr (err, old, m') \<and>
    hm_wf m' \<and> hash_fn m' = hash \<and> equal_fn m' = equal \<and> (\<forall>n. within n m \<longrightarrow> within (Suc n) m') \<and>
    (if strategy \<noteq> HASHMAP_APPEND \<and> matches m key \<noteq> []
     then old = Some (hd (matches m key)) \<and>
       (if strategy = HASHMAP_ADD then err = - EEXIST \<and> m' = m
        else err = 0 \<and> (\<forall>k. matches m' k = (if equal key k then (key, val) # tl (matches m k) else matches m k)))
     else old = None \<and>
       (if strategy = HASHMAP_UPDATE then err = - ENOENT_hm \<and> m' = m
        else err = (if inserts grow_alloc entry_alloc m then 0 else - ENOMEM) \<and>
          (\<forall>k. matches m' k = (if err = 0 \<and> equal key k then [(key, val)] else []) @
             grown grow_alloc m (matches m k))))"
proof -
  let ?h = "key_index ub m key"
  show ?thesis
  proof (rule found_cases [OF assms(1-3), of key ub])
    assume none: "hashmap_find_entry m key ?h = Inr None" "matches m key = []"
    then show ?thesis
      using insert_new_matches [OF assms, of grow_alloc entry_alloc ub key val] assms within_Suc
      by (cases strategy) (auto simp: hashmap__insert_def Let_def)
  next
    fix bs i assume some: "buckets m = Live bs" "hashmap_find_entry m key ?h = Inr (Some i)"
      "find_in equal key (bs ! ?h) = Some i" "matches m key \<noteq> []" "hd (matches m key) = bs ! ?h ! i"
    note set = set_matches [OF assms(1) some(1) assms(2,3) some(3), of val]
    show ?thesis
      using some set insert_new_matches [OF assms, of grow_alloc entry_alloc ub key val] assms within_Suc
      by (cases strategy) (auto simp: hashmap__insert_def chain_def Let_def)
  qed
qed

text \<open>Deleting the first match.\<close>

lemma hashmap_delete_matches:
  assumes "hm_wf m" and "hash_fn m = hash" and "equal_fn m = equal"
  shows "\<exists>old m'. hashmap__delete ub m key = Inr (old, m') \<and> hm_wf m' \<and> hash_fn m' = hash \<and>
    equal_fn m' = equal \<and> (\<forall>n. within n m \<longrightarrow> within n m') \<and> old = (if matches m key = [] then None else Some (hd (matches m key))) \<and>
    (\<forall>k. matches m' k = (if equal key k then tl (matches m k) else matches m k))"
proof -
  let ?h = "key_index ub m key"
  show ?thesis
  proof (rule found_cases [OF assms, of key ub])
    assume none: "hashmap_find_entry m key ?h = Inr None" "matches m key = []"
    then have "matches m k = []" if "equal key k" for k
      using matches_equal [OF assms(3) that] by simp
    then show ?thesis
      using none assms by (simp add: hashmap__delete_def)
  next
    fix bs i assume some: "buckets m = Live bs" "hashmap_find_entry m key ?h = Inr (Some i)"
      "find_in equal key (bs ! ?h) = Some i" "matches m key \<noteq> []" "hd (matches m key) = bs ! ?h ! i"
    let ?m = "m\<lparr>buckets := Live (hashmap_del_entry ?h i bs), sz := sz m - 1\<rparr>"
    have "hashmap__delete ub m key = Inr (Some (bs ! ?h ! i), ?m)"
      using some by (simp add: hashmap__delete_def chain_def Let_def)
    then show ?thesis
      using some(4,5) del_matches [OF assms(1) some(1) assms(2,3) some(3)] assms(2,3)
      by (intro exI [of _ "Some (bs ! ?h ! i)"] exI [of _ ?m]) (auto simp: within_def)
  qed
qed

text \<open>Sequences of calls.\<close>

lemma hm_step_wf:
  assumes "hm_wf m" and "hash_fn m = hash" and "equal_fn m = equal" and "within n m" and "n < 2 ^ 29"
  shows "\<exists>m'. hm_step ub c m = Inr m' \<and> hm_wf m' \<and> hash_fn m' = hash \<and> equal_fn m' = equal \<and>
    within (Suc n) m'"
proof (cases c)
  case (Insert ga ea key val strategy)
  show ?thesis
    using hashmap_insert_matches [OF assms(1-3) within_bits [OF assms(1,4,5)], of ga ea ub key val strategy]
      assms(4) by (auto simp: hm_step_def Insert)
next
  case (Delete key)
  show ?thesis
    using hashmap_delete_matches [OF assms(1-3), of ub key] assms(4) within_Suc by (fastforce simp: hm_step_def Delete)
next
  case (Find key)
  show ?thesis
    using hashmap_find_matches [OF assms(1-3), of ub key] assms within_Suc by (simp add: hm_step_def Find)
qed

lemma hm_run_wf:
  assumes "hm_wf m" and "hash_fn m = hash" and "equal_fn m = equal" and "within n m"
    and "n + length cs < 2 ^ 29"
  shows "\<exists>m'. hm_run ub cs m = Inr m' \<and> hm_wf m' \<and> hash_fn m' = hash \<and> equal_fn m' = equal \<and>
    within (n + length cs) m'"
  using assms
proof (induction cs arbitrary: m n)
  case Nil
  then show ?case
    by simp
next
  case (Cons c cs)
  obtain m1 where m1: "hm_step ub c m = Inr m1" "hm_wf m1" "hash_fn m1 = hash" "equal_fn m1 = equal"
    "within (Suc n) m1"
    using hm_step_wf [OF Cons.prems(1-4)] Cons.prems(5) by auto
  have "Suc n + length cs < 2 ^ 29"
    using Cons.prems(5) by simp
  then show ?case
    using Cons.IH [OF m1(2-5)] m1(1) by simp
qed

text \<open>On a table without duplicates, insertion is the update of a map.\<close>

lemma unique_keys:
  assumes "unique m"
  shows "tl (matches m k) = []" and "rev (matches m k) = matches m k"
  using assms [unfolded unique_def, rule_format, of k] by (cases "matches m k"; simp)+

lemma hashmap_insert_map:
  assumes "hm_wf m" and "hash_fn m = hash" and "equal_fn m = equal" and "cap_bits m < 31"
    and "unique m" and "strategy \<noteq> HASHMAP_APPEND"
  shows "\<exists>err old m'. hashmap__insert grow_alloc entry_alloc ub m key val strategy = Inr (err, old, m') \<and>
    hm_wf m' \<and> hash_fn m' = hash \<and> equal_fn m' = equal \<and> unique m' \<and>
    (\<forall>n. within n m \<longrightarrow> within (Suc n) m') \<and> map_option snd old = map_of_hm m key \<and>
    err = (if map_of_hm m key \<noteq> None then (if strategy = HASHMAP_ADD then - EEXIST else 0)
           else if strategy = HASHMAP_UPDATE then - ENOENT_hm
           else if inserts grow_alloc entry_alloc m then 0 else - ENOMEM) \<and>
    map_of_hm m' = (\<lambda>k. if err = 0 \<and> equal key k then Some val else map_of_hm m k)"
proof -
  note u = unique_keys [OF assms(5)]
  obtain err old m' where ins: "hashmap__insert grow_alloc entry_alloc ub m key val strategy = Inr (err, old, m')"
    "hm_wf m'" "hash_fn m' = hash" "equal_fn m' = equal" "\<forall>n. within n m \<longrightarrow> within (Suc n) m'"
    and res: "if matches m key \<noteq> []
     then old = Some (hd (matches m key)) \<and>
       (if strategy = HASHMAP_ADD then err = - EEXIST \<and> m' = m
        else err = 0 \<and> (\<forall>k. matches m' k = (if equal key k then (key, val) # tl (matches m k) else matches m k)))
     else old = None \<and>
       (if strategy = HASHMAP_UPDATE then err = - ENOENT_hm \<and> m' = m
        else err = (if inserts grow_alloc entry_alloc m then 0 else - ENOMEM) \<and>
          (\<forall>k. matches m' k = (if err = 0 \<and> equal key k then [(key, val)] else []) @
             grown grow_alloc m (matches m k)))"
    using hashmap_insert_matches [OF assms(1-4), of grow_alloc entry_alloc ub key val strategy] assms(6) by auto
  have same: "matches m k = matches m key" if "equal key k" for k
    using matches_equal [OF assms(3) that] by simp
  have new: "matches m' k = (if err = 0 \<and> equal key k then [(key, val)] else matches m k)" for k
    using res u same [of k] by (auto simp: grown_def split: if_splits)
  have "unique m'"
    using assms(5) by (simp add: unique_def new)
  moreover have "map_of_hm m' = (\<lambda>k. if err = 0 \<and> equal key k then Some val else map_of_hm m k)"
    by (simp add: map_of_hm_def new fun_eq_iff)
  moreover have "map_option snd old = map_of_hm m key"
    using res by (cases "matches m key") (auto simp: map_of_hm_def)
  moreover have "map_of_hm m key \<noteq> None \<longleftrightarrow> matches m key \<noteq> []"
    by (cases "matches m key") (auto simp: map_of_hm_def)
  ultimately show ?thesis
    using ins res by auto
qed

lemma hashmap_delete_map:
  assumes "hm_wf m" and "hash_fn m = hash" and "equal_fn m = equal" and "unique m"
  shows "\<exists>old m'. hashmap__delete ub m key = Inr (old, m') \<and> hm_wf m' \<and> hash_fn m' = hash \<and>
    equal_fn m' = equal \<and> unique m' \<and> map_option snd old = map_of_hm m key \<and>
    map_of_hm m' = (\<lambda>k. if equal key k then None else map_of_hm m k)"
proof -
  obtain old m' where del: "hashmap__delete ub m key = Inr (old, m')" "hm_wf m'" "hash_fn m' = hash"
    "equal_fn m' = equal" "old = (if matches m key = [] then None else Some (hd (matches m key)))"
    and new: "\<forall>k. matches m' k = (if equal key k then tl (matches m k) else matches m k)"
    using hashmap_delete_matches [OF assms(1-3), of ub key] by blast
  have "unique m'" "map_of_hm m' = (\<lambda>k. if equal key k then None else map_of_hm m k)"
    using assms(4) unique_keys [OF assms(4)] by (auto simp: unique_def map_of_hm_def new fun_eq_iff)
  moreover have "map_option snd old = map_of_hm m key"
    using del(5) by (cases "matches m key") (auto simp: map_of_hm_def)
  ultimately show ?thesis
    using del(1-4) by blast
qed

end

section \<open>Strings as keys\<close>

interpretation str: hash_keys str_hash_fn str_equal_fn
  by unfold_locales (auto simp: str_equal_fn_def)

text \<open>The table of names holds for every name how often it was asked for.\<close>

definition counts_names :: "(string \<Rightarrow> nat) \<Rightarrow> nat \<Rightarrow> (string, nat) hashmap \<Rightarrow> bool" where
  "counts_names c n m =
     (hm_wf m \<and> hash_fn m = str_hash_fn \<and> equal_fn m = str_equal_fn \<and> unique m \<and> within n m \<and>
      (\<forall>name. map_of_hm m name = (if c name = 0 then None else Some (c name))))"

lemma counts_names_init: "counts_names (\<lambda>_. 0) 0 (hashmap__init str_hash_fn str_equal_fn)"
  by (simp add: counts_names_def hm_wf_init init_fields unique_def map_of_hm_def)

lemma btf_dump_name_dups_counts:
  assumes "counts_names c n m" and "n < 2 ^ 29"
  shows "\<exists>m'. btf_dump_name_dups True True ub m name = Inr (c name + 1, m') \<and>
    counts_names (c(name := c name + 1)) (Suc n) m'"
proof -
  have m: "hm_wf m" "hash_fn m = str_hash_fn" "equal_fn m = str_equal_fn" "unique m" "within n m"
    and c: "map_of_hm m k = (if c k = 0 then None else Some (c k))" for k
    using assms(1) by (simp_all add: counts_names_def)
  have found: "hashmap__find ub m name = Inr (map_of_hm m name)"
    using str.hashmap_find_matches [OF m(1-3)] by (simp add: map_of_hm_def)
  obtain old m' where "hashmap__insert True True ub m name (c name + 1) HASHMAP_SET = Inr (0, old, m')"
    "hm_wf m'" "hash_fn m' = str_hash_fn" "equal_fn m' = str_equal_fn" "unique m'" "within (Suc n) m'"
    "map_of_hm m' = (\<lambda>k. if str_equal_fn name k then Some (c name + 1) else map_of_hm m k)"
    using str.hashmap_insert_map [OF m(1-3) within_bits [OF m(1,5) assms(2)] m(4),
        of HASHMAP_SET True True ub name "c name + 1"] m(5)
    by (auto simp: inserts_def)
  then show ?thesis
    using c by (auto simp: btf_dump_name_dups_def found counts_names_def str_equal_fn_def)
qed

lemma number_names_counts:
  assumes "counts_names c n m" and "n + length names < 2 ^ 29"
  shows "number_names ub names m =
    Inr (map (\<lambda>i. c (names ! i) + count_list (take (Suc i) names) (names ! i)) [0..<length names])"
  using assms
proof (induction names arbitrary: c n m)
  case Nil
  then show ?case
    by simp
next
  case (Cons name names)
  obtain m1 where m1: "btf_dump_name_dups True True ub m name = Inr (c name + 1, m1)"
    "counts_names (c(name := c name + 1)) (Suc n) m1"
    using btf_dump_name_dups_counts [OF Cons.prems(1)] Cons.prems(2) by auto
  have "Suc n + length names < 2 ^ 29"
    using Cons.prems(2) by simp
  note IH = Cons.IH [OF m1(2) this]
  show ?case
    by (simp add: m1(1) IH map_upt_Suc del: upt_Suc)
qed

end
