(* ===== verification/Hashmap_Props.thy ===== *)
theory Hashmap_Props
  imports Hashmap_Facts
begin

text \<open>
  The properties of the hash table of libbpf and of the client that numbers names with it.  The
  functions of the caller are any pair that satisfies the contract \<open>hash_keys\<close>; the witnesses use
  the strings of \<open>btf_dump.c\<close>.
\<close>

text \<open>
  C35.  Typing of the table.  Starting from \<open>hashmap__init\<close>, no sequence of fewer than \<open>2 ^ 29\<close>
  insertions, deletions and lookups, with allocations that succeed or fail in any pattern, touches
  memory outside the array of chains or memory that was freed or overflows the counter of the loop
  over the chains, and the table it ends with is well
  formed: the array has \<open>2 ^ cap_bits\<close> chains, \<open>sz\<close> counts the entries, every entry is in the chain
  of its key, and the capacity stays within three times the number of calls.
\<close>

theorem hashmap_calls_keep_type:
  assumes "hash_keys hash equal" and "length cs < 2 ^ 29"
  shows "\<exists>m. hm_run ub cs (hashmap__init hash equal) = Inr m \<and> hm_wf m \<and> sz m \<le> length cs \<and>
    cap m \<le> 4 + 3 * length cs"
  using hash_keys.hm_run_wf [OF assms(1) hm_wf_init(1) init_fields(1,2,3), of 0 cs ub] assms(2)
  by (auto simp: within_def)

theorem hashmap_calls_keep_type_witness:
  "\<exists>m. hm_run 0 [Insert True True ''int'' (1 :: nat) HASHMAP_ADD, Insert False True ''char'' 2 HASHMAP_SET,
      Delete ''int'', Find ''char''] (hashmap__init str_hash_fn str_equal_fn) = Inr m \<and> hm_wf m"
  using hashmap_calls_keep_type [OF str.hash_keys_axioms,
      of "[Insert True True ''int'' (1 :: nat) HASHMAP_ADD, Insert False True ''char'' 2 HASHMAP_SET,
        Delete ''int'', Find ''char'']" 0]
  by (auto simp del: hm_run.simps)

text \<open>
  C36.  The table implements a finite map.  On a table without duplicate keys every insertion but
  \<open>HASHMAP_APPEND\<close> returns the error its strategy documents, delivers the old value, leaves a table
  without duplicates, and is the update of the map when it returns 0 and changes nothing of the map
  otherwise, also when an allocation fails or the table, of at most \<open>2 ^ 30\<close> chains, grows; afterwards \<open>hashmap__find\<close> delivers
  for every key what the map holds.
\<close>

theorem hashmap_insert_refines_map:
  assumes "hash_keys hash equal" and "hm_wf m" and "hash_fn m = hash" and "equal_fn m = equal"
    and "cap_bits m < 31" and "unique m" and "strategy \<noteq> HASHMAP_APPEND"
  shows "\<exists>err old m'. hashmap__insert grow_alloc entry_alloc ub m key val strategy = Inr (err, old, m') \<and>
    hm_wf m' \<and> unique m' \<and> map_option snd old = map_of_hm m key \<and>
    err = (if map_of_hm m key \<noteq> None then (if strategy = HASHMAP_ADD then - EEXIST else 0)
           else if strategy = HASHMAP_UPDATE then - ENOENT_hm
           else if inserts grow_alloc entry_alloc m then 0 else - ENOMEM) \<and>
    map_of_hm m' = (\<lambda>k. if err = 0 \<and> equal key k then Some val else map_of_hm m k) \<and>
    (\<forall>k. hashmap__find ub m' k = Inr (map_of_hm m' k))"
  using hash_keys.hashmap_insert_map [OF assms, of grow_alloc entry_alloc ub key val]
    hash_keys.hashmap_find_matches [OF assms(1), where ub = ub]
  unfolding map_of_hm_def by blast

theorem hashmap_insert_refines_map_witness:
  "\<exists>err old m'. hashmap__insert True True 7 (hashmap__init str_hash_fn str_equal_fn) ''int'' (3 :: nat)
      HASHMAP_ADD = Inr (err, old, m') \<and> err = 0 \<and> hashmap__find 7 m' ''int'' = Inr (Some 3) \<and>
      hashmap__find 7 m' ''char'' = Inr None"
  using hashmap_insert_refines_map [OF str.hash_keys_axioms hm_wf_init(1) init_fields(1,2) _ init_fields(4),
      of HASHMAP_ADD True True 7 "''int''" "3 :: nat"]
  by (auto simp: init_fields inserts_def str_equal_fn_def)

text \<open>
  C37.  Numbering of duplicate names.  Asked for a list of fewer than \<open>2 ^ 29\<close> names one after the other,
  \<open>btf_dump_name_dups\<close> answers for each how often it has been asked for so far, this time included.
\<close>

theorem btf_dump_name_dups_numbers:
  assumes "length names < 2 ^ 29"
  shows "number_names ub names (hashmap__init str_hash_fn str_equal_fn) =
    Inr (map (\<lambda>i. count_list (take (Suc i) names) (names ! i)) [0..<length names])"
  using number_names_counts [OF counts_names_init, of names ub] assms by simp

theorem btf_dump_name_dups_numbers_witness:
  "number_names 5 [''list'', ''node'', ''list'', ''list''] (hashmap__init str_hash_fn str_equal_fn) =
    Inr [1, 1, 2, 3]"
  using btf_dump_name_dups_numbers [of "[''list'', ''node'', ''list'', ''list'']" 5]
  by (simp add: upt_rec)

text \<open>
  C38.  Growing turns the order of equal keys around.  \<open>hashmap.h\<close> says of a table built with
  \<open>HASHMAP_APPEND\<close> that \<open>hashmap__find\<close> delivers the entry inserted last.  When the insertion of
  another key makes the table, of at most \<open>2 ^ 30\<close> chains, grow, it delivers the oldest instead.
\<close>

theorem hashmap_growth_order:
  assumes "hash_keys hash equal" and "hm_wf m" and "hash_fn m = hash" and "equal_fn m = equal"
    and "cap_bits m < 31" and "hashmap_needs_to_grow m" and "matches m key \<noteq> []"
    and "\<not> equal other key"
  shows "\<exists>m'. hashmap__insert True True ub m other val HASHMAP_APPEND = Inr (0, None, m') \<and>
    hashmap__find ub m key = Inr (Some (snd (hd (matches m key)))) \<and>
    hashmap__find ub m' key = Inr (Some (snd (last (matches m key))))"
proof -
  obtain m' where m': "hashmap__insert True True ub m other val HASHMAP_APPEND = Inr (0, None, m')"
    "hm_wf m'" "hash_fn m' = hash" "equal_fn m' = equal" "matches m' key = rev (matches m key)"
    using hash_keys.hashmap_insert_matches [OF assms(1-5), of True True ub other val HASHMAP_APPEND] assms(6,8)
    by (auto simp: inserts_def grown_def)
  show ?thesis
    using m'(1,5) assms(7) hash_keys.hashmap_find_matches [OF assms(1-4), of ub key]
      hash_keys.hashmap_find_matches [OF assms(1) m'(2-4), of ub key]
    by (simp add: first_value_hd hd_rev)
qed

definition full_table :: "(string, nat) hashmap" where
  "full_table =
     \<lparr>hash_fn = str_hash_fn, equal_fn = str_equal_fn,
      buckets = Live [[], [], [(''b'', 3), (''b'', 2), (''b'', 1)], []], cap = 4, cap_bits = 2, sz = 3\<rparr>"

lemma full_table_facts:
  "hm_wf full_table" "hash_fn full_table = str_hash_fn" "equal_fn full_table = str_equal_fn"
  "cap_bits full_table = 2" "hashmap_needs_to_grow full_table"
  "matches full_table ''b'' = [(''b'', 3), (''b'', 2), (''b'', 1)]"
proof -
  have "key_index 0 full_table ''b'' = 2"
    by (simp add: key_index_def full_table_def hash_bits_def str_hash_fn_def)
  then show "hm_wf full_table"
    by (simp add: hm_wf_def full_table_def All_less_Suc numeral_eq_Suc)
qed (simp_all add: full_table_def hashmap_needs_to_grow_def matches_def all_entries_def str_equal_fn_def)

theorem hashmap_growth_order_witness:
  "\<exists>m'. hashmap__insert True True 0 full_table ''a'' 9 HASHMAP_APPEND = Inr (0, None, m') \<and>
    hashmap__find 0 full_table ''b'' = Inr (Some 3) \<and> hashmap__find 0 m' ''b'' = Inr (Some 1)"
  using hashmap_growth_order [OF str.hash_keys_axioms full_table_facts(1-3) _ full_table_facts(5), of "''b''" "''a''" 0 9]
  by (simp add: full_table_facts str_equal_fn_def)

text \<open>
  C39.  A table of \<open>2 ^ 31\<close> chains or more cannot grow.  When the array for the new chains has been
  allocated, the insertion of a key that makes the table grow counts the old chains with an \<open>int\<close>
  and increments it past its greatest value.
\<close>

theorem hashmap_growth_overflows:
  assumes "hash_keys hash equal" and "hm_wf m" and "hash_fn m = hash" and "equal_fn m = equal"
    and "31 \<le> cap_bits m" and "cap_bits m < 63" and "hashmap_needs_to_grow m"
    and "strategy = HASHMAP_APPEND \<or> matches m key = [] \<and> strategy \<noteq> HASHMAP_UPDATE"
  shows "hashmap__insert True entry_alloc ub m key val strategy = Inl Int_overflow"
proof -
  have "hashmap_find_entry m key (key_index ub m key) = Inr None" if "matches m key = []"
    using hash_keys.found_cases [OF assms(1-4), of key ub] that by blast
  then show ?thesis
    using assms(7,8) grow_overflows [OF assms(2,5,6), of ub]
    by (auto simp: hashmap__insert_def insert_new_def Let_def)
qed

text \<open>A table with \<open>2 ^ bits\<close> chains that holds one key \<open>n\<close> times.\<close>

definition one_chain :: "nat \<Rightarrow> nat \<Rightarrow> (string, nat) hashmap" where
  "one_chain bits n =
     \<lparr>hash_fn = str_hash_fn, equal_fn = str_equal_fn,
      buckets = Live ((replicate (2 ^ bits) [])
        [unat (hash_bits 0 (str_hash_fn ''b'') bits) := replicate n (''b'', 1)]),
      cap = 2 ^ bits, cap_bits = bits, sz = n\<rparr>"

lemma one_chain_fields:
  "hash_fn (one_chain bits n) = str_hash_fn" "equal_fn (one_chain bits n) = str_equal_fn"
  "cap_bits (one_chain bits n) = bits"
  by (simp_all add: one_chain_def)

lemma one_chain_wf: "2 \<le> bits \<Longrightarrow> bits < 64 \<Longrightarrow> hm_wf (one_chain bits n)"
  using hash_bits_less [of bits 0 "str_hash_fn ''b''"]
    length_concat_update [of "unat (hash_bits 0 (str_hash_fn ''b'') bits)" "replicate (2 ^ bits) []"
      "replicate n (''b'', 1 :: nat)"]
  by (auto simp: hm_wf_def one_chain_def key_index_def nth_list_update simp del: length_concat)

lemma one_chain_grows: "2 ^ bits \<le> n \<Longrightarrow> hashmap_needs_to_grow (one_chain bits n)"
  by (simp add: hashmap_needs_to_grow_def one_chain_def)

theorem hashmap_growth_overflows_witness:
  "hashmap__insert True True 0 (one_chain 31 (2 ^ 31)) ''a'' 2 HASHMAP_APPEND = Inl Int_overflow"
  by (rule hashmap_growth_overflows [OF str.hash_keys_axioms one_chain_wf one_chain_fields(1,2)])
    (simp_all add: one_chain_fields one_chain_grows)

end
