(* ===== verification/Ksym.thy ===== *)
theory Ksym
  imports Elf_Maps "HOL-Library.Multiset"
begin

text \<open>
  The table of kernel symbols of \<open>trace_helpers.c\<close>: it is filled from the lines of
  \<open>/proc/kallsyms\<close>, sorted by address and searched by bisection.  Both comparisons cut the
  difference of two addresses to an \<open>int\<close>.
\<close>

section \<open>The table\<close>

record ksym =
  ks_addr :: int
  ks_name :: string

abbreviation MAX_SYMS :: nat where "MAX_SYMS \<equiv> 300000"
abbreviation ENOENT :: int where "ENOENT \<equiv> 2"

definition ksym_cmp :: "ksym \<Rightarrow> ksym \<Rightarrow> int" where
  "ksym_cmp p1 p2 = to_int32 (ks_addr p1 - ks_addr p2)"

text \<open>The conversions \<open>%p %c %s\<close> of a line: an address in hexadecimal, a character and a word.\<close>

definition hex_val :: "char \<Rightarrow> nat option" where
  "hex_val c =
     (let n = of_char c :: nat in
      if 48 \<le> n \<and> n \<le> 57 then Some (n - 48)
      else if 97 \<le> n \<and> n \<le> 102 then Some (n - 87)
      else if 65 \<le> n \<and> n \<le> 70 then Some (n - 55) else None)"

fun scan_hex :: "string \<Rightarrow> nat \<Rightarrow> nat \<times> string" where
  "scan_hex [] acc = (acc, [])"
| "scan_hex (c # cs) acc =
     (case hex_val c of Some d \<Rightarrow> scan_hex cs (16 * acc + d) | None \<Rightarrow> (acc, c # cs))"

definition scan_ptr :: "string \<Rightarrow> (u64 \<times> string) option" where
  "scan_ptr s =
     (let s = dropWhile isspace s;
          s = (if take 2 s = ''0x'' then drop 2 s else s);
          (n, rest) = scan_hex s 0 in
      if rest = s then None else Some (word_of_nat (min n (2 ^ 64 - 1)), rest))"

definition scan_line :: "string \<Rightarrow> (u64 \<times> char \<times> string) option" where
  "scan_line s =
     (case scan_ptr s of
        None \<Rightarrow> None
      | Some (addr, rest) \<Rightarrow>
          (case dropWhile isspace rest of
             [] \<Rightarrow> None
           | symbol # rest \<Rightarrow>
               let func = takeWhile (\<lambda>c. \<not> isspace c) (dropWhile isspace rest) in
               if func = [] then None else Some (addr, symbol, func)))"

text \<open>
  The loop over the lines.  A line of another form ends it, a null address is skipped, and a
  table that is full is overrun.
\<close>

fun read_syms :: "string list \<Rightarrow> ksym list \<Rightarrow> ksym list res" where
  "read_syms [] syms = Inr syms"
| "read_syms (buf # bufs) syms =
     (case scan_line buf of
        None \<Rightarrow> Inr syms
      | Some (addr, symbol, func) \<Rightarrow>
          if addr = 0 then read_syms bufs syms
          else if length syms < MAX_SYMS
          then read_syms bufs (syms @ [\<lparr>ks_addr = sint addr, ks_name = func\<rparr>])
          else Inl Buffer_overflow)"

text \<open>The file is None when it cannot be opened; the table is then left empty.\<close>

definition load_kallsyms :: "string list option \<Rightarrow> (int \<times> ksym list) res" where
  "load_kallsyms f =
     (case f of
        None \<Rightarrow> Inr (- ENOENT, [])
      | Some bufs \<Rightarrow> bind_res (read_syms bufs []) (\<lambda>syms. Inr (0, qsort ksym_cmp syms)))"

text \<open>
  The bisection; \<open>Inr\<close> an entry with the key, \<open>Inl\<close> the place where it would be.
\<close>

function ksym_loop :: "ksym list \<Rightarrow> int \<Rightarrow> nat \<Rightarrow> nat \<Rightarrow> nat + nat" where
  "ksym_loop syms key start stop =
     (if start < stop then
        let mid = start + (stop - start) div 2;
            result = to_int32 (key - ks_addr (syms ! mid)) in
        if result < 0 then ksym_loop syms key start mid
        else if result > 0 then ksym_loop syms key (mid + 1) stop
        else Inr mid
      else Inl start)"
  by pat_completeness auto
termination
  by (relation "measure (\<lambda>(syms, key, start, stop). stop - start)") auto

declare ksym_loop.simps [simp del]

text \<open>The rest of the array is zero.\<close>

definition sym_at :: "ksym list \<Rightarrow> nat \<Rightarrow> ksym res" where
  "sym_at syms i =
     (if i < length syms then Inr (syms ! i)
      else if i < MAX_SYMS then Inr \<lparr>ks_addr = 0, ks_name = []\<rparr> else Inl Out_of_bounds)"

definition ksym_search :: "ksym list \<Rightarrow> int \<Rightarrow> ksym option res" where
  "ksym_search syms key =
     (if syms = [] then Inr None
      else case ksym_loop syms key 0 (length syms) of
        Inr mid \<Rightarrow> Inr (Some (syms ! mid))
      | Inl start \<Rightarrow>
          if start \<ge> 1 \<and> ks_addr (syms ! (start - 1)) < key
          then bind_res (sym_at syms start) (\<lambda>s.
               if key < ks_addr s then Inr (Some (syms ! (start - 1))) else Inr (Some (syms ! 0)))
          else Inr (Some (syms ! 0)))"

fun ksym_get_addr :: "ksym list \<Rightarrow> string \<Rightarrow> int" where
  "ksym_get_addr [] name = 0"
| "ksym_get_addr (s # syms) name = (if ks_name s = name then ks_addr s else ksym_get_addr syms name)"

text \<open>The symbols of the lines, in their order, without those with a null address.\<close>

definition symbols :: "string list \<Rightarrow> ksym list" where
  "symbols bufs = concat (map (\<lambda>buf. case scan_line buf of
       None \<Rightarrow> []
     | Some (addr, _, func) \<Rightarrow> if addr = 0 then [] else [\<lparr>ks_addr = sint addr, ks_name = func\<rparr>]) bufs)"

lemma read_syms_symbols:
  assumes "\<forall>buf \<in> set bufs. scan_line buf \<noteq> None" and "length syms + length (symbols bufs) \<le> MAX_SYMS"
  shows "read_syms bufs syms = Inr (syms @ symbols bufs)"
  using assms by (induction bufs arbitrary: syms) (auto simp: symbols_def split: if_splits)

section \<open>Sorting is correct when the differences fit\<close>

lemma mset_qsort_insert: "mset (qsort_insert cmp x ys) = add_mset x (mset ys)"
  by (induction ys) auto

lemma mset_qsort: "mset (qsort cmp xs) = mset xs"
  unfolding qsort_def by (induction xs) (auto simp: mset_qsort_insert)

lemma set_qsort [simp]: "set (qsort cmp xs) = set xs"
  using mset_qsort [of cmp xs] by (metis set_mset_mset)

definition orders :: "('a \<Rightarrow> 'a \<Rightarrow> int) \<Rightarrow> ('a \<Rightarrow> 'b :: linorder) \<Rightarrow> 'a set \<Rightarrow> bool" where
  "orders cmp key A = (\<forall>x \<in> A. \<forall>y \<in> A. cmp x y \<le> 0 \<longleftrightarrow> key x \<le> key y)"

lemma sorted_qsort_insert:
  assumes "orders cmp key (insert x (set ys))" and "sorted (map key ys)"
  shows "sorted (map key (qsort_insert cmp x ys))"
  using assms
proof (induction ys)
  case (Cons y ys)
  have "set (qsort_insert cmp x ys) = insert x (set ys)"
    using mset_qsort_insert [of cmp x ys] by (metis set_mset_add_mset_insert set_mset_mset)
  moreover have "sorted (map key (qsort_insert cmp x ys))"
    using Cons by (intro Cons.IH) (auto simp: orders_def)
  ultimately show ?case
    using Cons.prems by (auto simp: orders_def)
qed simp

lemma sorted_qsort:
  assumes "orders cmp key (set xs)"
  shows "sorted (map key (qsort cmp xs))"
  using assms
proof (induction xs)
  case (Cons x xs)
  have "orders cmp key (insert x (set (qsort cmp xs)))"
    using Cons.prems by simp
  moreover have "sorted (map key (qsort cmp xs))"
    using Cons.prems by (intro Cons.IH) (auto simp: orders_def)
  ultimately have "sorted (map key (qsort_insert cmp x (qsort cmp xs)))"
    by (rule sorted_qsort_insert)
  then show ?case
    by (simp add: qsort_def)
qed (simp add: qsort_def)

section \<open>The bisection is correct when the differences fit\<close>

definition close_by :: "ksym list \<Rightarrow> bool" where
  "close_by syms = (\<forall>x \<in> set syms. \<forall>y \<in> set syms. \<bar>ks_addr x - ks_addr y\<bar> < 2 ^ 31)"

definition near :: "int \<Rightarrow> ksym list \<Rightarrow> bool" where
  "near key syms = (\<forall>s \<in> set syms. \<bar>key - ks_addr s\<bar> < 2 ^ 31)"

lemma ksym_loop_spec:
  assumes "sorted (map ks_addr syms)" and "near key syms"
    and "start \<le> stop" and "stop \<le> length syms"
    and "\<forall>i < start. ks_addr (syms ! i) < key"
    and "\<forall>i < length syms. stop \<le> i \<longrightarrow> key < ks_addr (syms ! i)"
  shows "case ksym_loop syms key start stop of
     Inr mid \<Rightarrow> mid < length syms \<and> ks_addr (syms ! mid) = key
   | Inl n \<Rightarrow> n \<le> length syms \<and> (\<forall>i < n. ks_addr (syms ! i) < key) \<and>
       (\<forall>i < length syms. n \<le> i \<longrightarrow> key < ks_addr (syms ! i))"
  using assms(3-)
proof (induction "stop - start" arbitrary: start stop rule: less_induct)
  case less
  show ?case
  proof (cases "start < stop")
    case False
    then show ?thesis
      using less.prems by (auto simp: ksym_loop.simps)
  next
    case True
    define mid where "mid = start + (stop - start) div 2"
    have mid: "start \<le> mid" "mid < stop" "mid < length syms"
      using True less.prems(2) by (auto simp: mid_def)
    have "\<bar>key - ks_addr (syms ! mid)\<bar> < 2 ^ 31"
      using assms(2) mid(3) by (auto simp: near_def)
    then have r: "to_int32 (key - ks_addr (syms ! mid)) = key - ks_addr (syms ! mid)"
      by (intro to_int32_id) linarith+
    have mono: "ks_addr (syms ! i) \<le> ks_addr (syms ! j)" if "i \<le> j" "j < length syms" for i j
      using sorted_nth_mono [OF assms(1), of i j] that by simp
    note eq = ksym_loop.simps [of syms key start stop, folded mid_def, unfolded Let_def, folded mid_def,
        unfolded r if_P [OF True]]
    consider "key < ks_addr (syms ! mid)" | "ks_addr (syms ! mid) < key" | "ks_addr (syms ! mid) = key"
      by linarith
    then show ?thesis
    proof cases
      case 1
      have "key < ks_addr (syms ! i)" if "i < length syms" "mid \<le> i" for i
        using 1 mono [OF that(2,1)] by linarith
      moreover have "ksym_loop syms key start stop = ksym_loop syms key start mid"
        using 1 by (simp add: eq)
      moreover have "mid - start < stop - start"
        using mid by simp
      ultimately show ?thesis
        using less.hyps [of mid start] less.prems mid by simp
    next
      case 2
      have "ks_addr (syms ! i) < key" if "i < mid + 1" for i
        using 2 mono [of i mid] that mid by simp
      moreover have "ksym_loop syms key start stop = ksym_loop syms key (mid + 1) stop"
        using 2 by (simp add: eq)
      moreover have "stop - (mid + 1) < stop - start"
        using mid by linarith
      ultimately show ?thesis
        using less.hyps [of stop "mid + 1"] less.prems mid by simp
    next
      case 3
      then show ?thesis
        using mid by (simp add: eq)
    qed
  qed
qed

text \<open>An address inside the table gets the symbol with the greatest address that is not above it.\<close>

definition covers :: "ksym list \<Rightarrow> int \<Rightarrow> ksym \<Rightarrow> bool" where
  "covers syms key s =
     (s \<in> set syms \<and> ks_addr s \<le> key \<and> (\<forall>s' \<in> set syms. ks_addr s' \<le> key \<longrightarrow> ks_addr s' \<le> ks_addr s))"

text \<open>The entry before the place that the bisection finds is the greatest that is not above the key.\<close>

lemma covers_before:
  assumes "sorted (map ks_addr syms)" and "n \<le> length syms" and "0 < n"
    and below: "\<forall>i < n. ks_addr (syms ! i) < key"
    and above: "\<forall>i < length syms. n \<le> i \<longrightarrow> key < ks_addr (syms ! i)"
  shows "covers syms key (syms ! (n - 1))"
proof -
  have n: "n - 1 < length syms" "n - 1 < n"
    using assms(2,3) by simp_all
  have le: "ks_addr (syms ! i) \<le> ks_addr (syms ! (n - 1))"
    if "i < length syms" "ks_addr (syms ! i) \<le> key" for i
  proof -
    have "i \<le> n - 1"
    proof (rule ccontr)
      assume "\<not> i \<le> n - 1"
      then have "key < ks_addr (syms ! i)"
        using above that(1) by simp
      then show False
        using that(2) by simp
    qed
    then show ?thesis
      using sorted_nth_mono [OF assms(1), of i "n - 1"] n(1) that(1) by simp
  qed
  have "ks_addr (syms ! (n - 1)) \<le> key"
    using below n(2) by (simp add: less_imp_le)
  moreover have "syms ! (n - 1) \<in> set syms"
    using n(1) by (rule nth_mem)
  ultimately show ?thesis
    unfolding covers_def by (metis in_set_conv_nth le)
qed

lemma ksym_search_covers:
  assumes "sorted (map ks_addr syms)" and "near key syms" and "length syms < MAX_SYMS"
    and "s0 \<in> set syms" and "ks_addr s0 \<le> key" and "key < 0"
  shows "\<exists>s. ksym_search syms key = Inr (Some s) \<and> covers syms key s"
proof -
  have ne: "syms \<noteq> []"
    using assms(4) by auto
  have spec: "case ksym_loop syms key 0 (length syms) of
     Inr mid \<Rightarrow> mid < length syms \<and> ks_addr (syms ! mid) = key
   | Inl n \<Rightarrow> n \<le> length syms \<and> (\<forall>i < n. ks_addr (syms ! i) < key) \<and>
       (\<forall>i < length syms. n \<le> i \<longrightarrow> key < ks_addr (syms ! i))"
    by (rule ksym_loop_spec [OF assms(1,2)]) simp_all
  show ?thesis
  proof (cases "ksym_loop syms key 0 (length syms)")
    case (Inr mid)
    then have "mid < length syms" "ks_addr (syms ! mid) = key"
      using spec by simp_all
    then have "covers syms key (syms ! mid)"
      unfolding covers_def by simp
    then show ?thesis
      unfolding ksym_search_def Inr using ne by simp
  next
    case (Inl n)
    have n: "n \<le> length syms" and below: "\<forall>i < n. ks_addr (syms ! i) < key"
      and above: "\<forall>i < length syms. n \<le> i \<longrightarrow> key < ks_addr (syms ! i)"
      using spec unfolding Inl sum.case by blast+
    obtain k where "k < length syms" "syms ! k = s0"
      using assms(4) unfolding in_set_conv_nth by blast
    then have "\<not> n \<le> k"
      using above assms(5) by auto
    then have pos: "0 < n"
      by simp
    have "\<exists>s. sym_at syms n = Inr s \<and> key < ks_addr s"
    proof (cases "n < length syms")
      case True
      then show ?thesis
        using above by (simp add: sym_at_def)
    next
      case False
      then show ?thesis
        using n assms(3,6) by (simp add: sym_at_def)
    qed
    then obtain s where s: "sym_at syms n = Inr s" "key < ks_addr s"
      by blast
    have "ks_addr (syms ! (n - 1)) < key"
      using below pos by simp
    then have "ksym_search syms key = Inr (Some (syms ! (n - 1)))"
      unfolding ksym_search_def Inl sum.case using ne pos s by simp
    then show ?thesis
      using covers_before [OF assms(1) n pos below above] by blast
  qed
qed

lemma ksym_cmp_orders:
  assumes "\<forall>x \<in> A. \<forall>y \<in> A. \<bar>ks_addr x - ks_addr y\<bar> < 2 ^ 31"
  shows "orders ksym_cmp ks_addr A"
  unfolding orders_def
proof (intro ballI)
  fix x y assume "x \<in> A" "y \<in> A"
  then have "\<bar>ks_addr x - ks_addr y\<bar> < 2 ^ 31"
    using assms by blast
  then have "ksym_cmp x y = ks_addr x - ks_addr y"
    unfolding ksym_cmp_def by (intro to_int32_id) linarith+
  then show "ksym_cmp x y \<le> 0 \<longleftrightarrow> ks_addr x \<le> ks_addr y"
    by linarith
qed

section \<open>Loading and searching\<close>

text \<open>
  C34.  Symbols are found.  When every line of \<open>/proc/kallsyms\<close> is well formed and there are fewer
  than 300000 symbols, whose addresses and the key are kernel addresses less than 2 GB apart,
  \<open>load_kallsyms\<close> returns 0 with the symbols of the file sorted by address, and \<open>ksym_search\<close>
  delivers the symbol with the greatest address that is not above the key.
\<close>

theorem load_kallsyms_search:
  assumes "\<forall>buf \<in> set bufs. scan_line buf \<noteq> None" and "length (symbols bufs) < MAX_SYMS"
    and "close_by (symbols bufs)" and "near key (symbols bufs)" and "key < 0"
    and "\<exists>s \<in> set (symbols bufs). ks_addr s \<le> key"
  shows "\<exists>syms s. load_kallsyms (Some bufs) = Inr (0, syms) \<and> mset syms = mset (symbols bufs) \<and>
    sorted (map ks_addr syms) \<and> ksym_search syms key = Inr (Some s) \<and> covers (symbols bufs) key s"
proof -
  let ?syms = "qsort ksym_cmp (symbols bufs)"
  have "read_syms bufs [] = Inr (symbols bufs)"
    using read_syms_symbols [OF assms(1), of "[]"] assms(2) by simp
  then have load: "load_kallsyms (Some bufs) = Inr (0, ?syms)"
    by (simp add: load_kallsyms_def)
  have sorted: "sorted (map ks_addr ?syms)"
    using assms(3) by (intro sorted_qsort ksym_cmp_orders) (simp add: close_by_def)
  have "length ?syms < MAX_SYMS"
    using assms(2) mset_qsort [of ksym_cmp "symbols bufs"] by (metis size_mset)
  moreover have "near key ?syms"
    using assms(4) by (simp add: near_def)
  ultimately obtain s where "ksym_search ?syms key = Inr (Some s)" "covers ?syms key s"
    using ksym_search_covers [OF sorted] assms(5,6) by (metis set_qsort)
  then show ?thesis
    using load sorted mset_qsort [of ksym_cmp "symbols bufs"] by (auto simp: covers_def)
qed

definition sample_kallsyms :: "string list" where
  "sample_kallsyms =
     [''ffffffff81002000 T do_one'', ''ffffffff81000000 T _text'', ''ffffffff81004000 t do_two'']"

lemma sample_lines:
  "scan_line ''ffffffff81002000 T do_one'' = Some (0xffffffff81002000, CHR ''T'', ''do_one'')"
  "scan_line ''ffffffff81000000 T _text'' = Some (0xffffffff81000000, CHR ''T'', ''_text'')"
  "scan_line ''ffffffff81004000 t do_two'' = Some (0xffffffff81004000, CHR ''t'', ''do_two'')"
  by (simp_all add: scan_line_def scan_ptr_def hex_val_def isspace_def Let_def)

lemma sample_symbols:
  "symbols sample_kallsyms =
    [\<lparr>ks_addr = - 2130698240, ks_name = ''do_one''\<rparr>, \<lparr>ks_addr = - 2130706432, ks_name = ''_text''\<rparr>,
     \<lparr>ks_addr = - 2130690048, ks_name = ''do_two''\<rparr>]"
  by (simp add: symbols_def sample_kallsyms_def sample_lines)

lemma sample_scans: "\<forall>buf \<in> set sample_kallsyms. scan_line buf \<noteq> None"
  by (simp add: sample_kallsyms_def sample_lines)

theorem load_kallsyms_search_witness:
  "\<exists>syms s. load_kallsyms (Some sample_kallsyms) = Inr (0, syms) \<and>
    ksym_search syms (- 2130697984) = Inr (Some s) \<and> ks_name s = ''do_one''"
  using load_kallsyms_search [OF sample_scans, of "- 2130697984"]
  by (auto simp: sample_symbols close_by_def near_def covers_def)

end
