(* ===== verification/Sample_Ip.thy ===== *)
theory Sample_Ip
  imports Ksym Trace_User Cpustat_User Ref_Kernel
begin

text \<open>
  The sampling profiler \<open>sampleip\<close>: a program at a clock event counts instruction pointers in a
  hash table (\<open>sampleip_kern.c\<close>), and the user side opens an event on every processor, waits, and
  prints the table with the names of kernel functions (\<open>sampleip_user.c\<close>).
\<close>

section \<open>Counting\<close>

abbreviation MAX_IPS :: nat where "MAX_IPS \<equiv> 8192"

definition ip_map :: bpf_map_def where
  "ip_map = \<lparr>bm_name = ''ip_map'', bm_type = BPF_MAP_TYPE_HASH, bm_key_size = 8, bm_value_size = 4,
     bm_max_entries = 8192\<rparr>"

definition do_sample :: "'s kapi \<Rightarrow> pt_regs \<Rightarrow> ('s, int) state" where
  "do_sample K ctx = do {
     let ip = PT_REGS_IP ctx;
     val \<leftarrow> lookup_elem K ip_map (word_bytes ip);
     (case val of
        Some val \<Rightarrow> do { n \<leftarrow> load32 K val; store32 K val (n + 1) }
      | None \<Rightarrow> do {
          _ \<leftarrow> update_elem K ip_map (word_bytes ip) (word_bytes (1 :: u32)) BPF_NOEXIST;
          State_Monad.return ()
        });
     State_Monad.return 0
   }"

section \<open>Opening and closing the events\<close>

definition pe_sample_attr :: "int \<Rightarrow> perf_event_attr" where
  "pe_sample_attr freq = perf_attr_zero\<lparr>pe_type := PERF_TYPE_SOFTWARE, pe_freq := True,
     pe_sample_period := word_of_int freq, pe_config := PERF_COUNT_SW_CPU_CLOCK, pe_inherit := True\<rparr>"

text \<open>The processors that are left are a list; the rest of the program gets the status and the descriptors.\<close>

primrec sampling_start ::
  "env \<Rightarrow> int \<Rightarrow> nat list \<Rightarrow> int list \<Rightarrow> (int \<Rightarrow> int list \<Rightarrow> uprog) \<Rightarrow> uprog" where
  "sampling_start env freq [] pmu_fd k = k 0 pmu_fd"
| "sampling_start env freq (i # is) pmu_fd k =
     ucall env (Perf_event_open (pe_sample_attr freq) (- 1) (int i) (- 1) 0) (\<lambda>r. let fd = r_ret r in
     if fd < 0 then k 1 (pmu_fd @ [fd])
     else (\<lambda>L.
       bind_res (nth_res (prog_fd L) 0) (\<lambda>prog.
       ucall env (Ioctl fd PERF_EVENT_IOC_SET_BPF prog) (\<lambda>r.
       if r_ret r \<noteq> 0 then ufail Assert_failed
       else
         ucall env (Ioctl fd PERF_EVENT_IOC_ENABLE 0) (\<lambda>r.
         if r_ret r \<noteq> 0 then ufail Assert_failed
         else sampling_start env freq is (pmu_fd @ [fd]) k)) L)))"

primrec sampling_end :: "env \<Rightarrow> int list \<Rightarrow> uprog \<Rightarrow> uprog" where
  "sampling_end env [] k = k"
| "sampling_end env (fd # fds) k = ucall env (Close fd) (\<lambda>_. sampling_end env fds k)"

section \<open>Printing the table\<close>

record ipcount =
  ip :: u64
  cnt :: u32

abbreviation PAGE_OFFSET :: u64 where "PAGE_OFFSET \<equiv> 0xffff880000000000"

definition count_cmp :: "ipcount \<Rightarrow> ipcount \<Rightarrow> int" where
  "count_cmp p1 p2 = to_int32 (int (unat (cnt p1)) - int (unat (cnt p2)))"

text \<open>
  The loop that fetches the table; \<open>room\<close> is what is left of the array \<open>counts\<close>, and an element
  beyond it is an overflow.  The variable \<open>value\<close> keeps its contents when a lookup fails, and
  there are none before the first that succeeds.
\<close>

definition next_ip ::
  "env \<Rightarrow> int \<Rightarrow> u64 \<Rightarrow> u32 option \<Rightarrow> (ipcount option \<Rightarrow> uprog) \<Rightarrow> uprog" where
  "next_ip env fd key val k L =
     (let (ret, data, h) = bpf_map_get_next_key env fd (word_bytes key) (calls L) in
      if ret \<noteq> 0 then k None (L\<lparr>calls := h\<rparr>)
      else bind_res (lookup_var 8 ret data) (\<lambda>next_key.
        let (ret, data, h) = bpf_map_lookup_elem env fd (word_bytes (bytes_word next_key :: u64)) h in
        bind_res (if ret = 0 then map_sum id (Some \<circ> bytes_word) (lookup_var 4 ret data) else Inr val) (\<lambda>val.
        case val of
          None \<Rightarrow> Inl Uninit_read
        | Some n \<Rightarrow> k (Some \<lparr>ip = bytes_word next_key, cnt = n\<rparr>) (L\<lparr>calls := h\<rparr>))))"

primrec fetch_ips ::
  "env \<Rightarrow> nat \<Rightarrow> int \<Rightarrow> u64 \<Rightarrow> u32 option \<Rightarrow> ipcount list \<Rightarrow> (ipcount list \<Rightarrow> uprog) \<Rightarrow> uprog" where
  "fetch_ips env 0 fd key val counts k =
     next_ip env fd key val (\<lambda>c. case c of None \<Rightarrow> k counts | Some _ \<Rightarrow> ufail Buffer_overflow)"
| "fetch_ips env (Suc room) fd key val counts k =
     next_ip env fd key val (\<lambda>c. case c of
         None \<Rightarrow> k counts
       | Some c \<Rightarrow> fetch_ips env room fd (ip c) (Some (cnt c)) (counts @ [c]) k)"

definition ip_line :: "ipcount \<Rightarrow> string \<Rightarrow> string" where
  "ip_line c name = ''0x'' @ fmt_left 17 (hex_nat (unat (ip c))) @ '' '' @ fmt_left 32 name @ '' '' @
     dec_nat (unat (cnt c)) @ [CHR 0x0A]"

primrec print_ips :: "env \<Rightarrow> ksym list \<Rightarrow> ipcount list \<Rightarrow> uprog \<Rightarrow> uprog" where
  "print_ips env syms [] k = k"
| "print_ips env syms (c # cs) k =
     (if ip c > PAGE_OFFSET then
        urun (ksym_search syms (sint (ip c))) (\<lambda>found.
        case found of
          None \<Rightarrow> ufail Null_deref
        | Some s \<Rightarrow> uputs env (ip_line c (ks_name s)) (print_ips env syms cs k))
      else uputs env (ip_line c ''(user)'') (print_ips env syms cs k))"

definition print_ip_map :: "env \<Rightarrow> ksym list \<Rightarrow> int \<Rightarrow> uprog \<Rightarrow> uprog" where
  "print_ip_map env syms fd k =
     uputs env (nl (fmt_left 19 ''ADDR'' @ '' '' @ fmt_left 32 ''KSYM'' @ '' COUNT'')) (
     fetch_ips env MAX_IPS fd 0 None [] (\<lambda>counts.
     print_ips env syms (qsort count_cmp counts) (
     if length counts = MAX_IPS
     then uputs env (''WARNING: IP hash was full (max '' @ dec_nat MAX_IPS @ '' entries); '')
            (uputs env (nl ''may have dropped samples'') k)
     else k)))"

section \<open>The program\<close>

text \<open>What a signal does, at whatever point it comes.\<close>

definition int_exit :: "env \<Rightarrow> ksym list \<Rightarrow> uprog" where
  "int_exit env syms L =
     bind_res (nth_res (map_fd L) 0) (\<lambda>fd. uputs env (nl []) (print_ip_map env syms fd (ureturn 0)) L)"

definition sampleip_usage :: "env \<Rightarrow> uprog \<Rightarrow> uprog" where
  "sampleip_usage env k =
     uputs env (nl ''USAGE: sampleip [-F freq] [duration]'') (
     uputs env (nl ''       -F freq    # sample frequency (Hertz), default 99'') (
     uputs env (nl ''       duration   # sampling duration (seconds), default 5'') k))"

text \<open>The options as \<open>getopt\<close> delivers them, and the arguments after them.\<close>

datatype sample_opt = Opt_F string | Opt_help

fun sample_options :: "sample_opt list \<Rightarrow> int \<Rightarrow> int option" where
  "sample_options [] freq = Some freq"
| "sample_options (Opt_F optarg # opts) freq = sample_options opts (atoi optarg)"
| "sample_options (Opt_help # opts) freq = None"

definition sampleip_main ::
  "nat \<Rightarrow> libelf \<Rightarrow> env \<Rightarrow> string list option \<Rightarrow> string \<Rightarrow> sample_opt list \<Rightarrow> string list \<Rightarrow> uprog" where
  "sampleip_main fuel lib env kallsyms argv0 opts args =
     (case sample_options opts 99 of
        None \<Rightarrow> sampleip_usage env (ureturn 0)
      | Some freq \<Rightarrow>
          let secs = (case args of [arg] \<Rightarrow> atoi arg | _ \<Rightarrow> 5) in
          if freq = 0 \<or> secs = 0 then sampleip_usage env (ureturn 1)
          else
            urun (load_kallsyms kallsyms) (\<lambda>(ret, syms).
            if ret \<noteq> 0 then ureturn 2
            else
              ucall env (Libc ''sysconf'' [83]) (\<lambda>r. let nr_cpus = to_int32 (r_ret r) in
              ucall env (Malloc (nat (nr_cpus * 4 mod 2 ^ 64))) (\<lambda>r.
              if r_ret r = 0 then ureturn 1
              else
                uload fuel lib env (object_name argv0) (\<lambda>ret.
                if ret \<noteq> 0 then ureturn 1
                else
                  ucall env (Libc ''signal'' [2]) (\<lambda>_.
                  ucall env (Libc ''signal'' [15]) (\<lambda>_.
                  uputs env (nl (''Sampling at '' @ dec freq @ '' Hertz for '' @ dec secs @
                                 '' seconds. Ctrl-C also ends.'')) (
                  sampling_start env freq [0..<nat nr_cpus] [] (\<lambda>ret pmu_fd.
                  if ret \<noteq> 0 then ureturn 1
                  else
                    ucall env (Libc ''sleep'' [secs]) (\<lambda>_.
                    sampling_end env pmu_fd (\<lambda>L.
                    bind_res (nth_res (map_fd L) 0) (\<lambda>fd.
                    print_ip_map env syms fd (ureturn 0) L))))))))))))"

end
