(* ===== verification/Sample_Ip_Props.thy ===== *)
theory Sample_Ip_Props
  imports Sample_Ip
begin

text \<open>
  What the sampling profiler counts and prints: the hash table as a map from addresses to numbers,
  the order of the lines, and the table of symbols that is empty.
\<close>

section \<open>The table as a map\<close>

definition samples_of :: "kview \<Rightarrow> u64 \<Rightarrow> u32 option" where
  "samples_of v a = map_option (\<lambda>bs. bytes_word (take 4 bs)) (v_map v ip_map (word_bytes a))"

definition add_sample :: "u64 \<Rightarrow> (u64 \<Rightarrow> u32 option) \<Rightarrow> u64 \<Rightarrow> u32 option" where
  "add_sample a m = m(a \<mapsto> (case m a of Some n \<Rightarrow> n + 1 | None \<Rightarrow> 1))"

primrec do_samples :: "'s kapi \<Rightarrow> pt_regs list \<Rightarrow> ('s, int) state" where
  "do_samples K [] = State_Monad.return 0"
| "do_samples K (ctx # ctxs) = do { do_sample K ctx; do_samples K ctxs }"

text \<open>The keys of the table are addresses.\<close>

definition ip_keys :: "u64 set \<Rightarrow> kview \<Rightarrow> bool" where
  "ip_keys A v = (dom (v_map v ip_map) = word_bytes ` A \<and> finite A)"

lemma ip_map_simps [simp]:
  "bm_key_size ip_map = 8" "bm_value_size ip_map = 4" "bm_max_entries ip_map = 8192" "\<not> is_array ip_map"
  by (simp_all add: ip_map_def is_array_def)

lemma samples_of_put:
  "samples_of (put_elem ip_map (word_bytes a) (word_bytes (n :: u32)) v) = (samples_of v)(a \<mapsto> n)"
  by (auto simp: samples_of_def fun_eq_iff)

lemma ip_keys_put:
  assumes "ip_keys A v"
  shows "ip_keys (insert a A) (put_elem ip_map (word_bytes a) bs v)"
  using assms by (auto simp: ip_keys_def put_elem_def)

lemma ip_keys_card:
  assumes "ip_keys A v"
  shows "finite (dom (v_map v ip_map))" and "card (dom (v_map v ip_map)) = card A"
proof -
  have "inj_on (word_bytes :: u64 \<Rightarrow> u8 list) A"
    by (auto simp: inj_on_def)
  then show "finite (dom (v_map v ip_map))" and "card (dom (v_map v ip_map)) = card A"
    using assms by (simp_all add: ip_keys_def card_image)
qed

lemma fold_add_sample:
  "fold add_sample as m a =
    (case m a of None \<Rightarrow> if a \<in> set as then Some (word_of_nat (count_list as a)) else None
     | Some n \<Rightarrow> Some (n + word_of_nat (count_list as a)))"
  by (induction as arbitrary: m) (auto simp: add_sample_def split: option.splits)

context hash_helpers
begin

lemma do_sample_adds:
  assumes "ip_keys A v" and "card (insert (PT_REGS_IP ctx) A) \<le> MAX_IPS"
  shows "vruns view (do_sample K ctx) v (\<lambda>r v'. r = 0 \<and> ip_keys (insert (PT_REGS_IP ctx) A) v' \<and>
    samples_of v' = add_sample (PT_REGS_IP ctx) (samples_of v))"
proof -
  let ?a = "PT_REGS_IP ctx"
  show ?thesis
  proof (cases "v_map v ip_map (word_bytes ?a)")
    case None
    then have "?a \<notin> A"
      using assms(1) by (auto simp: ip_keys_def)
    then have "card (dom (v_map v ip_map)) < 8192"
      using assms ip_keys_card [OF assms(1)] by (simp add: ip_keys_def)
    then have room_update: "vruns view (update_elem K ip_map (word_bytes ?a) (word_bytes (1 :: u32)) BPF_NOEXIST) v
        (\<lambda>r v'. r = 0 \<and> v' = put_elem ip_map (word_bytes ?a) (word_bytes (1 :: u32)) v)"
      using None ip_keys_card(1) [OF assms(1)] room_doc [of ip_map v "word_bytes ?a" "word_bytes (1 :: u32)"]
      by (simp add: update_elem_def)
    show ?thesis
      unfolding do_sample_def
      by (intro kwp vruns_mono [OF room_update])
        (use None assms in \<open>auto simp: samples_of_put ip_keys_put add_sample_def samples_of_def\<close>)
  next
    case (Some bs)
    show ?thesis
      unfolding do_sample_def
      by (intro kwp) (use Some assms in \<open>auto simp: samples_of_put ip_keys_put add_sample_def samples_of_def\<close>)
  qed
qed

lemma do_samples_add:
  assumes "ip_keys A v" and "card (set (map PT_REGS_IP ctxs) \<union> A) \<le> MAX_IPS"
  shows "vruns view (do_samples K ctxs) v (\<lambda>r v'. r = 0 \<and>
    samples_of v' = fold add_sample (map PT_REGS_IP ctxs) (samples_of v))"
  using assms
proof (induction ctxs arbitrary: A v)
  case Nil
  show ?case
    by (auto intro: kwp)
next
  case (Cons ctx ctxs)
  let ?A = "insert (PT_REGS_IP ctx) A"
  have union: "set (map PT_REGS_IP ctxs) \<union> ?A = set (map PT_REGS_IP (ctx # ctxs)) \<union> A"
    by auto
  have "finite (set (map PT_REGS_IP ctxs) \<union> ?A)"
    using Cons.prems(1) by (simp add: ip_keys_def)
  then have "card ?A \<le> card (set (map PT_REGS_IP ctxs) \<union> ?A)"
    by (rule card_mono) blast
  also have "\<dots> \<le> MAX_IPS"
    unfolding union by (rule Cons.prems(2))
  finally have step: "vruns view (do_sample K ctx) v (\<lambda>r v'. r = 0 \<and> ip_keys ?A v' \<and>
      samples_of v' = add_sample (PT_REGS_IP ctx) (samples_of v))"
    by (rule do_sample_adds [OF Cons.prems(1)])
  have rest: "vruns view (do_samples K ctxs) v' (\<lambda>r v''. r = 0 \<and>
      samples_of v'' = fold add_sample (map PT_REGS_IP ctxs) (samples_of v'))" if "ip_keys ?A v'" for v'
    using Cons.IH [OF that] Cons.prems(2) unfolding union by simp
  show ?case
    unfolding do_samples.simps
    by (intro vruns_bind vruns_mono [OF step]) (auto intro!: vruns_mono [OF rest])
qed

end

section \<open>The order of the lines\<close>

lemma to_int32_diff:
  assumes "a < 2147483648" and "b < 2147483648"
  shows "to_int32 (int a - int b) = int a - int b"
  using assms by (intro to_int32_id) simp_all

lemma count_cmp_orders:
  assumes "\<forall>c \<in> A. unat (cnt c) < 2 ^ 31"
  shows "orders count_cmp (\<lambda>c. unat (cnt c)) A"
  unfolding orders_def
proof (intro ballI)
  fix x y assume "x \<in> A" "y \<in> A"
  then have "unat (cnt x) < 2147483648" "unat (cnt y) < 2147483648"
    using assms by simp_all
  then have "count_cmp x y = int (unat (cnt x)) - int (unat (cnt y))"
    unfolding count_cmp_def by (rule to_int32_diff)
  then show "count_cmp x y \<le> 0 \<longleftrightarrow> unat (cnt x) \<le> unat (cnt y)"
    by linarith
qed

lemma ips_sorted:
  "\<forall>c \<in> set counts. unat (cnt c) < 2 ^ 31 \<Longrightarrow> sorted (map (\<lambda>c. unat (cnt c)) (qsort count_cmp counts))"
  by (intro sorted_qsort count_cmp_orders)

text \<open>
  When the addresses of \<open>/proc/kallsyms\<close> are hidden, which shows them as zero, the table of symbols
  is loaded without an error but empty, and the first kernel address makes the program use a null
  pointer.
\<close>

lemma hidden_symbols_null:
  assumes "PAGE_OFFSET < ip c"
  shows "load_kallsyms (Some [''0000000000000000 T _text'']) = Inr (0, [])"
    and "print_ips env [] (c # cs) k L = Inl Null_deref"
proof -
  have "scan_line ''0000000000000000 T _text'' = Some (0, CHR ''T'', ''_text'')"
    by (simp add: scan_line_def scan_ptr_def hex_val_def isspace_def Let_def)
  then show "load_kallsyms (Some [''0000000000000000 T _text'']) = Inr (0, [])"
    by (simp add: load_kallsyms_def qsort_def)
  show "print_ips env [] (c # cs) k L = Inl Null_deref"
    using assms by (simp add: urun_def ksym_search_def ufail_def)
qed

section \<open>Counting\<close>

text \<open>
  C40.  Samples are counted.  On any kernel whose map helpers behave as documented, and with at most
  8192 different instruction pointers, a run of samples leaves in \<open>ip_map\<close>, empty at first, for
  every instruction pointer how often it was sampled, modulo \<open>2 ^ 32\<close>, and nothing for the others.
\<close>

theorem sampleip_counts:
  assumes "hash_helpers K view" and "v_map v ip_map = (\<lambda>_. None)"
    and "card (set (map PT_REGS_IP ctxs)) \<le> MAX_IPS"
  shows "vruns view (do_samples K ctxs) v (\<lambda>r v'. r = 0 \<and> (\<forall>a. samples_of v' a =
    (if a \<in> set (map PT_REGS_IP ctxs) then Some (word_of_nat (count_list (map PT_REGS_IP ctxs) a)) else None)))"
proof -
  have "ip_keys {} v" and none: "samples_of v = (\<lambda>_. None)"
    using assms(2) by (simp_all add: ip_keys_def samples_of_def fun_eq_iff)
  then show ?thesis
    using hash_helpers.do_samples_add [OF assms(1) \<open>ip_keys {} v\<close>, of ctxs] assms(3)
    by (auto simp: none fold_add_sample elim!: vruns_mono)
qed

definition sampled_at :: "u64 \<Rightarrow> pt_regs" where
  "sampled_at a = \<lparr>PT_REGS_PARM1 = 0, PT_REGS_PARM2 = 0, PT_REGS_PARM3 = 0, PT_REGS_IP = a\<rparr>"

theorem sampleip_counts_witness:
  "vruns ref_view (do_samples ref_kernel (map sampled_at [4096, 8192, 4096])) (ref_view start_view)
     (\<lambda>r v'. samples_of v' 4096 = Some 2 \<and> samples_of v' 8192 = Some 1 \<and> samples_of v' 0 = None)"
proof -
  have none: "v_map (ref_view start_view) ip_map = (\<lambda>_. None)"
    by (simp add: fun_eq_iff v_map_ref_view start_view_def elem_of_def)
  have "card (set (map PT_REGS_IP (map sampled_at [4096, 8192, 4096]))) \<le> MAX_IPS"
    by (rule le_trans [OF card_length]) simp
  then show ?thesis
    by (rule vruns_mono [OF sampleip_counts [OF ref.hash_helpers_axioms none]]) (simp add: sampled_at_def)
qed

end
