(* ===== verification/Libbpf_Rest.thy ===== *)
theory Libbpf_Rest
  imports Libbpf
begin

text \<open>
  The other functions of \<open>bpf.c\<close>.  Each fills in the attributes of one command, makes the system
  call, and hands back what the kernel left in the attributes; \<open>bpf_load_btf\<close> repeats it once.  An
  optional pointer for a result is not modelled: the results are always returned.
\<close>

section \<open>Programs and elements\<close>

definition bpf_verify_program ::
  "nat \<Rightarrow> env \<Rightarrow> bpf_prog_type \<Rightarrow> u8 list \<Rightarrow> u64 \<Rightarrow> u32 \<Rightarrow> u8 list \<Rightarrow> u32 \<Rightarrow> u64 \<Rightarrow> u32 \<Rightarrow> hist \<Rightarrow>
   (int \<times> hist) res" where
  "bpf_verify_program fuel env type insns insns_cnt prog_flags license kern_version log_buf_sz log_level h =
     bind_res (sys_bpf_prog_load fuel env
       \<lparr>a_prog_type = type, a_insn_cnt = ucast insns_cnt, a_insns = insns, a_license = license,
        a_log_level = log_level, a_log_size = ucast log_buf_sz, a_log_buf = True,
        a_kern_version = kern_version, a_prog_flags = prog_flags, a_prog_name = [], a_prog_ifindex = 0,
        a_expected_attach_type = 0, a_prog_btf_fd = 0, a_func_info_rec_size = 0, a_func_info = [],
        a_func_info_cnt = 0, a_line_info_rec_size = 0, a_line_info = [], a_line_info_cnt = 0\<rparr> h)
     (\<lambda>(r, _, h). Inr (r_ret r, h))"

definition bpf_map_lookup_elem_flags ::
  "env \<Rightarrow> int \<Rightarrow> u8 list \<Rightarrow> u64 \<Rightarrow> hist \<Rightarrow> int \<times> u8 list \<times> hist" where
  "bpf_map_lookup_elem_flags env fd key flags h =
     (let (r, h) = sys_bpf env BPF_MAP_LOOKUP_ELEM (elem_attr fd key [] flags) h
      in (r_ret r, r_data r, h))"

definition bpf_map_lookup_and_delete_elem ::
  "env \<Rightarrow> int \<Rightarrow> u8 list \<Rightarrow> hist \<Rightarrow> int \<times> u8 list \<times> hist" where
  "bpf_map_lookup_and_delete_elem env fd key h =
     (let (r, h) = sys_bpf env BPF_MAP_LOOKUP_AND_DELETE_ELEM (elem_attr fd key [] 0) h
      in (r_ret r, r_data r, h))"

definition bpf_map_freeze :: "env \<Rightarrow> int \<Rightarrow> hist \<Rightarrow> int \<times> hist" where
  "bpf_map_freeze env fd h =
     (let (r, h) = sys_bpf env BPF_MAP_FREEZE (elem_attr fd [] [] 0) h in (r_ret r, h))"

section \<open>Pinned objects and attachment\<close>

definition bpf_obj_pin :: "env \<Rightarrow> int \<Rightarrow> string \<Rightarrow> hist \<Rightarrow> int \<times> hist" where
  "bpf_obj_pin env fd pathname h =
     (let (r, h) = sys_bpf env BPF_OBJ_PIN (Obj pathname (word_of_int fd)) h in (r_ret r, h))"

definition bpf_obj_get :: "env \<Rightarrow> string \<Rightarrow> hist \<Rightarrow> int \<times> hist" where
  "bpf_obj_get env pathname h =
     (let (r, h) = sys_bpf env BPF_OBJ_GET (Obj pathname 0) h in (r_ret r, h))"

definition bpf_prog_attach :: "env \<Rightarrow> int \<Rightarrow> int \<Rightarrow> u32 \<Rightarrow> u32 \<Rightarrow> hist \<Rightarrow> int \<times> hist" where
  "bpf_prog_attach env prog_fd target_fd type flags h =
     (let (r, h) = sys_bpf env BPF_PROG_ATTACH (Attach
        \<lparr>a_target_fd = word_of_int target_fd, a_attach_bpf_fd = word_of_int prog_fd,
         a_attach_type = type, a_attach_flags = flags\<rparr>) h in (r_ret r, h))"

definition bpf_prog_detach :: "env \<Rightarrow> int \<Rightarrow> u32 \<Rightarrow> hist \<Rightarrow> int \<times> hist" where
  "bpf_prog_detach env target_fd type h =
     (let (r, h) = sys_bpf env BPF_PROG_DETACH (Attach
        \<lparr>a_target_fd = word_of_int target_fd, a_attach_bpf_fd = 0, a_attach_type = type,
         a_attach_flags = 0\<rparr>) h in (r_ret r, h))"

definition bpf_prog_detach2 :: "env \<Rightarrow> int \<Rightarrow> int \<Rightarrow> u32 \<Rightarrow> hist \<Rightarrow> int \<times> hist" where
  "bpf_prog_detach2 env prog_fd target_fd type h =
     (let (r, h) = sys_bpf env BPF_PROG_DETACH (Attach
        \<lparr>a_target_fd = word_of_int target_fd, a_attach_bpf_fd = word_of_int prog_fd,
         a_attach_type = type, a_attach_flags = 0\<rparr>) h in (r_ret r, h))"

text \<open>The result, the flags and the number of programs as the kernel left them, and the identifiers.\<close>

definition bpf_prog_query ::
  "env \<Rightarrow> int \<Rightarrow> u32 \<Rightarrow> u32 \<Rightarrow> u32 \<Rightarrow> hist \<Rightarrow> int \<times> u32 \<times> u32 \<times> u8 list \<times> hist" where
  "bpf_prog_query env target_fd type query_flags prog_cnt h =
     (let attr = \<lparr>a_q_target_fd = word_of_int target_fd, a_q_attach_type = type,
            a_q_query_flags = query_flags, a_q_attach_flags = 0, a_q_prog_cnt = prog_cnt\<rparr>;
          (r, h) = sys_bpf env BPF_PROG_QUERY (Query attr) h;
          attr = (case r_attr r of Some (Query a) \<Rightarrow> a | _ \<Rightarrow> attr)
      in (r_ret r, a_q_attach_flags attr, a_q_prog_cnt attr, r_data r, h))"

section \<open>Test runs\<close>

record bpf_prog_test_run_attr =
  t_prog_fd :: int
  t_repeat :: int
  t_data_in :: "u8 list"
  t_data_size_in :: u32
  t_data_out :: bool
  t_data_size_out :: u32
  t_retval :: u32
  t_duration :: u32
  t_ctx_in :: "u8 list"
  t_ctx_size_in :: u32
  t_ctx_out :: bool
  t_ctx_size_out :: u32

definition run_after :: "test_attr \<Rightarrow> reply \<Rightarrow> test_attr" where
  "run_after attr r = (case r_attr r of Some (Test_run a) \<Rightarrow> a | _ \<Rightarrow> attr)"

definition bpf_prog_test_run ::
  "env \<Rightarrow> int \<Rightarrow> int \<Rightarrow> u8 list \<Rightarrow> u32 \<Rightarrow> bool \<Rightarrow> hist \<Rightarrow> int \<times> u32 \<times> u32 \<times> u32 \<times> hist" where
  "bpf_prog_test_run env prog_fd repeat data data_size data_out h =
     (let attr = \<lparr>a_t_prog_fd = word_of_int prog_fd, a_t_retval = 0, a_t_data_in = data,
            a_t_data_out = data_out, a_t_data_size_in = data_size, a_t_data_size_out = 0, a_t_ctx_in = [],
            a_t_ctx_out = False, a_t_ctx_size_in = 0, a_t_ctx_size_out = 0,
            a_t_repeat = word_of_int repeat, a_t_duration = 0\<rparr>;
          (r, h) = sys_bpf env BPF_PROG_TEST_RUN (Test_run attr) h;
          attr = run_after attr r
      in (r_ret r, a_t_data_size_out attr, a_t_retval attr, a_t_duration attr, h))"

definition bpf_prog_test_run_xattr ::
  "env \<Rightarrow> bpf_prog_test_run_attr \<Rightarrow> hist \<Rightarrow> int \<times> bpf_prog_test_run_attr \<times> hist" where
  "bpf_prog_test_run_xattr env t h =
     (if \<not> t_data_out t \<and> t_data_size_out t > 0 then (- EINVAL, t, h)
      else
        let attr = \<lparr>a_t_prog_fd = word_of_int (t_prog_fd t), a_t_retval = 0, a_t_data_in = t_data_in t,
              a_t_data_out = t_data_out t, a_t_data_size_in = t_data_size_in t,
              a_t_data_size_out = t_data_size_out t, a_t_ctx_in = t_ctx_in t, a_t_ctx_out = t_ctx_out t,
              a_t_ctx_size_in = t_ctx_size_in t, a_t_ctx_size_out = t_ctx_size_out t,
              a_t_repeat = word_of_int (t_repeat t), a_t_duration = 0\<rparr>;
            (r, h) = sys_bpf env BPF_PROG_TEST_RUN (Test_run attr) h;
            attr = run_after attr r
        in (r_ret r, t\<lparr>t_data_size_out := a_t_data_size_out attr, t_ctx_size_out := a_t_ctx_size_out attr,
                       t_retval := a_t_retval attr, t_duration := a_t_duration attr\<rparr>, h))"

section \<open>Identifiers and information\<close>

text \<open>The caller's variable keeps its value when the call fails.\<close>

definition bpf_obj_get_next_id :: "env \<Rightarrow> u32 \<Rightarrow> u32 \<Rightarrow> bpf_cmd \<Rightarrow> hist \<Rightarrow> int \<times> u32 \<times> hist" where
  "bpf_obj_get_next_id env start_id next_id cmd h =
     (let (r, h) = sys_bpf env cmd (Next_id start_id 0) h
      in (r_ret r,
          if r_ret r = 0 then (case r_attr r of Some (Next_id _ n) \<Rightarrow> n | _ \<Rightarrow> 0) else next_id, h))"

definition bpf_prog_get_next_id :: "env \<Rightarrow> u32 \<Rightarrow> u32 \<Rightarrow> hist \<Rightarrow> int \<times> u32 \<times> hist" where
  "bpf_prog_get_next_id env start_id next_id h = bpf_obj_get_next_id env start_id next_id BPF_PROG_GET_NEXT_ID h"

definition bpf_map_get_next_id :: "env \<Rightarrow> u32 \<Rightarrow> u32 \<Rightarrow> hist \<Rightarrow> int \<times> u32 \<times> hist" where
  "bpf_map_get_next_id env start_id next_id h = bpf_obj_get_next_id env start_id next_id BPF_MAP_GET_NEXT_ID h"

definition bpf_btf_get_next_id :: "env \<Rightarrow> u32 \<Rightarrow> u32 \<Rightarrow> hist \<Rightarrow> int \<times> u32 \<times> hist" where
  "bpf_btf_get_next_id env start_id next_id h = bpf_obj_get_next_id env start_id next_id BPF_BTF_GET_NEXT_ID h"

definition bpf_prog_get_fd_by_id :: "env \<Rightarrow> u32 \<Rightarrow> hist \<Rightarrow> int \<times> hist" where
  "bpf_prog_get_fd_by_id env i h =
     (let (r, h) = sys_bpf env BPF_PROG_GET_FD_BY_ID (Obj_id i) h in (r_ret r, h))"

definition bpf_map_get_fd_by_id :: "env \<Rightarrow> u32 \<Rightarrow> hist \<Rightarrow> int \<times> hist" where
  "bpf_map_get_fd_by_id env i h =
     (let (r, h) = sys_bpf env BPF_MAP_GET_FD_BY_ID (Obj_id i) h in (r_ret r, h))"

definition bpf_btf_get_fd_by_id :: "env \<Rightarrow> u32 \<Rightarrow> hist \<Rightarrow> int \<times> hist" where
  "bpf_btf_get_fd_by_id env i h =
     (let (r, h) = sys_bpf env BPF_BTF_GET_FD_BY_ID (Obj_id i) h in (r_ret r, h))"

definition bpf_obj_get_info_by_fd :: "env \<Rightarrow> int \<Rightarrow> u32 \<Rightarrow> hist \<Rightarrow> int \<times> u8 list \<times> u32 \<times> hist" where
  "bpf_obj_get_info_by_fd env prog_fd info_len h =
     (let (r, h) = sys_bpf env BPF_OBJ_GET_INFO_BY_FD (Info (word_of_int prog_fd) info_len) h
      in (r_ret r, r_data r,
          if r_ret r = 0 then (case r_attr r of Some (Info _ n) \<Rightarrow> n | _ \<Rightarrow> info_len) else info_len, h))"

section \<open>Loading BTF\<close>

text \<open>One round of the loop; the attributes keep the log buffer once it is set.\<close>

definition btf_attr_of :: "u8 list \<Rightarrow> u32 \<Rightarrow> bool \<Rightarrow> u32 \<Rightarrow> bool \<Rightarrow> btf_attr" where
  "btf_attr_of btf btf_size log_buf log_buf_size do_log =
     (let logs = do_log \<and> log_buf \<and> log_buf_size \<noteq> 0 in
      \<lparr>a_btf = btf, a_btf_size = btf_size, a_btf_log_level = (if logs then 1 else 0),
       a_btf_log_size = (if logs then log_buf_size else 0), a_btf_log_buf = logs\<rparr>)"

definition bpf_load_btf :: "env \<Rightarrow> u8 list \<Rightarrow> u32 \<Rightarrow> bool \<Rightarrow> u32 \<Rightarrow> bool \<Rightarrow> hist \<Rightarrow> int \<times> hist" where
  "bpf_load_btf env btf btf_size log_buf log_buf_size do_log h =
     (let (r, h) = sys_bpf env BPF_BTF_LOAD (Btf_load (btf_attr_of btf btf_size log_buf log_buf_size do_log)) h in
      if r_ret r = - 1 \<and> \<not> do_log \<and> log_buf \<and> log_buf_size \<noteq> 0
      then let (r, h) = sys_bpf env BPF_BTF_LOAD (Btf_load (btf_attr_of btf btf_size log_buf log_buf_size True)) h
        in (r_ret r, h)
      else (r_ret r, h))"

section \<open>Queries about an event\<close>

text \<open>The reply carries the name that the kernel stored in the buffer and the other answers.\<close>

definition task_query :: "int \<Rightarrow> int \<Rightarrow> u32 \<Rightarrow> u32 \<Rightarrow> task_fd_attr" where
  "task_query pid fd flags buf_len =
     \<lparr>a_tfq_pid = word_of_int pid, a_tfq_fd = word_of_int fd, a_tfq_flags = flags,
      a_tfq_buf_len = buf_len, a_tfq_prog_id = 0, a_tfq_fd_type = 0, a_tfq_probe_offset = 0,
      a_tfq_probe_addr = 0\<rparr>"

definition task_answer :: "task_fd_attr \<Rightarrow> reply \<Rightarrow> task_fd_attr" where
  "task_answer attr r = (case r_attr r of Some (Task_fd_query a) \<Rightarrow> a | _ \<Rightarrow> attr)"

definition bpf_task_fd_query ::
  "env \<Rightarrow> int \<Rightarrow> int \<Rightarrow> u32 \<Rightarrow> u32 \<Rightarrow> hist \<Rightarrow> int \<times> u8 list \<times> task_fd_attr \<times> hist" where
  "bpf_task_fd_query env pid fd flags buf_len h =
     (let attr = task_query pid fd flags buf_len;
          (r, h) = sys_bpf env BPF_TASK_FD_QUERY (Task_fd_query attr) h
      in (r_ret r, r_data r, task_answer attr r, h))"

section \<open>What the functions ask for\<close>

text \<open>A verification that ends asks for nothing but the load of one program.\<close>

lemma bpf_verify_program_patient:
  assumes "patient fuel env"
  shows "\<exists>fd h'. bpf_verify_program fuel env type insns cnt flags lic kv sz level h = Inr (fd, h') \<and>
    made prog_load_call h h'"
proof -
  let ?attr = "\<lparr>a_prog_type = type, a_insn_cnt = ucast cnt, a_insns = insns, a_license = lic,
     a_log_level = level, a_log_size = ucast sz, a_log_buf = True, a_kern_version = kv,
     a_prog_flags = flags, a_prog_name = [], a_prog_ifindex = 0, a_expected_attach_type = 0,
     a_prog_btf_fd = 0, a_func_info_rec_size = 0, a_func_info = [], a_func_info_cnt = 0,
     a_line_info_rec_size = 0, a_line_info = [], a_line_info_cnt = 0\<rparr>"
  obtain r a h' where load: "sys_bpf_prog_load fuel env ?attr h = Inr (r, a, h')"
    using sys_bpf_prog_load_returns [OF assms le_refl] by (metis prod_cases3)
  then show ?thesis
    using sys_bpf_prog_load_made [OF load] by (auto simp: bpf_verify_program_def)
qed

text \<open>
  BTF is loaded with at most two calls, and the second, with a log, is made only after the first
  has failed without one.
\<close>

lemma bpf_load_btf_calls:
  "\<exists>cs. snd (bpf_load_btf env btf btf_size log_buf log_buf_size do_log h) = h @ cs \<and>
    (cs = [Bpf BPF_BTF_LOAD (Btf_load (btf_attr_of btf btf_size log_buf log_buf_size do_log))] \<or>
     \<not> do_log \<and> log_buf \<and>
     cs = [Bpf BPF_BTF_LOAD (Btf_load (btf_attr_of btf btf_size log_buf log_buf_size False)),
           Bpf BPF_BTF_LOAD (Btf_load (btf_attr_of btf btf_size log_buf log_buf_size True))])"
  by (simp add: bpf_load_btf_def sys_bpf_def sys_def Let_def)

lemma next_id_unchanged:
  "bpf_obj_get_next_id env start_id next_id cmd h = (err, n, h') \<Longrightarrow> err \<noteq> 0 \<Longrightarrow> n = next_id"
  by (auto simp: bpf_obj_get_next_id_def sys_bpf_def sys_def)

end
