(* ===== verification/Task_Fd_Query.thy ===== *)
theory Task_Fd_Query
  imports Libbpf_Rest Trace_User Ksym
begin

text \<open>
  The test program \<open>task_fd_query_user.c\<close>: it attaches programs to kernel and user functions in
  three ways and asks the kernel what it knows about each event.  A function that returns a status
  takes what the caller does with it as an argument.  The address of a buffer in one message is
  left out.
\<close>

section \<open>Helpers\<close>

definition CHECK_PERROR_RET :: "env \<Rightarrow> string \<Rightarrow> (int \<Rightarrow> uprog) \<Rightarrow> bool \<Rightarrow> uprog \<Rightarrow> uprog" where
  "CHECK_PERROR_RET env func ret condition k =
     (if condition then uputs env (nl (''FAIL: '' @ func @ '':'')) (ret (- 1)) else k)"

definition CHECK_AND_RET :: "((int \<Rightarrow> uprog) \<Rightarrow> uprog) \<Rightarrow> uprog \<Rightarrow> uprog" where
  "CHECK_AND_RET test k = test (\<lambda>status. if status \<noteq> 0 then ureturn (- 1) else k)"

text \<open>
  A read into an array that held the path name before: the bytes after those read are still the
  old ones.  The number at its start has to end inside the array.
\<close>

definition read_over :: "string \<Rightarrow> reply \<Rightarrow> u8 list" where
  "read_over path r =
     (let data = take (nat (r_ret r)) (r_data r) in
      data @ drop (length data) (bytes_of_string path @ [0]))"

definition strtol_arr :: "u8 list \<Rightarrow> string res" where
  "strtol_arr bs =
     (let s = map (\<lambda>b. char_of (unat b)) bs in
      if dropWhile isdigit (snd (split_sign s)) = [] then Inl Uninit_read else Inr s)"

text \<open>Whether \<open>strtol\<close> sets \<open>errno\<close>.\<close>

definition strtol_erange :: "string \<Rightarrow> bool" where
  "strtol_erange s = (case split_sign s of (neg, ds) \<Rightarrow>
     let v = int (read_digits ds 0) in if neg then 2 ^ 63 < v else 2 ^ 63 - 1 < v)"

text \<open>\<open>strtol(s, NULL, 0)\<close>: a number that starts with \<open>0x\<close> is hexadecimal, one that starts with \<open>0\<close> octal.\<close>

primrec read_octal :: "string \<Rightarrow> nat \<Rightarrow> nat" where
  "read_octal [] acc = acc"
| "read_octal (c # cs) acc =
     (if isdigit c \<and> digit_val c < 8 then read_octal cs (8 * acc + digit_val c) else acc)"

definition strtol0 :: "string \<Rightarrow> int" where
  "strtol0 s = (case split_sign s of (neg, ds) \<Rightarrow>
     let v = int (if take 2 ds = ''0x'' \<or> take 2 ds = ''0X'' then fst (scan_hex (drop 2 ds) 0)
                  else if take 1 ds = ''0'' then read_octal ds 0 else read_digits ds 0) in
     if neg then max (- (2 ^ 63)) (- v) else min (2 ^ 63 - 1) v)"

abbreviation BPF_FD_TYPE_KPROBE :: u32 where "BPF_FD_TYPE_KPROBE \<equiv> 2"
abbreviation BPF_FD_TYPE_KRETPROBE :: u32 where "BPF_FD_TYPE_KRETPROBE \<equiv> 3"
abbreviation BPF_FD_TYPE_UPROBE :: u32 where "BPF_FD_TYPE_UPROBE \<equiv> 4"
abbreviation BPF_FD_TYPE_URETPROBE :: u32 where "BPF_FD_TYPE_URETPROBE \<equiv> 5"
abbreviation PERF_FLAG_FD_CLOEXEC :: u64 where "PERF_FLAG_FD_CLOEXEC \<equiv> 8"
abbreviation sizeof_perf_event_attr :: u32 where "sizeof_perf_event_attr \<equiv> 112"

definition uquery ::
  "env \<Rightarrow> int \<Rightarrow> u32 \<Rightarrow> (int \<Rightarrow> u8 list \<Rightarrow> task_fd_attr \<Rightarrow> uprog) \<Rightarrow> uprog" where
  "uquery env fd buf_len k =
     ucall env (Libc ''getpid'' []) (\<lambda>p L.
     let (err, buf, attr, h) = bpf_task_fd_query env (r_ret p) fd 0 buf_len (calls L)
     in k err buf attr (L\<lparr>calls := h\<rparr>))"

definition hex64 :: "u64 \<Rightarrow> string" where
  "hex64 w = ''0x'' @ hex_nat (unat w)"

section \<open>The type of a probe\<close>

definition bpf_find_probe_type :: "env \<Rightarrow> string \<Rightarrow> (int \<Rightarrow> uprog) \<Rightarrow> uprog" where
  "bpf_find_probe_type env event_type ret =
     (let path = ''/sys/bus/event_source/devices/'' @ event_type @ ''/type'';
          check = CHECK_PERROR_RET env ''bpf_find_probe_type'' ret in
      check (length path \<ge> 256) (
      ucall env (Open path [O_RDONLY]) (\<lambda>f. let fd = r_ret f in
      check (fd < 0) (
      ucall env (Read fd 256) (\<lambda>rd.
      ucall env (Close fd) (\<lambda>_.
      check (r_ret rd < 0 \<or> r_ret rd \<ge> 256) (
      urun (strtol_arr (read_over path rd)) (\<lambda>s.
      check (strtol_erange s) (ret (to_int32 (strtol10 s)))))))))))"

definition bpf_get_retprobe_bit :: "env \<Rightarrow> string \<Rightarrow> (int \<Rightarrow> uprog) \<Rightarrow> uprog" where
  "bpf_get_retprobe_bit env event_type ret =
     (let path = ''/sys/bus/event_source/devices/'' @ event_type @ ''/format/retprobe'';
          check = CHECK_PERROR_RET env ''bpf_get_retprobe_bit'' ret in
      check (length path \<ge> 256) (
      ucall env (Open path [O_RDONLY]) (\<lambda>f. let fd = r_ret f in
      check (fd < 0) (
      ucall env (Read fd 256) (\<lambda>rd.
      ucall env (Close fd) (\<lambda>_.
      check (r_ret rd < 0 \<or> r_ret rd \<ge> 256) (
      urun (buffer_string (read_over path rd)) (\<lambda>s.
      check (length s < length ''config:'') (
      let s = drop (length ''config:'') s in
      check (strtol_erange s) (ret (to_int32 (strtol10 s))))))))))))"

section \<open>The tests\<close>

definition test_debug_fs_kprobe :: "env \<Rightarrow> nat \<Rightarrow> string \<Rightarrow> u32 \<Rightarrow> (int \<Rightarrow> uprog) \<Rightarrow> uprog" where
  "test_debug_fs_kprobe env prog_fd_idx fn_name expected_fd_type ret L =
     bind_res (nth_res (event_fd L) prog_fd_idx) (\<lambda>fd.
     uquery env fd 256 (\<lambda>err buf attr.
     if err < 0 then
       uputs env (nl (''FAIL: test_debug_fs_kprobe, for event_fd idx '' @ dec_nat prog_fd_idx @
                      '', fn_name '' @ fn_name)) (ret (- 1))
     else
       urun (buffer_string buf) (\<lambda>name.
       if name \<noteq> fn_name \<or> a_tfq_fd_type attr \<noteq> expected_fd_type \<or> a_tfq_probe_offset attr \<noteq> 0 \<or>
          a_tfq_probe_addr attr \<noteq> 0
       then
         uputs env (nl (''FAIL: bpf_trace_event_query(event_fd['' @ dec_nat prog_fd_idx @ '']):'')) (
         uputs env (nl (''buf: '' @ name @ '', fd_type: '' @ dec_nat (unat (a_tfq_fd_type attr)) @
                        '', probe_offset: '' @ hex64 (a_tfq_probe_offset attr) @
                        '', probe_addr: '' @ hex64 (a_tfq_probe_addr attr))) (ret (- 1)))
       else ret 0)) L)"

text \<open>
  Opening an event without the debug file system.  \<open>addr_of\<close> is where the name lies in memory; a
  shift out of the range of \<open>int\<close> is not defined.  The answers are None when the status is \<open>-1\<close>.
\<close>

definition kuprobe_attr ::
  "(string \<Rightarrow> u64) \<Rightarrow> int \<Rightarrow> int \<Rightarrow> string option \<Rightarrow> u64 \<Rightarrow> u64 \<Rightarrow> bool \<Rightarrow> perf_event_attr" where
  "kuprobe_attr addr_of type is_return_bit name offset addr is_return =
     perf_attr_zero\<lparr>pe_sample_period := 1, pe_wakeup_events := 1,
       pe_config := (if is_return then push_bit (nat is_return_bit) 1 else 0),
       pe_config1 := (case name of Some n \<Rightarrow> addr_of n | None \<Rightarrow> 0),
       pe_config2 := (case name of Some n \<Rightarrow> offset | None \<Rightarrow> addr),
       pe_size := sizeof_perf_event_attr, pe_type := word_of_int type\<rparr>"

definition test_nondebug_fs_kuprobe_common ::
  "env \<Rightarrow> (string \<Rightarrow> u64) \<Rightarrow> string \<Rightarrow> string option \<Rightarrow> u64 \<Rightarrow> u64 \<Rightarrow> bool \<Rightarrow> u32 \<Rightarrow>
   ((u8 list \<times> task_fd_attr) option \<Rightarrow> uprog) \<Rightarrow> uprog" where
  "test_nondebug_fs_kuprobe_common env addr_of event_type name offset addr is_return buf_len k =
     (let check = CHECK_PERROR_RET env ''test_nondebug_fs_kuprobe_common'' (\<lambda>_. k None) in
      bpf_get_retprobe_bit env event_type (\<lambda>is_return_bit.
      bpf_find_probe_type env event_type (\<lambda>type.
      if type < 0 \<or> is_return_bit < 0 then
        uputs env (nl (''FAIL: test_nondebug_fs_kuprobe_common incorrect type ('' @ dec type @
                       '') or is_return_bit ('' @ dec is_return_bit @ '')'')) (k None)
      else if is_return \<and> 31 \<le> is_return_bit then ufail Out_of_bounds
      else
        ucall env (Perf_event_open (kuprobe_attr addr_of type is_return_bit name offset addr is_return)
                     (- 1) 0 (- 1) 0) (\<lambda>f. let fd = r_ret f in
        check (fd < 0) (
        ucall env (Ioctl fd PERF_EVENT_IOC_ENABLE 0) (\<lambda>r.
        check (r_ret r < 0) (\<lambda>L.
        bind_res (nth_res (prog_fd L) 0) (\<lambda>prog.
        ucall env (Ioctl fd PERF_EVENT_IOC_SET_BPF prog) (\<lambda>r.
        check (r_ret r < 0) (
        uquery env fd buf_len (\<lambda>err buf attr.
        check (err < 0) (k (Some (buf, attr)))))) L))))))))"

definition test_nondebug_fs_probe ::
  "env \<Rightarrow> (string \<Rightarrow> u64) \<Rightarrow> string \<Rightarrow> string option \<Rightarrow> u64 \<Rightarrow> u64 \<Rightarrow> bool \<Rightarrow> u32 \<Rightarrow> u32 \<Rightarrow> u32 \<Rightarrow>
   (int \<Rightarrow> uprog) \<Rightarrow> uprog" where
  "test_nondebug_fs_probe env addr_of event_type name offset addr is_return expected_fd_type
       expected_ret_fd_type buf_len ret =
     (let fail = (\<lambda>s. uputs env (nl (''FAIL: test_nondebug_fs_probe, '' @ s)) (ret (- 1))) in
      test_nondebug_fs_kuprobe_common env addr_of event_type name offset addr is_return buf_len (\<lambda>answer.
      case answer of
        None \<Rightarrow>
          fail (''for name '' @ (case name of Some n \<Rightarrow> n | None \<Rightarrow> []) @ '', offset '' @ hex64 offset @
                '', addr '' @ hex64 addr @ '', is_return '' @ (if is_return then ''1'' else ''0''))
      | Some (buf, attr) \<Rightarrow>
          if is_return \<and> a_tfq_fd_type attr \<noteq> expected_ret_fd_type \<or>
             \<not> is_return \<and> a_tfq_fd_type attr \<noteq> expected_fd_type
          then fail (''incorrect fd_type '' @ dec_nat (unat (a_tfq_fd_type attr)))
          else (case name of
              Some n \<Rightarrow>
                urun (buffer_string buf) (\<lambda>s.
                if n \<noteq> s then fail (''incorrect buf '' @ s)
                else if a_tfq_probe_offset attr \<noteq> offset
                then fail (''incorrect probe_offset '' @ hex64 (a_tfq_probe_offset attr))
                else ret 0)
            | None \<Rightarrow>
                if a_tfq_buf_len attr \<noteq> 0 then fail ''incorrect buf''
                else if a_tfq_probe_addr attr \<noteq> addr
                then fail (''incorrect probe_addr '' @ hex64 (a_tfq_probe_addr attr))
                else ret 0)))"

text \<open>
  The test through the debug file system.  The first \<open>snprintf\<close> cannot be cut off; the results of
  the others are checked, except for the path of the identifier.
\<close>

definition uprobe_query ::
  "env \<Rightarrow> string \<Rightarrow> int \<Rightarrow> bool \<Rightarrow> int \<Rightarrow> (int \<Rightarrow> uprog) \<Rightarrow> uprog" where
  "uprobe_query env binary_path offset is_return kfd ret =
     (let fail = (\<lambda>s. uputs env (nl (''FAIL: test_debug_fs_uprobe, '' @ s)) (ret (- 1))) in
      uquery env kfd 256 (\<lambda>err buf attr.
      if err < 0 then fail (''binary_path '' @ binary_path)
      else if is_return \<and> a_tfq_fd_type attr \<noteq> BPF_FD_TYPE_URETPROBE \<or>
              \<not> is_return \<and> a_tfq_fd_type attr \<noteq> BPF_FD_TYPE_UPROBE
      then fail (''incorrect fd_type '' @ dec_nat (unat (a_tfq_fd_type attr)))
      else
        urun (buffer_string buf) (\<lambda>s.
        if binary_path \<noteq> s then fail (''incorrect buf '' @ s)
        else if a_tfq_probe_offset attr \<noteq> word_of_int offset
        then fail (''incorrect probe_offset '' @ hex64 (a_tfq_probe_offset attr))
        else ucall env (Close kfd) (\<lambda>_. ret 0))))"

definition test_debug_fs_uprobe :: "env \<Rightarrow> string \<Rightarrow> int \<Rightarrow> bool \<Rightarrow> (int \<Rightarrow> uprog) \<Rightarrow> uprog" where
  "test_debug_fs_uprobe env binary_path offset is_return ret =
     (let check = CHECK_PERROR_RET env ''test_debug_fs_uprobe'' ret in
      ucall env (Open ''/sys/kernel/debug/tracing/uprobe_events'' [O_WRONLY, O_APPEND]) (\<lambda>f. let kfd = r_ret f in
      check (kfd < 0) (
      ucall env (Libc ''getpid'' []) (\<lambda>p. let event_alias = ''test_'' @ dec (r_ret p) in
      check (length event_alias \<ge> 16) (
      let buf = (if is_return then ''r'' else ''p'') @ '':uprobes/'' @ event_alias @ '' '' @ binary_path @
                '':0x'' @ hex_nat (unat (word_of_int offset :: u64)) in
      check (length buf \<ge> 256) (
      ucall env (Write kfd buf) (\<lambda>w.
      check (r_ret w < 0) (
      ucall env (Close kfd) (\<lambda>_.
      ucall env (Open (snprintf_buf 256 (''/sys/kernel/debug/tracing/events/uprobes/'' @ event_alias @ ''/id''))
                   [O_RDONLY]) (\<lambda>f. let efd = r_ret f in
      check (efd < 0) (
      ucall env (Read efd 256) (\<lambda>rd.
      check (r_ret rd \<le> 0 \<or> r_ret rd \<ge> 256) (
      ucall env (Close efd) (\<lambda>_.
      let id_text = string_of_bytes (take (nat (r_ret rd)) (r_data rd));
          attr = perf_attr_zero\<lparr>pe_config := word_of_int (strtol0 id_text), pe_type := PERF_TYPE_TRACEPOINT,
                   pe_sample_period := 1, pe_wakeup_events := 1\<rparr> in
      ucall env (Perf_event_open attr (- 1) 0 (- 1) PERF_FLAG_FD_CLOEXEC) (\<lambda>f. let kfd = r_ret f in
      check (kfd < 0) (\<lambda>L.
      bind_res (nth_res (prog_fd L) 0) (\<lambda>prog.
      ucall env (Ioctl kfd PERF_EVENT_IOC_SET_BPF prog) (\<lambda>r.
      check (r_ret r < 0) (
      ucall env (Ioctl kfd PERF_EVENT_IOC_ENABLE 0) (\<lambda>r.
      check (r_ret r < 0) (
      uprobe_query env binary_path offset is_return kfd ret)))) L)))))))))))))))))"

section \<open>The program\<close>

text \<open>
  \<open>uprobe_file_offset\<close> is the distance of \<open>main\<close> from the start of the program; the file of kernel
  symbols is an argument.
\<close>

definition nondebug_tests ::
  "env \<Rightarrow> (string \<Rightarrow> u64) \<Rightarrow> ksym list \<Rightarrow> string \<Rightarrow> u64 \<Rightarrow> ((int \<Rightarrow> uprog) \<Rightarrow> uprog) list" where
  "nondebug_tests env addr_of syms argv0 uprobe_file_offset =
     (let kprobe = (\<lambda>name offset addr is_return.
            test_nondebug_fs_probe env addr_of ''kprobe'' name offset addr is_return
              BPF_FD_TYPE_KPROBE BPF_FD_TYPE_KRETPROBE);
          uprobe = (\<lambda>is_return.
            test_nondebug_fs_probe env addr_of ''uprobe'' (Some argv0) uprobe_file_offset 0 is_return
              BPF_FD_TYPE_UPROBE BPF_FD_TYPE_URETPROBE 256);
          check_addr = word_of_int (ksym_get_addr syms ''bpf_check'') in
      [kprobe (Some ''bpf_check'') 0 0 False 256,
       kprobe (Some ''bpf_check'') 5 0 False 256,
       kprobe (Some ''bpf_check'') 0 0 True 256,
       kprobe None 0 check_addr False 256,
       kprobe None 0 check_addr False 0,
       kprobe None 0 check_addr True 256,
       kprobe None 0 check_addr True 0,
       uprobe False,
       uprobe True])"

definition task_fd_query_main ::
  "nat \<Rightarrow> libelf \<Rightarrow> env \<Rightarrow> (string \<Rightarrow> u64) \<Rightarrow> string list option \<Rightarrow> u64 \<Rightarrow> string \<Rightarrow> uprog" where
  "task_fd_query_main fuel lib env addr_of kallsyms uprobe_file_offset argv0 =
     ucall env (Libc ''setrlimit'' [8, 1048576, - 1]) (\<lambda>r.
     if r_ret r \<noteq> 0 then ureturn 1
     else
       urun (load_kallsyms kallsyms) (\<lambda>(err, syms).
       if err \<noteq> 0 then uputs env (nl ''failed to process /proc/kallsyms'') (ureturn 1)
       else
         load_or_log fuel lib env argv0 (
         foldr CHECK_AND_RET
           ([test_debug_fs_kprobe env 0 ''blk_mq_start_request'' BPF_FD_TYPE_KPROBE,
             test_debug_fs_kprobe env 1 ''blk_account_io_completion'' BPF_FD_TYPE_KRETPROBE] @
            nondebug_tests env addr_of syms argv0 uprobe_file_offset @
            [test_debug_fs_uprobe env argv0 (sint uprobe_file_offset) False,
             test_debug_fs_uprobe env argv0 (sint uprobe_file_offset) True])
           (ureturn 0))))"

section \<open>What a passed test means\<close>

text \<open>The answer of the system to a query about an event.\<close>

definition query_reply :: "env \<Rightarrow> int \<Rightarrow> u32 \<Rightarrow> loader \<Rightarrow> reply \<times> task_fd_attr" where
  "query_reply env fd buf_len L =
     (let h = calls L @ [Libc ''getpid'' []];
          attr = task_query (r_ret (env (calls L) (Libc ''getpid'' []))) fd 0 buf_len;
          r = env h (Bpf BPF_TASK_FD_QUERY (Task_fd_query attr)) in
      (r, task_answer attr r))"

lemma uquery_eq:
  "\<exists>L'. uquery env fd buf_len k L =
    k (r_ret (fst (query_reply env fd buf_len L))) (r_data (fst (query_reply env fd buf_len L)))
      (snd (query_reply env fd buf_len L)) L'"
  by (auto simp: uquery_def ucall_eq bpf_task_fd_query_def sys_bpf_def sys_def query_reply_def Let_def)

text \<open>
  The test of a probe that was attached through the debug file system passes exactly when the
  kernel knows the event under the name and the kind that were asked for, without an offset.
\<close>

lemma test_debug_fs_kprobe_iff:
  assumes "idx < length (event_fd L)"
  shows "(\<exists>L'. test_debug_fs_kprobe env idx fn ty ureturn L = Inr (0, L')) \<longleftrightarrow>
    (case query_reply env (event_fd L ! idx) 256 L of (r, attr) \<Rightarrow>
       0 \<le> r_ret r \<and> buffer_string (r_data r) = Inr fn \<and> a_tfq_fd_type attr = ty \<and>
       a_tfq_probe_offset attr = 0 \<and> a_tfq_probe_addr attr = 0)"
proof -
  obtain r attr where q: "query_reply env (event_fd L ! idx) 256 L = (r, attr)"
    by fastforce
  define k where "k = (\<lambda>(err :: int) buf (attr :: task_fd_attr).
     if err < 0 then
       uputs env (nl (''FAIL: test_debug_fs_kprobe, for event_fd idx '' @ dec_nat idx @
                      '', fn_name '' @ fn)) (ureturn (- 1))
     else
       urun (buffer_string buf) (\<lambda>name.
       if name \<noteq> fn \<or> a_tfq_fd_type attr \<noteq> ty \<or> a_tfq_probe_offset attr \<noteq> 0 \<or> a_tfq_probe_addr attr \<noteq> 0
       then
         uputs env (nl (''FAIL: bpf_trace_event_query(event_fd['' @ dec_nat idx @ '']):'')) (
         uputs env (nl (''buf: '' @ name @ '', fd_type: '' @ dec_nat (unat (a_tfq_fd_type attr)) @
                        '', probe_offset: '' @ hex64 (a_tfq_probe_offset attr) @
                        '', probe_addr: '' @ hex64 (a_tfq_probe_addr attr))) (ureturn (- 1)))
       else ureturn 0))"
  obtain M where "uquery env (event_fd L ! idx) 256 k L = k (r_ret r) (r_data r) attr M"
    using uquery_eq [of env "event_fd L ! idx" 256 k L] q by auto
  then have "test_debug_fs_kprobe env idx fn ty ureturn L = k (r_ret r) (r_data r) attr M"
    using assms by (simp add: test_debug_fs_kprobe_def nth_res_def flip: k_def)
  then show ?thesis
    by (cases "buffer_string (r_data r)") (auto simp: k_def q uputs_eq ureturn_def urun_def)
qed

end
