(* ===== verification/Small_Progs.thy ===== *)
theory Small_Progs
  imports Trace_User
begin

text \<open>
  The kernel module behind \<open>/proc/helloworld\<close> (\<open>procfs_read.c\<close>) with its test, and the small
  programs that only read a file or the counts of packets.
\<close>

section \<open>The file in proc\<close>

abbreviation BUFSIZE :: nat where "BUFSIZE \<equiv> 4096"
abbreviation EFAULT :: int where "EFAULT \<equiv> 14"

definition mywrite :: int where
  "mywrite = - 1"

text \<open>
  What \<open>sprintf\<close> leaves in an allocated buffer when it prints at a place: the text and a zero, which
  have to fit.
\<close>

definition sprintf_at :: "u8 list \<Rightarrow> nat \<Rightarrow> string \<Rightarrow> (nat \<times> u8 list) res" where
  "sprintf_at buf at text =
     (if length buf \<le> at + length text then Inl Buffer_overflow
      else Inr (length text, take at buf @ bytes_of_string text @ [0] @ drop (Suc (at + length text)) buf))"

text \<open>
  \<open>kbuf\<close> are the bytes in freshly allocated memory, None when there is none, and \<open>uncopied\<close> is what
  \<open>copy_to_user\<close> returns.  The result is the returned value, the bytes given to the user, the new
  position in the file, and whether the buffer is still allocated.
\<close>

definition myread ::
  "u8 list option \<Rightarrow> nat \<Rightarrow> nat \<Rightarrow> int \<Rightarrow> (int \<times> u8 list \<times> int \<times> bool) res" where
  "myread kbuf uncopied n ppos =
     (if 0 < ppos \<or> n < BUFSIZE then Inr (0, [], ppos, kbuf \<noteq> None)
      else case kbuf of
        None \<Rightarrow> Inl Null_deref
      | Some buf \<Rightarrow>
          bind_res (sprintf_at buf 0 (replicate (BUFSIZE - 2) CHR ''0'')) (\<lambda>(len, buf).
          bind_res (sprintf_at buf len (nl [])) (\<lambda>(len2, buf).
          let len = len + len2 in
          if uncopied \<noteq> 0 then Inr (- EFAULT, take (len - uncopied) buf, ppos, True)
          else Inr (int len, take len buf, int len, False))))"

text \<open>The directory entry, None when it cannot be created.\<close>

definition simple_init :: "'e option \<Rightarrow> int \<times> 'e option" where
  "simple_init created = (if created = None then (- 12, None) else (0, created))"

definition simple_cleanup :: "'e option \<Rightarrow> 'e option" where
  "simple_cleanup ent = None"

text \<open>The program prints its array as a string, of which a read of the file leaves the end unset.\<close>

definition usertest_main :: "env \<Rightarrow> uprog" where
  "usertest_main env =
     ucall env (Open ''/proc/helloworld'' [O_RDWR]) (\<lambda>f.
     ucall env (Read (r_ret f) 4096) (\<lambda>rd.
     urun (buffer_string (r_data rd)) (\<lambda>s.
     uputs env (nl s) (
     uputs env (nl (''read size '' @ dec (r_ret rd))) (ureturn 0)))))"

section \<open>Reading a file\<close>

definition readfile_main :: "env \<Rightarrow> uprog" where
  "readfile_main env =
     ucall env (Open ''f'' [O_RDONLY]) (\<lambda>f. let fd = r_ret f in
     if fd = - 1 then uputs env (nl ''error open file'') (ureturn 1)
     else
       ucall env (Malloc 10) (\<lambda>b.
       ucall env (Read_buf fd (r_ret b) 1) (\<lambda>rd.
       urun (buffer_string (r_data rd)) (\<lambda>s.
       uputs env (nl s) (
       ucall env (Close fd) (\<lambda>_. ureturn 0))))))"

definition attach_read_test :: "env \<Rightarrow> string \<Rightarrow> uprog" where
  "attach_read_test env filename =
     ucall env (Open filename [O_RDONLY]) (\<lambda>f. let fd = r_ret f in
     if fd < 0 then ureturn 1
     else
       ucall env (Malloc 150) (\<lambda>b.
       ucall env (Read_buf fd (r_ret b) 20) (\<lambda>_.
       ucall env (Close fd) (\<lambda>_. ureturn 0))))"

definition attach_read_main :: "env \<Rightarrow> uprog" where
  "attach_read_main env = attach_read_test env ''numfile''"

section \<open>The counts of packets\<close>

definition open_raw_sock :: "env \<Rightarrow> string \<Rightarrow> (int \<Rightarrow> uprog) \<Rightarrow> uprog" where
  "open_raw_sock env name ret =
     ucall env (Libc ''socket'' [17, 526339, 768]) (\<lambda>r. let sock = r_ret r in
     if sock < 0 then uputs env (nl ''cannot create raw socket'') (ret (- 1))
     else
       ucall env (Libc (''if_nametoindex '' @ name) []) (\<lambda>i.
       ucall env (Libc ''bind'' [sock, r_ret i]) (\<lambda>b.
       if r_ret b < 0 then
         ucall env (Libc ''strerror'' [r_errno b]) (\<lambda>e.
         uputs env (nl (''bind to '' @ name @ '': '' @ string_of_bytes (r_data e))) (
         ucall env (Close sock) (\<lambda>_. ret (- 1))))
       else ret sock)))"

text \<open>A lookup of a count that has to succeed.\<close>

definition assert_count :: "env \<Rightarrow> int \<Rightarrow> u32 \<Rightarrow> (int \<Rightarrow> uprog) \<Rightarrow> uprog" where
  "assert_count env fd key k L =
     (let (ret, val, h) = bpf_map_lookup_elem env fd (word_bytes key) (calls L) in
      if ret \<noteq> 0 then Inl Assert_failed
      else bind_res (lookup_var 8 ret val) (\<lambda>bs. k (sint (bytes_word bs :: u64)) (L\<lparr>calls := h\<rparr>)))"

primrec show_counts :: "env \<Rightarrow> int \<Rightarrow> nat \<Rightarrow> uprog \<Rightarrow> uprog" where
  "show_counts env fd 0 k = k"
| "show_counts env fd (Suc n) k =
     assert_count env fd 6 (\<lambda>tcp_cnt.
     assert_count env fd 17 (\<lambda>udp_cnt.
     assert_count env fd 1 (\<lambda>icmp_cnt.
     uputs env (nl (''TCP '' @ dec tcp_cnt @ '' UDP '' @ dec udp_cnt @ '' ICMP '' @ dec icmp_cnt)) (
     ucall env (Libc ''sleep'' [1]) (\<lambda>_. show_counts env fd n k)))))"

text \<open>
  The program after \<open>bpf_prog_load\<close>, whose outcome is an argument: the descriptors of the program
  and of the map, or None when it fails.
\<close>

definition sock_main :: "env \<Rightarrow> (int \<times> int) option \<Rightarrow> uprog" where
  "sock_main env outcome =
     (case outcome of
        None \<Rightarrow> ureturn 1
      | Some (prog, counts) \<Rightarrow>
          uputs env (nl ''loaded module'') (
          open_raw_sock env ''lo'' (\<lambda>sock.
          ucall env (Libc ''setsockopt'' [sock, 1, 50, prog]) (\<lambda>r.
          if r_ret r \<noteq> 0 then ufail Assert_failed
          else
            ucall env (Libc ''popen ping -4 -c5 localhost'' []) (\<lambda>_.
            show_counts env counts 5 (ureturn 0))))))"

section \<open>What the file delivers\<close>

lemma sprintf_at_fits:
  assumes "at + length text < length buf"
  shows "sprintf_at buf at text =
    Inr (length text, take at buf @ bytes_of_string text @ [0] @ drop (Suc (at + length text)) buf)"
  using assms by (simp add: sprintf_at_def)

text \<open>A read of at least a page at the start delivers 4094 zeros and a newline, and releases the buffer.\<close>

lemma myread_page:
  assumes "length buf = BUFSIZE" and "BUFSIZE \<le> n"
  shows "myread (Some buf) 0 n 0 =
    Inr (4095, bytes_of_string (replicate 4094 CHR ''0'' @ nl []), 4095, False)"
proof -
  let ?zeros = "bytes_of_string (replicate 4094 CHR ''0'')"
  define rest where "rest = drop 4095 buf"
  have rest: "length rest = 1"
    using assms(1) by (simp add: rest_def)
  have one: "sprintf_at buf 0 (replicate (BUFSIZE - 2) CHR ''0'') = Inr (4094, ?zeros @ [0] @ rest)"
    using assms(1) sprintf_at_fits [of 0 "replicate 4094 CHR ''0''" buf] by (simp add: rest_def)
  have two: "sprintf_at (?zeros @ [0] @ rest) 4094 (nl []) = Inr (1, ?zeros @ bytes_of_string (nl []) @ [0])"
    using rest sprintf_at_fits [of 4094 "nl []" "?zeros @ [0] @ rest"] by simp
  have "take 4095 (?zeros @ bytes_of_string (nl []) @ [0]) = ?zeros @ bytes_of_string (nl [])"
    by simp
  then show ?thesis
    using assms(2) one two by (simp add: myread_def bytes_of_string_def)
qed

text \<open>
  The program \<open>procfs_override_user.c\<close> reads 4095 bytes: the file then delivers nothing, and the
  buffer that was allocated for it is lost.
\<close>

lemma myread_override: "myread (Some buf) uncopied READ_SIZE 0 = Inr (0, [], 0, True)"
  by (simp add: myread_def)

text \<open>The test program prints an array whose end is not set.\<close>

lemma usertest_uninit:
  assumes "\<And>h fd. r_data (env h (Read fd 4096)) = bytes_of_string (replicate 4094 CHR ''0'' @ nl [])"
  shows "usertest_main env L = Inl Uninit_read"
proof -
  have "0 \<notin> set (bytes_of_string (replicate 4094 CHR ''0'' @ nl []))"
    by (simp add: bytes_of_string_def)
  then show ?thesis
    by (simp add: usertest_main_def ucall_eq assms urun_def buffer_string_def)
qed

end
