(* ===== verification/Spec2Isabelle.thy ===== *)
theory Spec2Isabelle
  imports Loader_Props Reduce_Props Cpustat_Props Trace_Props Hashmap_Props Sample_Ip_Props
    Task_Fd_Query Small_Progs
begin

text \<open>
  Verification of a collection of eBPF programs that filter and reduce data on the read path of the
  kernel.

  \<^bold>\<open>The parts and how they interact.\<close>  Each experiment is a pair of C files.  \<open>X_kern.c\<close> holds maps and
  programs that run in the kernel at a probe, a tracepoint, a packet or a clock event;
  \<open>X_user.c\<close> loads the object file with \<open>load_bpf_file\<close>, writes parameters into the maps, triggers
  the event and reads results out of the maps.  In between are the loader \<open>bpf_load.c\<close>, which reads
  the ELF file, creates the maps, relocates and loads the programs and attaches them, and the
  wrappers of the bpf system call in libbpf (\<open>tools/lib/bpf/bpf.c\<close>).

  \<^bold>\<open>The shared layer.\<close>
  \<^item> \<open>Prelude\<close>: machine words, outcomes \<open>fault + 'a\<close> of C code (\<open>res\<close>), the predicates \<open>post\<close> (if it
    returns) and \<open>safe\<close> (it returns) with their rules \<open>wp\<close>, the locale \<open>c_loop\<close> for counted loops,
    little-endian bytes.  \<open>C_Lib\<close>: strings and numbers of the C library.
  \<^item> \<open>Sys_Env\<close>: the operating system as an oracle \<open>env\<close> from the calls made so far and the next call
    to a reply; every program records its calls, so an order of calls can be stated.
  \<^item> \<open>Kernel_Api\<close>: the helper functions of the kernel as a record \<open>kapi\<close>, programs in the state monad,
    and their documented behaviour over a view of the kernel state as the locales \<open>map_helpers\<close>,
    \<open>hash_helpers\<close>, \<open>memory_helpers\<close>, \<open>control_helpers\<close> and \<open>kernel_doc\<close>; \<open>vruns\<close> with the rules \<open>kwp\<close>
    states what a program leaves behind.  \<open>Ref_Kernel\<close> is a kernel that satisfies all of them.
    \<open>Counters\<close>: arrays of 64-bit numbers.
  \<^item> \<open>User_Lib\<close>: programs on the user side, which pass the rest of the program to each call.

  \<^bold>\<open>Loader.\<close>  \<open>Libbpf\<close> and \<open>Libbpf_Rest\<close> model all of \<open>bpf.c\<close>; \<open>Bpf_Insn\<close> the macros of
  \<^verbatim>\<open>src/common/bpf_insn.h\<close>; \<open>Elf_Maps\<close>, \<open>Bpf_Load\<close> and \<open>Load_File\<close> all of \<^verbatim>\<open>src/common/bpf_load.c\<close> in the
  order of its functions, with the global variables in the record \<open>loader\<close> and libelf as the record
  of lookups \<open>libelf\<close>.  (The copies under 415, 504 and out-of-tree differ only in where
  \<open>perf_event_open\<close> is declared.)  \<open>Load_Success\<close> and \<open>Sample_Object\<close> prepare \<open>Loader_Props\<close>: loading is
  safe and complete, succeeds when the system does, keeps the tables in agreement, relocation is the
  macro \<open>BPF_LD_MAP_FD\<close>, the maps section round-trips, and loading terminates.

  \<^bold>\<open>Reductions.\<close>  \<open>Reduce\<close> and \<open>Reduce_User\<close> model \<open>readiter\<close>, \<open>tailcall\<close>, \<open>bpfbench\<close> and \<open>userbench.c\<close> of
  \<^verbatim>\<open>src/out-of-tree\<close>.  \<open>Reduce_Facts\<close> and \<open>Reduce_Props\<close>: the probe stores the average of the numbers on
  a page, the same that \<open>userbench\<close> computes in user space, leaves other readers alone, and the
  ways in which the variants go wrong.  The theorem below joins the two sides.

  \<^bold>\<open>CPU statistics.\<close>  \<open>Cpustat\<close> and \<open>Cpustat_User\<close> model \<^verbatim>\<open>src/415/src/cpustat_kern.c\<close> and
  \<open>cpustat_user.c\<close>.  \<open>Cpustat_Facts\<close> sees the flat arrays as one record per CPU and proves that the
  programs refine operations on it; \<open>Cpustat_Props\<close>: no time is lost or invented, what the user side
  shows is what was recorded, and two wrong attributions.

  \<^bold>\<open>Tracing.\<close>  \<open>Trace_Progs\<close> and \<open>Trace_User\<close> model the other pairs of programs (\<open>buffermap\<close>, \<open>readbuff\<close>,
  \<open>passfd\<close>, \<open>mmap\<close>, \<open>override_exec\<close>, \<open>procfs_override\<close>, \<open>proberead\<close>, \<open>open_tp\<close>, \<open>sock\<close>, \<open>kprobe_open\<close>,
  \<open>strtol\<close>, \<open>perfarray\<close>, \<open>tracex1\<close>, \<open>hellotrace\<close>, \<open>task_fd_query\<close>); \<open>Trace_Facts\<close> and \<open>Trace_Props\<close>: counters
  over any sequence of events, rewriting of addresses, observers that change only the
  trace, one of them with its exact lines.
  \<open>Task_Fd_Query\<close> models the test program about events, \<open>Small_Progs\<close> the kernel module
  \<^verbatim>\<open>src/procfs/procfs_read.c\<close> and small programs.

  \<^bold>\<open>Sampling and symbols.\<close>  \<open>Ksym\<close> models the symbol table of \<open>trace_helpers.c\<close>: loading, sorting and
  bisection are correct when addresses are less than 2 GB apart.  \<open>Sample_Ip\<close> and \<open>Sample_Ip_Props\<close>:
  the profiler \<open>sampleip\<close>, whose hash table refines a map from addresses to counts.

  \<^bold>\<open>Hash table.\<close>  \<open>Hashmap\<close> models \<open>hashmap.c\<close> and its client in \<open>btf_dump.c\<close>; \<open>Hashmap_Facts\<close> proves, for
  any pair of functions in the locale \<open>hash_keys\<close>, what every operation does to the entries of a key;
  \<open>Hashmap_Props\<close>: no call goes wrong within the bounds below, the table is a finite map, the numbering
  of names, the order that growing turns around and the size from which growing overflows.

  \<^bold>\<open>Bounds and fuel.\<close>  \<open>sys_bpf_prog_load\<close> repeats while the kernel answers \<open>EAGAIN\<close> and takes fuel;
  \<open>patient n env\<close> says that \<open>n\<close> calls in a row are not all answered so, and then fuel \<open>n\<close> is enough.
  The endless loops of \<open>cpustat_user.c\<close> and \<open>read_trace_pipe\<close> are cut after a number of rounds that is
  an argument.  The loop of \<open>print_ip_map\<close> needs no fuel: it ends or overruns its array after 8192
  rounds.  All other loops are structural or have a measure.  The hash table is followed for
  \<open>2 ^ 29\<close> calls: it then has at most \<open>2 ^ 30\<close> chains when it grows, which its \<open>int\<close> counter of chains
  can count; from \<open>2 ^ 31\<close> chains on the counter overflows.

  \<^bold>\<open>Hypotheses.\<close>  The kernel's helpers, the operating system, libelf and the contents of files are
  parameters.  Properties of kernel programs assume the documentation of the helpers
  (\<open>kernel_doc K view\<close>, \<open>hash_helpers K view\<close>); every witness instantiates it with \<open>Ref_Kernel\<close>.
  A tail call may fail in them; the average behind a tail call assumes that it does not.  A string of
  libelf comes with the number of bytes left in its table (\<open>strroom\<close>): \<open>memcmp\<close> with a section name may
  read past its end, so well-formed files (\<open>object_ok\<close>) have enough of them.

  \<^bold>\<open>Not modelled.\<close>  Messages on standard error and kernel messages; concurrency of programs on
  different CPUs; programs that do not compile (\<open>attach_read_kern.c\<close>, \<open>attach_open\<close>) and empty files;
  the ring buffer of perf in \<open>perfarray_user.c\<close> and \<open>trace_helpers.c\<close>; the object loader \<open>libbpf.c\<close> that
  only \<open>sock_user.c\<close> calls, whose outcome is an argument there; the rest of the vendored kernel
  tools, which no program uses; the older copies of the same programs under 415, 504 and src.
\<close>

section \<open>From the page to the printed average\<close>

text \<open>What the system answers to a lookup is what the kernel holds in the map of results.\<close>

definition shows_result :: "env \<Rightarrow> int \<Rightarrow> kview \<Rightarrow> bool" where
  "shows_result env fd v =
     (\<forall>h. let r = env h (map_call BPF_MAP_LOOKUP_ELEM fd key0 []) in
        r_ret r = 0 \<and> v_map v result_map key0 = Some (r_data r))"

lemma average_fits:
  assumes "page_fields bs 0 1365 = map Some vs"
  shows "unat (word_of_nat (sum_list vs div 1365) :: u64) = sum_list vs div 1365"
proof -
  have len: "length vs = 1365"
    using arg_cong [OF assms, of length] by (simp add: page_fields_def)
  have "sum_list vs \<le> 1365 * 2 ^ 32"
    using sum_list_bound [OF page_fields_bound [OF assms]] len by simp
  then have "sum_list vs div 1365 < 2 ^ 64"
    by simp
  then show ?thesis
    by (simp add: unat_of_nat)
qed

text \<open>
  C18.  End to end.  The object file is loaded; the user program asks for a buffer, registers its
  address in the first map and reads.  When the kernel then copies a page of numbers to this
  buffer, the probe stores a result such that, if lookups in the second map show what the kernel
  holds, the user program has registered exactly this buffer, prints the average of the numbers on
  the page, and ends with status 0.
\<close>

theorem readiter_end_to_end:
  assumes "kernel_doc K view" and "registered v (PT_REGS_PARM1 ctx)"
    and "mem_bytes v (PT_REGS_PARM2 ctx) UBUFFSIZE = Some bs" and "page_fields bs 0 1365 = map Some vs"
    and "writable v (PT_REGS_PARM1 ctx) 4" and "length cur = 3"
    and "PT_REGS_PARM1 ctx = word_of_int buf"
    and "load_bpf_file fuel lib env (object_name argv0)
           (L\<lparr>calls := calls L @ [Puts (nl (''eBPF file to be loaded is : '' @ object_name argv0 @ '' ''))]\<rparr>)
         = Inr (0, M)"
    and "loader_wf M"
    and "\<And>h. r_ret (env h (Open ''f'' [O_RDONLY])) = fd" and "fd \<noteq> - 1"
    and "\<And>h. r_ret (env h (Malloc 4096)) = buf"
    and "\<And>h a. r_ret (env h (Bpf BPF_MAP_UPDATE_ELEM a)) = 0"
    and "\<And>h. r_ret (env h (Read_buf fd buf 4066)) = n"
    and "\<And>h. r_data (env h (Read_buf fd buf 4066)) = data" and "0 \<in> set data"
  shows "vruns view (readiter_bpf_copyout K cur ctx) v
    (\<lambda>r v'. shows_result env (map_fd M ! 1) v' \<longrightarrow>
      (\<exists>L'. readiter_main fuel lib env argv0 L = Inr (0, L') \<and>
        map_call BPF_MAP_UPDATE_ELEM (map_fd M ! 0) key0 (word_bytes (PT_REGS_PARM1 ctx)) \<in> set (calls L') \<and>
        Puts (nl (''avg = '' @ dec_nat (sum_list vs div 1365) @ '', on buffer '' @ string_of_bytes data))
          \<in> set (calls L')))"
proof (rule vruns_mono [OF readiter_stores [OF assms(1-6)]], intro impI)
  fix r v'
  let ?avg = "word_of_nat (sum_list vs div 1365) :: u64"
  let ?lookup = "map_call BPF_MAP_LOOKUP_ELEM (map_fd M ! 1) key0 []"
  assume stored: "r = 0 \<and> v_ret v' = Some 0 \<and> v_map v' result_map key0 = Some (word_bytes ?avg) \<and>
      mem_bytes v' (PT_REGS_PARM1 ctx) 4 = Some answer_nl \<and>
      (\<forall>m key. m \<noteq> result_map \<longrightarrow> v_map v' m key = v_map v m key)"
    and shown: "shows_result env (map_fd M ! 1) v'"
  have lookup: "r_ret (env h ?lookup) = 0" "r_data (env h ?lookup) = word_bytes ?avg" for h
    using shown stored by (simp_all add: shows_result_def Let_def)
  note run = readiter_main_run [OF assms(8-13) lookup assms(14-16)]
  then show "\<exists>L'. readiter_main fuel lib env argv0 L = Inr (0, L') \<and>
      map_call BPF_MAP_UPDATE_ELEM (map_fd M ! 0) key0 (word_bytes (PT_REGS_PARM1 ctx)) \<in> set (calls L') \<and>
      Puts (nl (''avg = '' @ dec_nat (sum_list vs div 1365) @ '', on buffer '' @ string_of_bytes data))
        \<in> set (calls L')"
    using average_fits [OF assms(4)] assms(7) by simp
qed

theorem readiter_end_to_end_witness:
  "vruns ref_view (readiter_bpf_copyout ref_kernel [0, 0, 0] sample_regs) sample
    (\<lambda>r v'. \<exists>L'. readiter_main 1 sample_lib user_env ''readiter'' loader_init = Inr (0, L') \<and>
       Puts (nl (''avg = '' @ dec_nat 42 @ '', on buffer '' @ string_of_bytes answer_nl)) \<in> set (calls L'))"
proof -
  obtain M where M: "load_bpf_file 1 sample_lib user_env (object_name ''readiter'')
      (loader_init\<lparr>calls := calls loader_init @
         [Puts (nl (''eBPF file to be loaded is : '' @ object_name ''readiter'' @ '' ''))]\<rparr>) = Inr (0, M)"
    "loader_wf M"
    using sample_load [OF user_env_succeeds, of "loader_init\<lparr>calls := calls loader_init @
         [Puts (nl (''eBPF file to be loaded is : '' @ object_name ''readiter'' @ '' ''))]\<rparr>"]
      loader_wf_init sample_prog_cnt by auto
  have shown: "shows_result user_env (map_fd M ! 1) v" if "v_map v result_map key0 = Some (word_bytes (42 :: u64))" for v
    using that by (simp add: shows_result_def user_env_def)
  have page: "mem_bytes sample (PT_REGS_PARM2 sample_regs) UBUFFSIZE = Some sample_page"
    by (simp add: sample_mem UBUFFSIZE_def)
  have buf: "registered sample (PT_REGS_PARM1 sample_regs)" "writable sample (PT_REGS_PARM1 sample_regs) 4"
    "PT_REGS_PARM1 sample_regs = word_of_int 65536"
    using sample_registered sample_writable [of 4] by (simp_all add: writable_def)
  have avg: "sum_list (replicate 1365 (42 :: nat)) div 1365 = 42"
    by (simp add: sum_list_replicate)
  have env: "r_ret (user_env h (Open ''f'' [O_RDONLY])) = 7" "r_ret (user_env h (Malloc 4096)) = 65536"
    "r_ret (user_env h (Bpf BPF_MAP_UPDATE_ELEM a)) = 0" "r_ret (user_env h (Read_buf 7 65536 4066)) = 4"
    "r_data (user_env h (Read_buf 7 65536 4066)) = answer_nl" for h a
    by (simp_all add: user_env_def sample_env_def)
  have "0 \<in> set answer_nl"
    by (simp add: answer_nl_def)
  note run = readiter_end_to_end [OF ref.kernel_doc_axioms buf(1) page sample_fields buf(2) _ buf(3) M env(1) _ env(2-5) this,
      of "[0, 0, 0]"]
  have stored: "vruns ref_view (readiter_bpf_copyout ref_kernel [0, 0, 0] sample_regs) sample
      (\<lambda>r v'. v_map v' result_map key0 = Some (word_bytes (42 :: u64)))"
    by (rule vruns_mono [OF readiter_stores [OF ref.kernel_doc_axioms buf(1) page sample_fields buf(2)]])
      (simp_all add: avg)
  show ?thesis
    by (rule vruns_mono [OF vruns_conj [OF run stored]]) (use shown avg in auto)
qed

end
